(* ===== verification/Prelude.thy ===== *)
theory Prelude
  imports Main "HOL-Library.Word"
begin

text \<open>
  The prelude of the development: the C++ errors and the program monad the stateful code is
  written in, its weakest preconditions, 64-bit \<^verbatim>\<open>size_t\<close> arithmetic, and byte memory with
  the reads and writes the packet views perform.

  A member function that may throw and that changes its object is a
  \<^verbatim>\<open>('s, 'a) prog\<close>: it maps the state to the value or the error, and to the state it leaves.
  A C++ exception does not undo the writes before it, so the state is returned in both cases.
\<close>

named_theorems prog_defs \<open>the combinators of the program monad, for evaluation\<close>
named_theorems reader_intros \<open>programs that do not change the state\<close>
named_theorems keeps_intros \<open>programs that do not change a part of the state\<close>
named_theorems wp_simps \<open>weakest preconditions of the combinators and of the operations\<close>

section \<open>Types\<close>

type_synonym byte = "8 word"
type_synonym bytes = "8 word list"
type_synonym u16 = "16 word"
type_synonym u32 = "32 word"
type_synonym u64 = "64 word"

text \<open>
  What a call can end with other than a value: the \<^verbatim>\<open>std::runtime_error\<close> of a failed
  \<^verbatim>\<open>REQUIRE\<close>, \<^verbatim>\<open>value()\<close> on an empty optional, an invalid argument, or behaviour the
  language leaves undefined (an access outside the object, a shift by the width or more).
\<close>

datatype error =
    Runtime_error string
  | Bad_optional_access
  | Invalid_argument string
  | Undefined_behaviour string

text \<open>\<^verbatim>\<open>std::strong_ordering\<close>.\<close>

datatype strong_ordering = Less_ordering | Equal_ordering | Greater_ordering

type_synonym ('s, 'a) prog = "'s \<Rightarrow> (error + 'a) \<times> 's"

section \<open>The program monad\<close>

definition ret :: "'a \<Rightarrow> ('s, 'a) prog" where
  "ret a = (\<lambda>s. (Inr a, s))"

definition throw :: "error \<Rightarrow> ('s, 'a) prog" where
  "throw e = (\<lambda>s. (Inl e, s))"

definition bindM :: "('s, 'a) prog \<Rightarrow> ('a \<Rightarrow> ('s, 'b) prog) \<Rightarrow> ('s, 'b) prog" where
  "bindM m f = (\<lambda>s. case m s of (Inl e, t) \<Rightarrow> (Inl e, t) | (Inr a, t) \<Rightarrow> f a t)"

definition thenM :: "('s, 'a) prog \<Rightarrow> ('s, 'b) prog \<Rightarrow> ('s, 'b) prog" where
  "thenM m n = bindM m (\<lambda>_. n)"

definition gets :: "('s \<Rightarrow> 'a) \<Rightarrow> ('s, 'a) prog" where
  "gets f = (\<lambda>s. (Inr (f s), s))"

definition modify :: "('s \<Rightarrow> 's) \<Rightarrow> ('s, unit) prog" where
  "modify f = (\<lambda>s. (Inr (), f s))"

text \<open>\<^verbatim>\<open>REQUIRE(statement, message)\<close>: log and throw when the statement is false.\<close>

definition require :: "bool \<Rightarrow> string \<Rightarrow> ('s, unit) prog" where
  "require b msg = (if b then ret () else throw (Runtime_error msg))"

text \<open>An access the language defines only when the condition holds.\<close>

definition defined_if :: "bool \<Rightarrow> string \<Rightarrow> ('s, unit) prog" where
  "defined_if b msg = (if b then ret () else throw (Undefined_behaviour msg))"

text \<open>\<^verbatim>\<open>std::optional<T>::value()\<close>.\<close>

definition opt_value :: "'a option \<Rightarrow> ('s, 'a) prog" where
  "opt_value x = (case x of None \<Rightarrow> throw Bad_optional_access | Some a \<Rightarrow> ret a)"

text \<open>\<^verbatim>\<open>ASSIGN_OR_RETURN(lhs, rexpr, ret_value)\<close> followed by the rest of the function.\<close>

definition assign_or_return ::
    "('s, 'a option) prog \<Rightarrow> 'b \<Rightarrow> ('a \<Rightarrow> ('s, 'b) prog) \<Rightarrow> ('s, 'b) prog" where
  "assign_or_return m r k = bindM m (\<lambda>x. case x of None \<Rightarrow> ret r | Some a \<Rightarrow> k a)"

text \<open>A call on a member object: the program runs on the field and the field is stored back.\<close>

definition zoom ::
    "('s \<Rightarrow> 't) \<Rightarrow> (('t \<Rightarrow> 't) \<Rightarrow> 's \<Rightarrow> 's) \<Rightarrow> ('t, 'a) prog \<Rightarrow> ('s, 'a) prog" where
  "zoom get upd m = (\<lambda>s. case m (get s) of (r, t) \<Rightarrow> (r, upd (\<lambda>_. t) s))"

text \<open>Calls on a local object: the program runs on the object and the object is returned updated.\<close>

definition run_local :: "('t, 'a) prog \<Rightarrow> 't \<Rightarrow> ('s, 't) prog" where
  "run_local m x = (\<lambda>s. case m x of (Inl e, y) \<Rightarrow> (Inl e, s) | (Inr a, y) \<Rightarrow> (Inr y, s))"

text \<open>A range-based \<^verbatim>\<open>for\<close>.\<close>

fun foreach :: "('a \<Rightarrow> ('s, unit) prog) \<Rightarrow> 'a list \<Rightarrow> ('s, unit) prog" where
  "foreach f [] = ret ()"
| "foreach f (x # xs) = thenM (f x) (foreach f xs)"

definition wp ::
    "('s, 'a) prog \<Rightarrow> ('a \<Rightarrow> 's \<Rightarrow> bool) \<Rightarrow> (error \<Rightarrow> 's \<Rightarrow> bool) \<Rightarrow> 's \<Rightarrow> bool" where
  "wp m Q E s = (case m s of (Inl e, t) \<Rightarrow> E e t | (Inr a, t) \<Rightarrow> Q a t)"

text \<open>A program that leaves the state alone, whether it returns or throws.\<close>

definition reader :: "('s, 'a) prog \<Rightarrow> bool" where
  "reader m \<longleftrightarrow> (\<forall>s. snd (m s) = s)"

text \<open>A program that leaves a part of the state alone.\<close>

definition keeps :: "('s \<Rightarrow> 'b) \<Rightarrow> ('s, 'a) prog \<Rightarrow> bool" where
  "keeps f m \<longleftrightarrow> (\<forall>s. f (snd (m s)) = f s)"

section \<open>64-bit sizes\<close>

text \<open>\<^verbatim>\<open>size_t\<close> values are naturals below \<open>2 ^ 64\<close>; these operations wrap around.\<close>

definition sub64 :: "nat \<Rightarrow> nat \<Rightarrow> nat" where
  "sub64 a b = nat ((int a - int b) mod 2 ^ 64)"

definition add64 :: "nat \<Rightarrow> nat \<Rightarrow> nat" where
  "add64 a b = (a + b) mod 2 ^ 64"

section \<open>Byte memory\<close>

definition chunk :: "nat \<Rightarrow> nat \<Rightarrow> 'a list \<Rightarrow> 'a list" where
  "chunk off n mem = take n (drop off mem)"

definition poke :: "nat \<Rightarrow> 'a list \<Rightarrow> 'a list \<Rightarrow> 'a list" where
  "poke off bs mem = take off mem @ bs @ drop (off + length bs) mem"

text \<open>The bytes of a string literal.\<close>

definition string_bytes :: "string \<Rightarrow> bytes" where
  "string_bytes = map of_char"

section \<open>Numbers as text\<close>

text \<open>\<^verbatim>\<open>std::to_string\<close>.\<close>

fun nat_digits :: "nat \<Rightarrow> string" where
  "nat_digits n = (if n < 10 then [char_of (48 + n)] else nat_digits (n div 10) @ [char_of (48 + n mod 10)])"

declare nat_digits.simps [simp del]

definition int_digits :: "int \<Rightarrow> string" where
  "int_digits i = (if i < 0 then CHR ''-'' # nat_digits (nat (- i)) else nat_digits (nat i))"

section \<open>Lemmas of the program monad\<close>

lemmas prog_combinators [prog_defs] =
  ret_def throw_def bindM_def thenM_def gets_def modify_def require_def defined_if_def
  opt_value_def assign_or_return_def zoom_def run_local_def

text \<open>The equations leave the state out on the left, so that they also rewrite under the postconditions.\<close>

lemma wp_ret [wp_simps]: "wp (ret a) Q E = Q a"
  by (simp add: wp_def ret_def fun_eq_iff)

lemma wp_throw [wp_simps]: "wp (throw e) Q E = E e"
  by (simp add: wp_def throw_def fun_eq_iff)

lemma wp_bindM [wp_simps]: "wp (bindM m f) Q E = wp m (\<lambda>a. wp (f a) Q E) E"
  by (auto simp: wp_def bindM_def fun_eq_iff split: prod.splits sum.splits)

lemma wp_thenM [wp_simps]: "wp (thenM m n) Q E = wp m (\<lambda>_. wp n Q E) E"
  by (simp add: thenM_def wp_bindM)

lemma wp_gets [wp_simps]: "wp (gets f) Q E = (\<lambda>s. Q (f s) s)"
  by (simp add: wp_def gets_def fun_eq_iff)

lemma wp_modify [wp_simps]: "wp (modify f) Q E = (\<lambda>s. Q () (f s))"
  by (simp add: wp_def modify_def fun_eq_iff)

lemma wp_require [wp_simps]:
  "wp (require b msg) Q E = (if b then Q () else E (Runtime_error msg))"
  by (simp add: require_def wp_ret wp_throw)

lemma wp_defined_if [wp_simps]:
  "wp (defined_if b msg) Q E = (if b then Q () else E (Undefined_behaviour msg))"
  by (simp add: defined_if_def wp_ret wp_throw)

lemma wp_opt_value [wp_simps]:
  "wp (opt_value x) Q E = (case x of None \<Rightarrow> E Bad_optional_access | Some a \<Rightarrow> Q a)"
  by (cases x) (simp_all add: opt_value_def wp_ret wp_throw)

lemma wp_assign_or_return [wp_simps]:
  "wp (assign_or_return m r k) Q E =
     wp m (\<lambda>x t. case x of None \<Rightarrow> Q r t | Some a \<Rightarrow> wp (k a) Q E t) E"
  by (auto simp: assign_or_return_def wp_def bindM_def ret_def fun_eq_iff split: prod.splits sum.splits option.splits)

lemma wp_zoom [wp_simps]:
  "wp (zoom get upd m) Q E =
     (\<lambda>s. wp m (\<lambda>a t. Q a (upd (\<lambda>_. t) s)) (\<lambda>e t. E e (upd (\<lambda>_. t) s)) (get s))"
  by (auto simp: wp_def zoom_def fun_eq_iff split: prod.splits sum.splits)

lemma wp_run_local [wp_simps]:
  "wp (run_local m x) Q E = (\<lambda>s. wp m (\<lambda>_ y. Q y s) (\<lambda>e _. E e s) x)"
  by (auto simp: wp_def run_local_def fun_eq_iff split: prod.splits sum.splits)

lemma wp_if [wp_simps]:
  "wp (if b then m else n) Q E = (if b then wp m Q E else wp n Q E)"
  by simp

lemma wp_mono:
  assumes "wp m Q E s" and "\<And>a t. Q a t \<Longrightarrow> Q' a t" and "\<And>e t. E e t \<Longrightarrow> E' e t"
  shows "wp m Q' E' s"
  using assms by (auto simp: wp_def split: prod.splits sum.splits)

lemma wp_conj:
  "wp m (\<lambda>a t. Q a t \<and> Q' a t) (\<lambda>e t. E e t \<and> E' e t) s = (wp m Q E s \<and> wp m Q' E' s)"
  by (auto simp: wp_def split: prod.splits sum.splits)

lemma wp_result: "m s = (Inr a, t) \<Longrightarrow> wp m Q E s = Q a t"
  by (simp add: wp_def)

lemma wp_error: "m s = (Inl e, t) \<Longrightarrow> wp m Q E s = E e t"
  by (simp add: wp_def)

lemma wp_reader:
  assumes "reader m" and "\<And>a. Q a s" and "\<And>e. E e s"
  shows "wp m Q E s"
proof -
  have "snd (m s) = s" using assms(1) by (simp add: reader_def)
  then show ?thesis using assms(2,3) by (auto simp: wp_def split: prod.splits sum.splits)
qed

lemma reader_prims [reader_intros]:
  "reader (ret a)" "reader (throw e)" "reader (gets f)" "reader (require b msg)" "reader (defined_if b msg)"
  "reader (opt_value x)"
  by (simp_all add: reader_def ret_def throw_def gets_def require_def defined_if_def opt_value_def split: option.splits)

lemma reader_bindM [reader_intros]: "reader m \<Longrightarrow> (\<And>a. reader (f a)) \<Longrightarrow> reader (bindM m f)"
  by (auto simp: reader_def bindM_def split: prod.splits sum.splits) (metis snd_conv)+

lemma reader_thenM [reader_intros]: "reader m \<Longrightarrow> reader n \<Longrightarrow> reader (thenM m n)"
  unfolding thenM_def by (intro reader_bindM)

lemma reader_if [reader_intros]: "(b \<Longrightarrow> reader m) \<Longrightarrow> (\<not> b \<Longrightarrow> reader n) \<Longrightarrow> reader (if b then m else n)"
  by simp

lemma reader_Let [reader_intros]: "(\<And>x. reader (f x)) \<Longrightarrow> reader (let x = a in f x)"
  by (simp add: Let_def)

text \<open>Programs that leave a part of the state alone.\<close>

lemma keeps_reader: "reader m \<Longrightarrow> keeps f m"
  by (simp add: reader_def keeps_def)

lemma keeps_prims [keeps_intros]:
  "keeps f (ret a)" "keeps f (throw e)" "keeps f (gets g)" "keeps f (require b msg)" "keeps f (defined_if b msg)"
  "keeps f (opt_value x)" "keeps f (run_local m y)"
  by (auto intro!: keeps_reader reader_intros simp: reader_def run_local_def split: prod.splits sum.splits)

lemma keeps_modify [keeps_intros]: "(\<And>s. f (g s) = f s) \<Longrightarrow> keeps f (modify g)"
  by (simp add: keeps_def modify_def)

lemma keeps_bindM [keeps_intros]: "keeps f m \<Longrightarrow> (\<And>a. keeps f (n a)) \<Longrightarrow> keeps f (bindM m n)"
  by (auto simp: keeps_def bindM_def split: prod.splits sum.splits) (metis snd_conv)+

lemma keeps_thenM [keeps_intros]: "keeps f m \<Longrightarrow> keeps f n \<Longrightarrow> keeps f (thenM m n)"
  unfolding thenM_def by (intro keeps_bindM)

lemma keeps_if [keeps_intros]: "(b \<Longrightarrow> keeps f m) \<Longrightarrow> (\<not> b \<Longrightarrow> keeps f n) \<Longrightarrow> keeps f (if b then m else n)"
  by simp

lemma keeps_Let [keeps_intros]: "(\<And>x. keeps f (m x)) \<Longrightarrow> keeps f (let x = a in m x)"
  by (simp add: Let_def)

lemma keeps_option [keeps_intros]:
  "keeps f m \<Longrightarrow> (\<And>a. keeps f (n a)) \<Longrightarrow> keeps f (case x of None \<Rightarrow> m | Some a \<Rightarrow> n a)"
  by (cases x) simp_all

lemma keeps_prod [keeps_intros]: "(\<And>a b. keeps f (n a b)) \<Longrightarrow> keeps f (case x of (a, b) \<Rightarrow> n a b)"
  by (cases x) simp

lemma keeps_assign_or_return [keeps_intros]:
  "keeps f m \<Longrightarrow> (\<And>a. keeps f (k a)) \<Longrightarrow> keeps f (assign_or_return m r k)"
  unfolding assign_or_return_def by (intro keeps_bindM keeps_option keeps_prims)

lemma wp_keeps:
  assumes "keeps f m" shows "wp m (\<lambda>_ t. f t = f s) (\<lambda>_ t. f t = f s) s"
  using assms [unfolded keeps_def, rule_format, of s] by (auto simp: wp_def split: prod.splits sum.splits)

lemma wp_and_keeps:
  assumes "wp m Q E s" and "keeps f m"
  shows "wp m (\<lambda>a t. Q a t \<and> f t = f s) (\<lambda>e t. E e t \<and> f t = f s) s"
  unfolding wp_conj using assms(1) wp_keeps [OF assms(2)] by simp

section \<open>Lemmas of sizes and of byte memory\<close>

lemma sub64_le [simp]: "b \<le> a \<Longrightarrow> a < 2 ^ 64 \<Longrightarrow> sub64 a b = a - b"
  by (simp add: sub64_def of_nat_diff [symmetric] del: of_nat_diff)

lemma sub64_wrap: "a < b \<Longrightarrow> b \<le> 2 ^ 64 \<Longrightarrow> sub64 a b = 2 ^ 64 + a - b"
proof -
  assume a: "a < b" "b \<le> 2 ^ 64"
  then have "(int a - int b) mod 2 ^ 64 = (int a - int b + 2 ^ 64) mod 2 ^ 64" by simp
  also have "\<dots> = int a - int b + 2 ^ 64" using a by (intro mod_pos_pos_trivial) auto
  finally show ?thesis using a by (simp add: sub64_def nat_diff_distrib')
qed

lemma sub64_less: "sub64 a b < 2 ^ 64"
proof -
  have "(int a - int b) mod 2 ^ 64 < 2 ^ 64" by (rule pos_mod_bound) simp
  then show ?thesis by (simp add: sub64_def nat_less_iff)
qed

lemma add64_small [simp]: "a + b < 2 ^ 64 \<Longrightarrow> add64 a b = a + b"
  by (simp add: add64_def)

lemma length_chunk [simp]: "length (chunk off n mem) = min n (length mem - off)"
  by (simp add: chunk_def)

lemma chunk_0 [simp]: "chunk off 0 mem = []"
  by (simp add: chunk_def)

lemma length_poke [simp]:
  "off + length bs \<le> length mem \<Longrightarrow> length (poke off bs mem) = length mem"
  by (simp add: poke_def)

lemma chunk_poke_same [simp]:
  "off + length bs \<le> length mem \<Longrightarrow> n = length bs \<Longrightarrow> chunk off n (poke off bs mem) = bs"
  by (simp add: chunk_def poke_def)

lemma chunk_poke_before:
  "off + n \<le> off' \<Longrightarrow> off' + length bs \<le> length mem \<Longrightarrow> chunk off n (poke off' bs mem) = chunk off n mem"
  by (simp add: chunk_def poke_def drop_take)

lemma chunk_poke_after:
  assumes "off' + length bs \<le> off" and "off' + length bs \<le> length mem"
  shows "chunk off n (poke off' bs mem) = chunk off n mem"
proof -
  obtain k where k: "off = off' + length bs + k" using assms(1) le_Suc_ex by blast
  have "drop off (poke off' bs mem) = drop off mem"
    using assms(2) by (simp add: poke_def k add.commute add.left_commute)
  then show ?thesis by (simp add: chunk_def)
qed

lemma chunk_chunk [simp]:
  "off' + n' \<le> n \<Longrightarrow> chunk off' n' (chunk off n mem) = chunk (off + off') n' mem"
  by (simp add: chunk_def drop_take min_def add.commute)

lemma chunk_0_all [simp]: "chunk 0 (length mem) mem = mem"
  by (simp add: chunk_def)

lemma chunk_Suc:
  "off < length mem \<Longrightarrow> chunk off (Suc n) mem = mem ! off # chunk (Suc off) n mem"
  by (simp add: chunk_def Cons_nth_drop_Suc [symmetric])

lemma chunk_append_chunk:
  "chunk off n mem @ chunk (off + n) m mem = chunk off (n + m) mem"
  unfolding chunk_def by (subst take_add) (simp add: add.commute)

lemma poke_chunk [simp]: "off + n \<le> length mem \<Longrightarrow> poke off (chunk off n mem) mem = mem"
  unfolding chunk_def poke_def append_assoc [symmetric]
  by (subst take_add [symmetric]) (simp add: add.commute)

lemma poke_poke_same [simp]:
  "length bs = length cs \<Longrightarrow> off + length bs \<le> length mem \<Longrightarrow> poke off bs (poke off cs mem) = poke off bs mem"
  by (simp add: poke_def)

lemma nth_poke:
  "off + length bs \<le> length mem \<Longrightarrow> i < length mem \<Longrightarrow>
     poke off bs mem ! i = (if off \<le> i \<and> i < off + length bs then bs ! (i - off) else mem ! i)"
  by (auto simp: poke_def nth_append)

lemma poke_commute:
  assumes "off + length bs \<le> off'" and "off' + length cs \<le> length mem"
  shows "poke off bs (poke off' cs mem) = poke off' cs (poke off bs mem)"
  using assms by (intro nth_equalityI) (auto simp: nth_poke)

section \<open>Loops\<close>

text \<open>A loop counter below its limit does not wrap around when it is stepped.\<close>

lemma unat_step:
  fixes i n :: "'a::len word" assumes "i < n" shows "unat (i + 1) = Suc (unat i)"
proof -
  have "Suc (unat i) \<le> unat n" using assms by (simp add: word_less_nat_alt Suc_le_eq)
  also have "unat n < 2 ^ LENGTH('a)" by (rule unsigned_less)
  finally have "Suc (unat i) < 2 ^ LENGTH('a)" .
  then show ?thesis by (simp add: unat_word_ariths)
qed

lemma step_less_measure:
  fixes i n :: "'a::len word" assumes "i < n" shows "unat n - unat (i + 1) < unat n - unat i"
  using assms by (simp add: unat_step [OF assms] word_less_nat_alt diff_less_mono2)

lemma foreach_append: "foreach f (xs @ ys) = thenM (foreach f xs) (foreach f ys)"
  by (induction xs) (auto simp: prog_defs fun_eq_iff split: prod.splits sum.splits)

lemma keeps_foreach [keeps_intros]: "(\<And>x. keeps g (f x)) \<Longrightarrow> keeps g (foreach f xs)"
  by (induction xs) (auto intro: keeps_intros)

end
