(* ===== verification/Endian.thy ===== *)
theory Endian
  imports Prelude
begin

text \<open>
  Words as bytes and big-endian fields. \<^verbatim>\<open>BE<T>\<close> (src/src/network/type/big_endian.h) stores
  \<^verbatim>\<open>std::byteswap(value)\<close> in a native word; on the little-endian host the code asserts, the
  memory image of that word is the network order of the value. The locale \<open>packed_struct\<close> is the
  contract of a \<^verbatim>\<open>#pragma pack(1)\<close> struct that the code overlays on bytes with
  \<^verbatim>\<open>start_lifetime_as\<close>: a fixed size, and a decoder and an encoder that are inverse to each other.
\<close>

unbundle bit_operations_syntax

named_theorems codec_simps \<open>decoders and encoders of the packed structs, for evaluation\<close>

section \<open>Memory image of a word on a little-endian host\<close>

primrec le_bytes :: "nat \<Rightarrow> 'a::len word \<Rightarrow> bytes" where
  "le_bytes 0 w = []"
| "le_bytes (Suc n) w = ucast w # le_bytes n (drop_bit 8 w)"

primrec of_le_bytes :: "bytes \<Rightarrow> 'a::len word" where
  "of_le_bytes [] = 0"
| "of_le_bytes (b # bs) = ucast b OR push_bit 8 (of_le_bytes bs)"

text \<open>The big-endian (network order) image, the reference the header fields are compared with.\<close>

definition be_bytes :: "nat \<Rightarrow> 'a::len word \<Rightarrow> bytes" where
  "be_bytes n w = rev (le_bytes n w)"

definition of_be_bytes :: "bytes \<Rightarrow> 'a::len word" where
  "of_be_bytes bs = of_le_bytes (rev bs)"

text \<open>\<^verbatim>\<open>std::byteswap\<close> (C++23): the bytes of the word in reverse.\<close>

definition byteswap :: "'a::len word \<Rightarrow> 'a word" where
  "byteswap w = of_le_bytes (rev (le_bytes (LENGTH('a) div 8) w))"

section \<open>BE<T>\<close>

text \<open>An object of \<^verbatim>\<open>BE<T>\<close> is its one member \<^verbatim>\<open>value_\<close>, the swapped word.\<close>

type_synonym 'a be = "'a word"

definition BE :: "'a::len word \<Rightarrow> 'a be" where
  "BE v = byteswap v"

definition be_value :: "'a::len be \<Rightarrow> 'a word" where
  "be_value x = byteswap x"

definition be_data :: "'a::len be \<Rightarrow> 'a word" where
  "be_data x = x"

definition from_big_endian :: "'a::len word \<Rightarrow> 'a be" where
  "from_big_endian v = v"

definition be_eq :: "'a::len be \<Rightarrow> 'a be \<Rightarrow> bool" where
  "be_eq x y \<longleftrightarrow> be_data x = be_data y"

text \<open>A \<^verbatim>\<open>BE\<close> field in a packed struct: the native word it holds, byte by byte.\<close>

definition be_mem :: "'a::len be \<Rightarrow> bytes" where
  "be_mem x = le_bytes (LENGTH('a) div 8) (be_data x)"

definition mem_be :: "bytes \<Rightarrow> 'a::len be" where
  "mem_be bs = of_le_bytes bs"

section \<open>The contract of a packed struct\<close>

locale packed_struct =
  fixes enc :: "'a \<Rightarrow> bytes" and dec :: "bytes \<Rightarrow> 'a" and size_of :: nat
  assumes length_enc: "length (enc x) = size_of"
    and dec_enc: "dec (enc x) = x"
    and enc_dec: "length bs = size_of \<Longrightarrow> enc (dec bs) = bs"
begin

lemma enc_inject: "enc x = enc y \<longleftrightarrow> x = y"
  using dec_enc by metis

lemma dec_inject:
  "length bs = size_of \<Longrightarrow> length cs = size_of \<Longrightarrow> dec bs = dec cs \<longleftrightarrow> bs = cs"
  using enc_dec by metis

lemma read_written:
  "off + size_of \<le> length mem \<Longrightarrow> dec (chunk off size_of (poke off (enc x) mem)) = x"
  by (simp add: length_enc dec_enc)

lemma length_written:
  "off + size_of \<le> length mem \<Longrightarrow> length (poke off (enc x) mem) = length mem"
  by (simp add: length_enc)

lemma read_frame:
  "off + n \<le> off' \<or> off' + size_of \<le> off \<Longrightarrow> off' + size_of \<le> length mem \<Longrightarrow>
     chunk off n (poke off' (enc x) mem) = chunk off n mem"
  using chunk_poke_before [of off n off' "enc x" mem] chunk_poke_after [of off' "enc x" off mem n]
  by (auto simp: length_enc)

lemma write_back: "off + size_of \<le> length mem \<Longrightarrow> poke off (enc (dec (chunk off size_of mem))) mem = mem"
  by (simp add: enc_dec)

end

section \<open>Words and bytes\<close>

lemma length_le_bytes [simp]: "length (le_bytes n w) = n"
  by (induction n arbitrary: w) simp_all

lemma le_bytes_numeral [codec_simps]:
  "le_bytes (numeral k) w = ucast w # le_bytes (pred_numeral k) (drop_bit 8 w)"
  by (simp add: numeral_eq_Suc)

lemma length_be_bytes [simp]: "length (be_bytes n w) = n"
  by (simp add: be_bytes_def)

lemma bit_of_le_bytes:
  "bit (of_le_bytes bs :: 'a::len word) i \<longleftrightarrow>
     i < LENGTH('a) \<and> i div 8 < length bs \<and> bit (bs ! (i div 8)) (i mod 8)"
proof (induction bs arbitrary: i)
  case Nil
  then show ?case by simp
next
  case (Cons b bs)
  show ?case
  proof (cases "i < 8")
    case True
    then show ?thesis by (auto simp: bit_simps)
  next
    case False
    then obtain j where j: "i = j + 8" using add.commute le_Suc_ex not_less by metis
    have nb: "\<not> bit b (j + 8)" using bit_imp_le_length [of b "j + 8"] by auto
    have div: "(j + 8) div 8 = Suc (j div 8)" by simp
    show ?thesis using Cons.IH [of j] nb by (auto simp: j bit_simps div simp del: div_add_self2)
  qed
qed

lemma nth_le_bytes:
  "k < n \<Longrightarrow> le_bytes n w ! k = (ucast (drop_bit (8 * k) w) :: byte)"
proof (induction n arbitrary: w k)
  case 0
  then show ?case by simp
next
  case (Suc n)
  then show ?case by (cases k) (simp_all add: add.commute)
qed

lemma bit_nth_le_bytes:
  fixes w :: "'a::len word"
  shows "k < n \<Longrightarrow> bit (le_bytes n w ! k) i \<longleftrightarrow> i < 8 \<and> bit w (8 * k + i)"
  by (auto simp: nth_le_bytes bit_simps)

lemma of_le_bytes_le_bytes:
  "LENGTH('a) \<le> 8 * n \<Longrightarrow> of_le_bytes (le_bytes n w) = (w :: 'a::len word)"
  by (rule bit_word_eqI) (auto simp: bit_of_le_bytes bit_nth_le_bytes)

lemma le_bytes_of_le_bytes:
  assumes "8 * length bs \<le> LENGTH('a)"
  shows "le_bytes (length bs) (of_le_bytes bs :: 'a::len word) = bs"
proof (rule nth_equalityI)
  fix k assume k: "k < length (le_bytes (length bs) (of_le_bytes bs :: 'a word))"
  have "bit (le_bytes (length bs) (of_le_bytes bs :: 'a word) ! k) i = bit (bs ! k) i" if "i < 8" for i
    using assms k that by (simp add: bit_nth_le_bytes bit_of_le_bytes)
  then show "le_bytes (length bs) (of_le_bytes bs :: 'a word) ! k = bs ! k"
    by (intro bit_word_eqI) simp
qed simp

lemma byteswap_byteswap [simp]:
  assumes "8 dvd LENGTH('a)"
  shows "byteswap (byteswap w) = (w :: 'a::len word)"
proof -
  let ?n = "LENGTH('a) div 8"
  have "le_bytes ?n (byteswap w) = rev (le_bytes ?n w)"
    using le_bytes_of_le_bytes [of "rev (le_bytes ?n w)", where 'a = 'a] assms
    by (simp add: byteswap_def)
  then show ?thesis using assms by (simp add: byteswap_def of_le_bytes_le_bytes)
qed

lemma le_bytes_byteswap:
  assumes "8 dvd LENGTH('a)"
  shows "le_bytes (LENGTH('a) div 8) (byteswap w) = be_bytes (LENGTH('a) div 8) (w :: 'a::len word)"
  using le_bytes_of_le_bytes [of "rev (le_bytes (LENGTH('a) div 8) w)", where 'a = 'a] assms
  by (simp add: byteswap_def be_bytes_def)

section \<open>Small numbers as words\<close>

lemma unat_u16_less: "unat (w :: u16) < 65536"
  using unsigned_less [of w, where 'a = nat] by simp

lemma unat_of_nat_byte [simp]: "n < 256 \<Longrightarrow> unat (of_nat n :: byte) = n"
  by (simp add: unat_of_nat take_bit_eq_mod)

lemma unat_of_nat_u32 [simp]: "n < 4294967296 \<Longrightarrow> unat (of_nat n :: u32) = n"
  by (simp add: unat_of_nat take_bit_eq_mod)

lemma unat_of_nat_u16 [simp]: "n < 65536 \<Longrightarrow> unat (of_nat n :: u16) = n"
  by (simp add: unat_of_nat take_bit_eq_mod)

section \<open>Laws of BE\<close>

lemma be_value_BE [simp]: "8 dvd LENGTH('a) \<Longrightarrow> be_value (BE v) = (v :: 'a::len word)"
  by (simp add: be_value_def BE_def)

lemma BE_be_value [simp]: "8 dvd LENGTH('a) \<Longrightarrow> BE (be_value x) = (x :: 'a::len be)"
  by (simp add: be_value_def BE_def)

lemma be_data_from_big_endian [simp]: "be_data (from_big_endian v) = v"
  by (simp add: from_big_endian_def be_data_def)

lemma BE_inject [simp]:
  "8 dvd LENGTH('a) \<Longrightarrow> BE v = BE w \<longleftrightarrow> v = (w :: 'a::len word)"
  using be_value_BE by metis

lemma be_eq_iff [simp]: "be_eq x y \<longleftrightarrow> x = y"
  by (simp add: be_eq_def be_data_def)

lemma length_be_mem [simp]: "length (be_mem (x :: 'a::len be)) = LENGTH('a) div 8"
  by (simp add: be_mem_def)

lemma be_mem_network_order:
  "8 dvd LENGTH('a) \<Longrightarrow> be_mem (BE v) = be_bytes (LENGTH('a) div 8) (v :: 'a::len word)"
  by (simp add: be_mem_def BE_def be_data_def le_bytes_byteswap)

lemma mem_be_be_mem [simp]: "8 dvd LENGTH('a) \<Longrightarrow> mem_be (be_mem x) = (x :: 'a::len be)"
  by (simp add: mem_be_def be_mem_def be_data_def of_le_bytes_le_bytes)

lemma be_mem_mem_be [simp]:
  "8 dvd LENGTH('a) \<Longrightarrow> length bs = LENGTH('a) div 8 \<Longrightarrow> be_mem (mem_be bs :: 'a::len be) = bs"
  using le_bytes_of_le_bytes [of bs, where 'a = 'a] by (simp add: mem_be_def be_mem_def be_data_def)

lemma be_value_mem_be:
  assumes "8 dvd LENGTH('a)" and "length bs = LENGTH('a) div 8"
  shows "be_value (mem_be bs :: 'a::len be) = of_be_bytes bs"
proof -
  have "le_bytes (LENGTH('a) div 8) (of_le_bytes bs :: 'a word) = bs"
    using le_bytes_of_le_bytes [of bs, where 'a = 'a] assms by simp
  then show ?thesis by (simp add: be_value_def mem_be_def of_be_bytes_def byteswap_def)
qed

interpretation be16: packed_struct "be_mem :: 16 be \<Rightarrow> bytes" mem_be 2
  by unfold_locales simp_all

interpretation be32: packed_struct "be_mem :: 32 be \<Rightarrow> bytes" mem_be 4
  by unfold_locales simp_all

interpretation be64: packed_struct "be_mem :: 64 be \<Rightarrow> bytes" mem_be 8
  by unfold_locales simp_all

lemmas length_be16 [simp] = be16.length_enc
lemmas length_be32 [simp] = be32.length_enc
lemmas length_be64 [simp] = be64.length_enc

end
