(* ===== verification/UInt24.thy ===== *)
theory UInt24
  imports Endian
begin

text \<open>
  The 24-bit unsigned integer of src/src/base/type/uint24.h, which the TLS handshake header and
  the certificate lengths use. The class keeps three bytes; \<open>bytes_[0]\<close> is the most significant
  one, so the three bytes in memory are the network order of the value (two comments in the
  source call the storage little-endian).
\<close>

section \<open>The class\<close>

datatype uint24 = UInt24_bytes (bytes_0: byte) (bytes_1: byte) (bytes_2: byte)

definition UInt24_MAX_VALUE :: u32 where
  "UInt24_MAX_VALUE = 0xFFFFFF"

definition UInt24_default :: uint24 where
  "UInt24_default = UInt24_bytes 0 0 0"

definition UInt24_set_value :: "u32 \<Rightarrow> uint24" where
  "UInt24_set_value v =
     UInt24_bytes (ucast (drop_bit 16 v AND 0xFF)) (ucast (drop_bit 8 v AND 0xFF)) (ucast (v AND 0xFF))"

definition UInt24 :: "u32 \<Rightarrow> uint24" where
  "UInt24 v = UInt24_set_value v"

definition UInt24_value :: "uint24 \<Rightarrow> u32" where
  "UInt24_value x = ucast (bytes_2 x) OR push_bit 8 (ucast (bytes_1 x)) OR push_bit 16 (ucast (bytes_0 x))"

definition UInt24_eq :: "uint24 \<Rightarrow> uint24 \<Rightarrow> bool" where
  "UInt24_eq x y \<longleftrightarrow> bytes_0 x = bytes_0 y \<and> bytes_1 x = bytes_1 y \<and> bytes_2 x = bytes_2 y"

definition UInt24_less :: "uint24 \<Rightarrow> uint24 \<Rightarrow> bool" where
  "UInt24_less x y \<longleftrightarrow> UInt24_value x < UInt24_value y"

definition UInt24_less_eq :: "uint24 \<Rightarrow> uint24 \<Rightarrow> bool" where
  "UInt24_less_eq x y \<longleftrightarrow> UInt24_value x \<le> UInt24_value y"

definition UInt24_add :: "uint24 \<Rightarrow> uint24 \<Rightarrow> uint24" where
  "UInt24_add x y = UInt24 ((UInt24_value x + UInt24_value y) AND UInt24_MAX_VALUE)"

definition UInt24_sub :: "uint24 \<Rightarrow> uint24 \<Rightarrow> uint24" where
  "UInt24_sub x y = UInt24 ((UInt24_value x - UInt24_value y) AND UInt24_MAX_VALUE)"

text \<open>\<^verbatim>\<open>set_from_big_endian\<close>: copy three bytes.\<close>

definition UInt24_set_from_big_endian :: "byte \<Rightarrow> byte \<Rightarrow> byte \<Rightarrow> uint24" where
  "UInt24_set_from_big_endian a b c = UInt24_bytes a b c"

text \<open>The object's memory image.\<close>

definition UInt24_mem :: "uint24 \<Rightarrow> bytes" where
  "UInt24_mem x = [bytes_0 x, bytes_1 x, bytes_2 x]"

definition mem_UInt24 :: "bytes \<Rightarrow> uint24" where
  "mem_UInt24 bs = UInt24_set_from_big_endian (bs ! 0) (bs ! 1) (bs ! 2)"

section \<open>Value and bytes\<close>

lemma UInt24_value_set: "UInt24_value (UInt24 v) = v AND UInt24_MAX_VALUE"
proof (rule bit_word_eqI)
  fix i assume "i < LENGTH(32)"
  have m: "(0xFFFFFF :: u32) = mask 24" "(0xFF :: u32) = mask 8" by (simp_all add: mask_eq_exp_minus_1)
  show "bit (UInt24_value (UInt24 v)) i = bit (v AND UInt24_MAX_VALUE) i"
    unfolding UInt24_def UInt24_value_def UInt24_set_value_def UInt24_MAX_VALUE_def m
    by (cases "i < 16"; cases "i < 8") (auto simp: bit_simps)
qed

lemma UInt24_value_bound: "unat (UInt24_value x) < 2 ^ 24"
proof -
  have "UInt24_value x = take_bit 24 (UInt24_value x)"
    by (rule bit_word_eqI) (auto simp: UInt24_value_def bit_simps dest: bit_imp_le_length)
  then have "unat (UInt24_value x) = take_bit 24 (unat (UInt24_value x))"
    by (metis unsigned_take_bit_eq)
  then show ?thesis by (metis take_bit_nat_less_exp)
qed

lemma UInt24_set_value_value: "UInt24 (UInt24_value x) = x"
proof (cases x)
  case (UInt24_bytes a b c)
  have m: "(0xFF :: u32) = mask 8" by (simp add: mask_eq_exp_minus_1)
  have "ucast (drop_bit 16 (UInt24_value x) AND 0xFF) = a" "ucast (drop_bit 8 (UInt24_value x) AND 0xFF) = b"
    "ucast (UInt24_value x AND 0xFF) = c"
    unfolding m by (rule bit_word_eqI, auto simp: UInt24_bytes UInt24_value_def bit_simps dest: bit_imp_le_length)+
  then show ?thesis by (simp add: UInt24_def UInt24_set_value_def UInt24_bytes)
qed

lemma UInt24_value_inject: "UInt24_value x = UInt24_value y \<longleftrightarrow> x = y"
  using UInt24_set_value_value by metis

lemma UInt24_MAX_VALUE_mod: "unat (v AND UInt24_MAX_VALUE) = unat v mod 2 ^ 24"
proof -
  have "UInt24_MAX_VALUE = mask 24" by (simp add: UInt24_MAX_VALUE_def mask_eq_exp_minus_1)
  then have "v AND UInt24_MAX_VALUE = take_bit 24 v" by (simp only: take_bit_eq_mask)
  then have "unat (v AND UInt24_MAX_VALUE) = take_bit 24 (unat v)" by (simp only: unsigned_take_bit_eq)
  then show ?thesis by (simp only: take_bit_eq_mod)
qed

lemma UInt24_mem_network_order: "UInt24_mem x = be_bytes 3 (UInt24_value x)"
proof (cases x)
  case (UInt24_bytes a b c)
  have "ucast (UInt24_value x) = c" "ucast (drop_bit 8 (UInt24_value x)) = b"
    "ucast (drop_bit 16 (UInt24_value x)) = a"
    by (rule bit_word_eqI, auto simp: UInt24_bytes UInt24_value_def bit_simps dest: bit_imp_le_length)+
  then show ?thesis
    by (simp add: UInt24_mem_def be_bytes_def numeral_3_eq_3 UInt24_bytes)
qed

lemma UInt24_mem_value: "UInt24_mem (UInt24 v) = be_bytes 3 v"
proof -
  have "ucast (w AND 0xFF) = (ucast w :: byte)" for w :: u32
  proof (rule bit_word_eqI)
    fix n assume "n < LENGTH(8)"
    moreover have "(0xFF :: u32) = mask 8" by (simp add: mask_eq_exp_minus_1)
    ultimately show "bit (ucast (w AND 0xFF) :: byte) n = bit (ucast w :: byte) n"
      by (simp only: bit_simps) auto
  qed
  then show ?thesis
    by (simp add: UInt24_mem_def UInt24_def UInt24_set_value_def be_bytes_def numeral_3_eq_3)
qed

section \<open>The comparison operators are a linear order\<close>

instantiation uint24 :: linorder
begin

definition less_eq_uint24 :: "uint24 \<Rightarrow> uint24 \<Rightarrow> bool" where
  "less_eq_uint24 x y \<longleftrightarrow> UInt24_less_eq x y"

definition less_uint24 :: "uint24 \<Rightarrow> uint24 \<Rightarrow> bool" where
  "less_uint24 x y \<longleftrightarrow> UInt24_less x y"

instance
  by standard
    (auto simp: less_eq_uint24_def less_uint24_def UInt24_less_eq_def UInt24_less_def
      UInt24_value_inject [symmetric])

end

interpretation uint24_mem: packed_struct UInt24_mem mem_UInt24 3
proof
  fix bs :: bytes assume "length bs = 3"
  then show "UInt24_mem (mem_UInt24 bs) = bs"
    by (auto simp: UInt24_mem_def mem_UInt24_def UInt24_set_from_big_endian_def
        numeral_3_eq_3 length_Suc_conv)
qed (simp_all add: UInt24_mem_def mem_UInt24_def UInt24_set_from_big_endian_def)

section \<open>Properties\<close>

text \<open>
  Storing a 32-bit value in a UInt24 keeps it modulo \<open>2 ^ 24\<close>, the object's three bytes are the
  value in network order, and reading bytes and storing the value back is the identity.
\<close>

lemma UInt24_round_trip:
  "unat (UInt24_value (UInt24 v)) = unat v mod 2 ^ 24 \<and>
   UInt24 (UInt24_value x) = x \<and>
   UInt24_mem x = be_bytes 3 (UInt24_value x) \<and> (UInt24_eq x y \<longleftrightarrow> UInt24_value x = UInt24_value y)"
  by (cases x; cases y)
    (auto simp: UInt24_value_set UInt24_MAX_VALUE_mod UInt24_set_value_value UInt24_mem_network_order
      UInt24_eq_def UInt24_value_inject)

text \<open>Addition and subtraction wrap around at \<open>2 ^ 24\<close>.\<close>

lemma UInt24_arith_wraps:
  "unat (UInt24_value (UInt24_add x y)) = (unat (UInt24_value x) + unat (UInt24_value y)) mod 2 ^ 24 \<and>
   unat (UInt24_value (UInt24_sub x y)) =
     (2 ^ 24 + unat (UInt24_value x) - unat (UInt24_value y)) mod 2 ^ 24"
proof -
  let ?a = "UInt24_value x" and ?b = "UInt24_value y"
  have v: "unat (UInt24_value (UInt24 (w AND UInt24_MAX_VALUE))) = unat w mod 2 ^ 24" for w
    by (simp add: UInt24_value_set UInt24_MAX_VALUE_mod and.assoc)
  have ba: "unat ?a < 2 ^ 24" "unat ?b < 2 ^ 24" by (rule UInt24_value_bound)+
  have "unat (?a + ?b) = unat ?a + unat ?b" using ba by (subst unat_word_ariths) simp
  moreover have "unat (?a - ?b) mod 2 ^ 24 = (2 ^ 24 + unat ?a - unat ?b) mod 2 ^ 24"
  proof -
    have "uint (?a - ?b) mod 2 ^ 24 = (uint ?a - uint ?b) mod 2 ^ 24"
      by (simp add: uint_word_ariths mod_mod_cancel)
    also have "\<dots> = (2 ^ 24 + uint ?a - uint ?b) mod 2 ^ 24"
      by (metis add_diff_eq add.commute mod_add_self2)
    finally have "int (unat (?a - ?b) mod 2 ^ 24) = int ((2 ^ 24 + unat ?a - unat ?b) mod 2 ^ 24)"
      using ba by (simp add: zmod_int)
    then show ?thesis by (simp only: of_nat_eq_iff)
  qed
  ultimately show ?thesis by (simp add: UInt24_add_def UInt24_sub_def v)
qed

end
