(* ===== verification/Streams.thy ===== *)
theory Streams
  imports Endian
begin

text \<open>
  The byte streams of src/src/base/stream: \<open>Stream\<close> (stream.h, stream.cpp), the receive and send
  buffer of the TLS and the web socket client; \<open>ByteViewStream\<close> (byte_view_stream.h), a cursor over
  a view, with the read transactions of \<open>Stream\<close>; and \<open>MutableByteViewWriteStream\<close>
  (mutable_byte_view_stream.h), the cursor the TLS client writes packets with.
  The locale \<open>byte_fifo\<close> is what their clients rely on: a first-in first-out queue of bytes.
  A view the code returns into a stream's buffer is the list of the bytes it shows.
\<close>

section \<open>Stream\<close>

record stream =
  buffer :: bytes
  s_read :: nat
  s_write :: nat

definition Stream_new :: "nat \<Rightarrow> stream" where
  "Stream_new buffer_size = \<lparr>buffer = replicate buffer_size 0, s_read = 0, s_write = 0\<rparr>"

definition Stream_size :: "stream \<Rightarrow> nat" where
  "Stream_size s = s_write s - s_read s"

definition Stream_empty :: "stream \<Rightarrow> bool" where
  "Stream_empty s \<longleftrightarrow> Stream_size s = 0"

definition available_suffix_bytes :: "stream \<Rightarrow> nat" where
  "available_suffix_bytes s = length (buffer s) - s_write s"

definition total_available_bytes :: "stream \<Rightarrow> nat" where
  "total_available_bytes s = available_suffix_bytes s + s_read s"

definition Stream_peek :: "nat \<Rightarrow> (stream, bytes option) prog" where
  "Stream_peek n = gets (\<lambda>s. if n > Stream_size s then None else Some (chunk (s_read s) n (buffer s)))"

definition Stream_shift_read :: "nat \<Rightarrow> (stream, unit) prog" where
  "Stream_shift_read n = bindM (gets Stream_size) (\<lambda>size.
     thenM (require (n \<le> size) ''Not enough bytes'')
     (thenM (modify (\<lambda>s. s\<lparr>s_read := s_read s + n\<rparr>))
     (modify (\<lambda>s. if s_read s = s_write s then s\<lparr>s_read := 0, s_write := 0\<rparr> else s))))"

definition Stream_pop :: "nat \<Rightarrow> (stream, bytes option) prog" where
  "Stream_pop n = bindM (gets Stream_size) (\<lambda>size.
     if n > size then ret None
     else bindM (Stream_peek n) (\<lambda>res. thenM (Stream_shift_read n) (ret res)))"

text \<open>The object templates \<^verbatim>\<open>peek<Object>\<close> and \<^verbatim>\<open>pop<Object>\<close>: \<open>dec\<close> reads the object off its bytes.\<close>

definition Stream_peek_obj :: "(bytes \<Rightarrow> 'a) \<Rightarrow> nat \<Rightarrow> (stream, 'a option) prog" where
  "Stream_peek_obj dec sz =
     gets (\<lambda>s. if sz > Stream_size s then None else Some (dec (chunk (s_read s) sz (buffer s))))"

definition Stream_pop_obj :: "(bytes \<Rightarrow> 'a) \<Rightarrow> nat \<Rightarrow> (stream, 'a option) prog" where
  "Stream_pop_obj dec sz = bindM (gets Stream_size) (\<lambda>size.
     if sz > size then ret None
     else bindM (gets (\<lambda>s. dec (chunk (s_read s) sz (buffer s)))) (\<lambda>obj.
       thenM (Stream_pop sz) (ret (Some obj))))"

definition Stream_push_bytes :: "bytes \<Rightarrow> (stream, unit) prog" where
  "Stream_push_bytes bs = bindM (gets available_suffix_bytes) (\<lambda>avail.
     thenM (require (avail \<ge> length bs) ''Not enough space'')
     (modify (\<lambda>s. s\<lparr>buffer := poke (s_write s) bs (buffer s), s_write := s_write s + length bs\<rparr>)))"

text \<open>\<^verbatim>\<open>push_bytes(const std::string&)\<close> and \<^verbatim>\<open>push(const Object&)\<close>, with the bytes of the argument.\<close>

definition Stream_push_string :: "bytes \<Rightarrow> (stream, unit) prog" where
  "Stream_push_string bs = bindM (gets (\<lambda>s. s_write s + length bs \<le> length (buffer s))) (\<lambda>fits.
     thenM (require fits ''Out of bounds'')
     (modify (\<lambda>s. s\<lparr>buffer := poke (s_write s) bs (buffer s), s_write := s_write s + length bs\<rparr>)))"

definition Stream_shift :: "(stream, unit) prog" where
  "Stream_shift = modify (\<lambda>s.
     s\<lparr>buffer := poke 0 (chunk (s_read s) (Stream_size s) (buffer s)) (buffer s),
       s_write := Stream_size s, s_read := 0\<rparr>)"

text \<open>\<^verbatim>\<open>std::search\<close>: the offset of the first match, or of the end.\<close>

fun std_search :: "'a list \<Rightarrow> 'a list \<Rightarrow> nat" where
  "std_search [] pat = 0"
| "std_search (x # xs) pat =
     (if take (length pat) (x # xs) = pat then 0 else Suc (std_search xs pat))"

definition Stream_search :: "bytes \<Rightarrow> stream \<Rightarrow> nat option" where
  "Stream_search pat s =
     (let w = chunk (s_read s) (s_write s - s_read s) (buffer s); res = std_search w pat
      in if res = length w then None else Some res)"

section \<open>ByteViewStream and ReadTransaction\<close>

record byte_view_stream =
  byte_view :: bytes
  read_it :: nat

definition ByteViewStream_new :: "bytes \<Rightarrow> byte_view_stream" where
  "ByteViewStream_new v = \<lparr>byte_view = v, read_it = 0\<rparr>"

definition ByteViewStream_size :: "byte_view_stream \<Rightarrow> nat" where
  "ByteViewStream_size r = length (byte_view r) - read_it r"

definition ByteViewStream_empty :: "byte_view_stream \<Rightarrow> bool" where
  "ByteViewStream_empty r \<longleftrightarrow> ByteViewStream_size r = 0"

definition ByteViewStream_peek :: "nat \<Rightarrow> byte_view_stream \<Rightarrow> bytes option" where
  "ByteViewStream_peek n r =
     (if ByteViewStream_size r < n then None else Some (chunk (read_it r) n (byte_view r)))"

definition ByteViewStream_pop ::
    "nat \<Rightarrow> byte_view_stream \<Rightarrow> (bytes \<times> byte_view_stream) option" where
  "ByteViewStream_pop n r =
     (if ByteViewStream_size r < n then None
      else Some (chunk (read_it r) n (byte_view r), r\<lparr>read_it := read_it r + n\<rparr>))"

definition ByteViewStream_pop_obj ::
    "(bytes \<Rightarrow> 'a) \<Rightarrow> nat \<Rightarrow> byte_view_stream \<Rightarrow> ('a \<times> byte_view_stream) option" where
  "ByteViewStream_pop_obj dec sz r =
     (if ByteViewStream_size r < sz then None
      else map_option (\<lambda>(bs, r'). (dec bs, r')) (ByteViewStream_pop sz r))"

text \<open>
  \<^verbatim>\<open>read_transaction\<close> opens a cursor over everything in the stream; \<^verbatim>\<open>commit\<close> pops what the
  cursor has read off the stream.
\<close>

definition read_transaction :: "(stream, byte_view_stream) prog" where
  "read_transaction = bindM (gets Stream_size) (\<lambda>size. bindM (Stream_peek size) (\<lambda>v.
     bindM (opt_value v) (\<lambda>view. ret (ByteViewStream_new view))))"

definition commit :: "byte_view_stream \<Rightarrow> (stream, bytes) prog" where
  "commit r = bindM (Stream_pop (read_it r)) opt_value"

section \<open>MutableByteViewWriteStream\<close>

text \<open>
  The view is \<open>ws_mem\<close>, the memory from its first byte to the end of the allocation, and \<open>ws_cap\<close>,
  the size the span states. A copy past the allocation is undefined behaviour.
\<close>

record write_stream =
  ws_mem :: bytes
  ws_cap :: nat
  write_it :: nat

definition WriteStream_new :: "bytes \<Rightarrow> nat \<Rightarrow> write_stream" where
  "WriteStream_new mem cap = \<lparr>ws_mem = mem, ws_cap = cap, write_it = 0\<rparr>"

definition WriteStream_push_bytes :: "bytes \<Rightarrow> (write_stream, unit) prog" where
  "WriteStream_push_bytes bs = bindM (gets (\<lambda>w. w)) (\<lambda>w.
     thenM (require (write_it w + length bs \<le> ws_cap w) ''Out of bounds'')
     (thenM (defined_if (write_it w + length bs \<le> length (ws_mem w)) ''write past the buffer'')
     (modify (\<lambda>w. w\<lparr>ws_mem := poke (write_it w) bs (ws_mem w), write_it := write_it w + length bs\<rparr>))))"

definition WriteStream_reserve :: "nat \<Rightarrow> (write_stream, unit) prog" where
  "WriteStream_reserve n = bindM (gets (\<lambda>w. w)) (\<lambda>w.
     thenM (require (write_it w + n \<le> ws_cap w) ''Out of bounds'')
     (modify (\<lambda>w. w\<lparr>write_it := write_it w + n\<rparr>)))"

definition WriteStream_size :: "write_stream \<Rightarrow> nat" where
  "WriteStream_size w = write_it w"

text \<open>An assignment through a reference to an object pushed earlier at offset \<open>off\<close>.\<close>

definition WriteStream_assign :: "nat \<Rightarrow> bytes \<Rightarrow> (write_stream, unit) prog" where
  "WriteStream_assign off bs = bindM (gets (\<lambda>w. off + length bs \<le> length (ws_mem w))) (\<lambda>fits.
     thenM (defined_if fits ''write past the buffer'')
     (modify (\<lambda>w. w\<lparr>ws_mem := poke off bs (ws_mem w)\<rparr>)))"

definition WriteStream_written :: "write_stream \<Rightarrow> bytes" where
  "WriteStream_written w = take (write_it w) (ws_mem w)"

section \<open>Abstraction and invariant\<close>

definition Stream_contents :: "stream \<Rightarrow> bytes" where
  "Stream_contents s = chunk (s_read s) (Stream_size s) (buffer s)"

definition Stream_capacity :: "stream \<Rightarrow> nat" where
  "Stream_capacity s = length (buffer s)"

definition Stream_inv :: "stream \<Rightarrow> bool" where
  "Stream_inv s \<longleftrightarrow> s_read s \<le> s_write s \<and> s_write s \<le> length (buffer s) \<and>
     (s_read s = s_write s \<longrightarrow> s_read s = 0)"

text \<open>A client's use of a stream as a sequence of calls, with what each call hands back.\<close>

datatype stream_call = Push bytes | Pop nat | Shift

fun call_stream :: "stream_call \<Rightarrow> (stream, bytes) prog" where
  "call_stream (Push bs) = thenM (Stream_push_bytes bs) (ret [])"
| "call_stream (Pop n) = bindM (Stream_pop n) (\<lambda>r. ret (case r of None \<Rightarrow> [] | Some bs \<Rightarrow> bs))"
| "call_stream Shift = thenM Stream_shift (ret [])"

fun run_calls :: "stream_call list \<Rightarrow> (stream, bytes) prog" where
  "run_calls [] = ret []"
| "run_calls (c # cs) = bindM (call_stream c) (\<lambda>out. bindM (run_calls cs) (\<lambda>outs. ret (out @ outs)))"

fun pushed :: "stream_call list \<Rightarrow> bytes" where
  "pushed [] = []"
| "pushed (Push bs # cs) = bs @ pushed cs"
| "pushed (c # cs) = pushed cs"

text \<open>Pops of the given sizes from a transaction, with the pieces they return.\<close>

fun pop_all :: "nat list \<Rightarrow> byte_view_stream \<Rightarrow> (bytes list \<times> byte_view_stream) option" where
  "pop_all [] r = Some ([], r)"
| "pop_all (n # ns) r = (case ByteViewStream_pop n r of None \<Rightarrow> None
     | Some (x, r') \<Rightarrow> (case pop_all ns r' of None \<Rightarrow> None | Some (xs, r'') \<Rightarrow> Some (x # xs, r'')))"

definition WriteStream_inv :: "write_stream \<Rightarrow> bool" where
  "WriteStream_inv w \<longleftrightarrow> write_it w \<le> ws_cap w \<and> ws_cap w \<le> length (ws_mem w)"

section \<open>The contract of a byte queue\<close>

locale byte_fifo =
  fixes invar :: "'q \<Rightarrow> bool" and contents :: "'q \<Rightarrow> bytes" and room :: "'q \<Rightarrow> nat"
    and capacity :: "'q \<Rightarrow> nat"
    and push :: "bytes \<Rightarrow> ('q, unit) prog" and pop :: "nat \<Rightarrow> ('q, bytes option) prog"
    and shift :: "('q, unit) prog"
  assumes push_fits: "invar q \<Longrightarrow> length bs \<le> room q \<Longrightarrow>
      wp (push bs) (\<lambda>_ t. invar t \<and> contents t = contents q @ bs \<and> capacity t = capacity q)
        (\<lambda>_ _. False) q"
    and push_full: "invar q \<Longrightarrow> room q < length bs \<Longrightarrow> wp (push bs) (\<lambda>_ _. False) (\<lambda>_ t. t = q) q"
    and pop_avail: "invar q \<Longrightarrow> n \<le> length (contents q) \<Longrightarrow>
      wp (pop n) (\<lambda>r t. r = Some (take n (contents q)) \<and> invar t \<and> contents t = drop n (contents q) \<and>
        capacity t = capacity q) (\<lambda>_ _. False) q"
    and pop_short: "invar q \<Longrightarrow> length (contents q) < n \<Longrightarrow> pop n q = (Inr None, q)"
    and shift_keeps: "invar q \<Longrightarrow>
      wp shift (\<lambda>_ t. invar t \<and> contents t = contents q \<and> capacity t = capacity q \<and>
        room t = capacity q - length (contents q)) (\<lambda>_ _. False) q"
begin

lemma push_wp:
  assumes "invar q"
    and "length bs \<le> room q \<Longrightarrow> (\<And>t. invar t \<Longrightarrow> contents t = contents q @ bs \<Longrightarrow> capacity t = capacity q \<Longrightarrow> Q () t)"
    and "\<And>e. room q < length bs \<Longrightarrow> E e q"
  shows "wp (push bs) Q E q"
proof (cases "length bs \<le> room q")
  case True
  with assms show ?thesis by (auto intro: wp_mono [OF push_fits [OF assms(1) True]])
next
  case False
  then have "room q < length bs" by simp
  with assms show ?thesis by (auto intro: wp_mono [OF push_full [OF assms(1)]])
qed

lemma pop_wp:
  assumes "invar q"
    and "\<And>t. n \<le> length (contents q) \<Longrightarrow> invar t \<Longrightarrow> contents t = drop n (contents q) \<Longrightarrow>
      capacity t = capacity q \<Longrightarrow> Q (Some (take n (contents q))) t"
    and "length (contents q) < n \<Longrightarrow> Q None q"
  shows "wp (pop n) Q E q"
proof (cases "n \<le> length (contents q)")
  case True
  with assms show ?thesis by (auto intro: wp_mono [OF pop_avail [OF assms(1) True]])
next
  case False
  with assms show ?thesis by (simp add: pop_short wp_def)
qed

lemma push_pop_exact:
  assumes "invar q" and "contents q = []" and "length bs \<le> room q"
  shows "wp (thenM (push bs) (pop (length bs)))
    (\<lambda>r t. r = Some bs \<and> invar t \<and> contents t = []) (\<lambda>_ _. False) q"
  unfolding wp_thenM
  by (rule wp_mono [OF push_fits [OF assms(1,3)]]) (auto intro!: pop_wp simp: assms(2))

lemma shift_then_push:
  assumes "invar q" and "length (contents q) + length bs \<le> capacity q"
  shows "wp (thenM shift (push bs))
    (\<lambda>_ t. invar t \<and> contents t = contents q @ bs \<and> capacity t = capacity q) (\<lambda>_ _. False) q"
  unfolding wp_thenM
  by (rule wp_mono [OF shift_keeps [OF assms(1)]]) (use assms in \<open>auto intro!: push_wp\<close>)

end

section \<open>Stream is a byte queue\<close>

lemma length_Stream_contents [simp]: "Stream_inv s \<Longrightarrow> length (Stream_contents s) = Stream_size s"
  by (auto simp: Stream_inv_def Stream_contents_def Stream_size_def)

lemma Stream_inv_new [simp]: "Stream_inv (Stream_new n)"
  by (simp add: Stream_new_def Stream_inv_def)

lemma Stream_contents_new [simp]: "Stream_contents (Stream_new n) = []"
  by (simp add: Stream_new_def Stream_contents_def Stream_size_def chunk_def)

lemma Stream_capacity_new [simp]: "Stream_capacity (Stream_new n) = n"
  by (simp add: Stream_new_def Stream_capacity_def)

lemma available_suffix_bytes_new [simp]: "available_suffix_bytes (Stream_new n) = n"
  by (simp add: Stream_new_def available_suffix_bytes_def)

lemma Stream_size_le_capacity: "Stream_inv s \<Longrightarrow> Stream_size s \<le> Stream_capacity s"
  by (auto simp: Stream_inv_def Stream_size_def Stream_capacity_def)

lemma Stream_peek_eval:
  "Stream_inv s \<Longrightarrow>
     Stream_peek n s = (Inr (if n \<le> Stream_size s then Some (take n (Stream_contents s)) else None), s)"
  by (auto simp: Stream_peek_def Stream_contents_def gets_def chunk_def min_def)

lemma chunk_poke_extend:
  "r \<le> w \<Longrightarrow> w + length bs \<le> length mem \<Longrightarrow>
     chunk r (w + length bs - r) (poke w bs mem) = chunk r (w - r) mem @ bs"
  by (simp add: chunk_def poke_def take_drop [symmetric] drop_take)

lemma Stream_push_fits:
  assumes "Stream_inv s" and "length bs \<le> available_suffix_bytes s"
  shows "wp (Stream_push_bytes bs)
    (\<lambda>_ t. Stream_inv t \<and> Stream_contents t = Stream_contents s @ bs \<and> Stream_capacity t = Stream_capacity s)
    (\<lambda>_ _. False) s"
  using assms
  by (auto simp: Stream_push_bytes_def wp_simps Stream_inv_def Stream_contents_def Stream_size_def
      Stream_capacity_def available_suffix_bytes_def chunk_poke_extend)

lemma Stream_pop_avail:
  assumes "Stream_inv s" and "n \<le> Stream_size s"
  shows "Stream_pop n s =
    (Inr (Some (take n (Stream_contents s))),
     if n = Stream_size s then s\<lparr>s_read := 0, s_write := 0\<rparr> else s\<lparr>s_read := s_read s + n\<rparr>)"
  using assms
  by (auto simp: Stream_pop_def Stream_peek_eval Stream_shift_read_def prog_defs Stream_size_def Stream_inv_def)

lemma Stream_pop_short: "Stream_size s < n \<Longrightarrow> Stream_pop n s = (Inr None, s)"
  by (simp add: Stream_pop_def prog_defs)

lemma Stream_pop_contents:
  assumes "Stream_inv s" and "n \<le> Stream_size s"
  shows "wp (Stream_pop n) (\<lambda>r t. r = Some (take n (Stream_contents s)) \<and> Stream_inv t \<and>
      Stream_contents t = drop n (Stream_contents s) \<and> Stream_capacity t = Stream_capacity s)
    (\<lambda>_ _. False) s"
  using assms
  by (auto simp: Stream_pop_avail wp_def Stream_inv_def Stream_contents_def Stream_size_def
      Stream_capacity_def chunk_def drop_take add.commute)

lemma Stream_shift_eval:
  assumes "Stream_inv s"
  shows "wp Stream_shift (\<lambda>_ t. Stream_inv t \<and> Stream_contents t = Stream_contents s \<and>
      Stream_capacity t = Stream_capacity s \<and>
      available_suffix_bytes t = Stream_capacity s - Stream_size s) (\<lambda>_ _. False) s"
proof -
  have "Stream_size s \<le> length (buffer s)"
    and "length (chunk (s_read s) (Stream_size s) (buffer s)) = Stream_size s"
    using assms by (auto simp: Stream_inv_def Stream_size_def)
  then show ?thesis
    by (auto simp: Stream_shift_def wp_simps Stream_inv_def Stream_contents_def Stream_size_def
        Stream_capacity_def available_suffix_bytes_def poke_def chunk_def)
qed

interpretation fifo: byte_fifo Stream_inv Stream_contents available_suffix_bytes Stream_capacity
    Stream_push_bytes Stream_pop Stream_shift
proof
  fix q :: stream and n :: nat and bs :: bytes
  assume inv: "Stream_inv q"
  show "available_suffix_bytes q < length bs \<Longrightarrow>
      wp (Stream_push_bytes bs) (\<lambda>_ _. False) (\<lambda>_ t. t = q) q"
    by (simp add: Stream_push_bytes_def wp_simps)
  show "length (Stream_contents q) < n \<Longrightarrow> Stream_pop n q = (Inr None, q)"
    using inv by (simp add: Stream_pop_short)
qed (simp_all add: Stream_push_fits Stream_pop_contents Stream_shift_eval)

text \<open>Reads of objects and of bytes, in terms of the contents.\<close>

lemma wp_peek_contents:
  "Stream_inv s \<Longrightarrow> wp (Stream_peek n) Q E s =
     Q (if n \<le> length (Stream_contents s) then Some (take n (Stream_contents s)) else None) s"
  by (simp add: wp_def Stream_peek_eval)

lemma wp_peek_obj_contents:
  "Stream_inv s \<Longrightarrow> wp (Stream_peek_obj dec n) Q E s =
     Q (if n \<le> length (Stream_contents s) then Some (dec (take n (Stream_contents s))) else None) s"
  by (auto simp: wp_simps Stream_peek_obj_def Stream_contents_def chunk_def Stream_size_def Stream_inv_def min_def)

lemma wp_pop_obj_contents:
  assumes "Stream_inv s"
    and "\<And>t. n \<le> length (Stream_contents s) \<Longrightarrow> Stream_inv t \<Longrightarrow> Stream_contents t = drop n (Stream_contents s) \<Longrightarrow>
      Stream_capacity t = Stream_capacity s \<Longrightarrow> Q (Some (dec (take n (Stream_contents s)))) t"
    and "length (Stream_contents s) < n \<Longrightarrow> Q None s"
  shows "wp (Stream_pop_obj dec n) Q E s"
proof (cases "n \<le> Stream_size s")
  case True
  then have "dec (chunk (s_read s) n (buffer s)) = dec (take n (Stream_contents s))"
    by (simp add: Stream_contents_def chunk_def)
  with True assms show ?thesis
    by (auto simp: Stream_pop_obj_def wp_simps intro!: fifo.pop_wp)
next
  case False
  with assms show ?thesis by (simp add: Stream_pop_obj_def wp_simps)
qed

section \<open>Sequences of calls, transactions and the write stream\<close>

lemma call_stream_conserves:
  "Stream_inv s \<Longrightarrow> wp (call_stream c)
     (\<lambda>out t. Stream_inv t \<and> Stream_contents s @ pushed [c] = out @ Stream_contents t) (\<lambda>_ t. t = s) s"
proof (cases c)
  case (Push bs)
  assume "Stream_inv s"
  then show ?thesis unfolding Push call_stream.simps wp_thenM by (intro fifo.push_wp) (auto simp: wp_ret)
next
  case (Pop n)
  assume "Stream_inv s"
  then show ?thesis unfolding Pop call_stream.simps wp_bindM by (intro fifo.pop_wp) (auto simp: wp_ret)
next
  case Shift
  assume "Stream_inv s"
  then show ?thesis
    unfolding Shift call_stream.simps wp_thenM
    by (intro wp_mono [OF fifo.shift_keeps]) (auto simp: wp_ret)
qed

lemma pushed_Cons: "pushed (c # cs) = pushed [c] @ pushed cs"
  by (cases c) simp_all

lemma run_calls_conserves:
  "Stream_inv s \<Longrightarrow> wp (run_calls cs)
     (\<lambda>out t. Stream_inv t \<and> Stream_contents s @ pushed cs = out @ Stream_contents t) (\<lambda>_. Stream_inv) s"
proof (induction cs arbitrary: s)
  case Nil
  then show ?case by (simp add: wp_ret)
next
  case (Cons c cs)
  show ?case unfolding run_calls.simps wp_bindM
  proof (rule wp_mono [OF call_stream_conserves [OF Cons.prems]])
    fix out t
    assume t: "Stream_inv t \<and> Stream_contents s @ pushed [c] = out @ Stream_contents t"
    then have "wp (run_calls cs) (\<lambda>outs u. Stream_inv u \<and>
        Stream_contents t @ pushed cs = outs @ Stream_contents u) (\<lambda>_. Stream_inv) t"
      by (intro Cons.IH) simp
    then show "wp (run_calls cs) (\<lambda>outs. wp (ret (out @ outs)) (\<lambda>out t. Stream_inv t \<and>
        Stream_contents s @ pushed (c # cs) = out @ Stream_contents t) (\<lambda>_. Stream_inv)) (\<lambda>_. Stream_inv) t"
      by (rule wp_mono) (use t pushed_Cons [of c cs] in \<open>simp_all add: wp_ret, metis append_assoc\<close>)
  qed (simp add: Cons.prems)
qed

lemma pop_all_pieces:
  "pop_all ns r = Some (xs, r') \<Longrightarrow> read_it r \<le> length (byte_view r) \<Longrightarrow>
     byte_view r' = byte_view r \<and> read_it r' = read_it r + sum_list ns \<and>
     read_it r' \<le> length (byte_view r) \<and> concat xs = chunk (read_it r) (sum_list ns) (byte_view r) \<and>
     map length xs = ns"
proof (induction ns arbitrary: r xs)
  case Nil
  then show ?case by simp
next
  case (Cons n ns)
  from Cons.prems(1) obtain r1 ys where
    r1: "\<not> ByteViewStream_size r < n" "r1 = r\<lparr>read_it := read_it r + n\<rparr>"
    and ys: "pop_all ns r1 = Some (ys, r')" "xs = chunk (read_it r) n (byte_view r) # ys"
    by (auto simp: ByteViewStream_pop_def split: option.splits if_splits prod.splits)
  have "read_it r1 \<le> length (byte_view r1)" using r1 Cons.prems(2) by (auto simp: ByteViewStream_size_def)
  from Cons.IH [OF ys(1) this] r1 ys(2) Cons.prems(2) show ?case
    by (auto simp: ByteViewStream_size_def chunk_append_chunk add.assoc)
qed

lemma read_transaction_eval:
  "Stream_inv s \<Longrightarrow> read_transaction s = (Inr (ByteViewStream_new (Stream_contents s)), s)"
  by (simp add: read_transaction_def Stream_peek_eval prog_defs flip: length_Stream_contents)

lemma std_search_le: "std_search xs pat \<le> length xs"
  by (induction xs) auto

lemma std_search_found:
  "std_search xs pat < length xs \<Longrightarrow> take (length pat) (drop (std_search xs pat) xs) = pat"
  by (induction xs) auto

lemma std_search_least:
  "j < std_search xs pat \<Longrightarrow> take (length pat) (drop j xs) \<noteq> pat"
proof (induction xs arbitrary: j)
  case Nil
  then show ?case by simp
next
  case (Cons x xs)
  then show ?case by (cases j) (auto split: if_splits)
qed

lemma WriteStream_push_ok:
  "WriteStream_inv w \<Longrightarrow> write_it w + length bs \<le> ws_cap w \<Longrightarrow>
     wp (WriteStream_push_bytes bs) (\<lambda>_ t. WriteStream_inv t \<and>
       WriteStream_written t = WriteStream_written w @ bs \<and> ws_cap t = ws_cap w \<and>
       length (ws_mem t) = length (ws_mem w) \<and> write_it t = write_it w + length bs \<and>
       drop (write_it t) (ws_mem t) = drop (write_it t) (ws_mem w)) (\<lambda>_ _. False) w"
  by (auto simp: WriteStream_push_bytes_def WriteStream_inv_def WriteStream_written_def wp_simps poke_def)

section \<open>Properties\<close>

text \<open>
  C24: whatever sequence of pushes, pops and shifts a client performs, the bytes handed out are the
  bytes that went in, in order: old contents followed by the pushed bytes is the popped bytes
  followed by the new contents, and the stream stays well formed.
\<close>

theorem Stream_conserves_bytes:
  assumes "Stream_inv s" and "run_calls cs s = (Inr out, t)"
  shows "Stream_contents s @ pushed cs = out @ Stream_contents t \<and> Stream_inv t"
  using run_calls_conserves [OF assms(1), of cs] by (simp add: wp_def assms(2))

theorem Stream_conserves_bytes_witness:
  "run_calls [Push [1, 2, 3], Pop 2, Shift, Push [4], Pop 5] (Stream_new 4) =
     (Inr [1, 2], \<lparr>buffer = [3, 4, 3, 0], s_read = 0, s_write = 2\<rparr>) \<and>
   Stream_contents (Stream_new 4) @ [1, 2, 3, 4] =
     [1, 2] @ Stream_contents \<lparr>buffer = [3, 4, 3, 0], s_read = 0, s_write = 2\<rparr>"
proof -
  have run: "run_calls [Push [1, 2, 3], Pop 2, Shift, Push [4], Pop 5] (Stream_new 4) =
      (Inr [1, 2], \<lparr>buffer = [3, 4, 3, 0], s_read = 0, s_write = 2\<rparr>)"
    by (simp add: prog_defs Stream_push_bytes_def Stream_pop_def Stream_peek_def Stream_shift_read_def
        Stream_shift_def Stream_new_def Stream_size_def available_suffix_bytes_def chunk_def poke_def
        numeral_eq_Suc)
  show ?thesis using run Stream_conserves_bytes [OF Stream_inv_new run] by simp
qed

text \<open>
  A push after a shift, the way both clients fill their receive buffer, succeeds exactly when the
  unread bytes and the new ones fit the buffer together; it then appends the new bytes, and
  otherwise it throws "Not enough space" with the unread bytes still there.
\<close>

lemma Stream_refill:
  assumes "Stream_inv s"
  shows "wp (thenM Stream_shift (Stream_push_bytes bs))
    (\<lambda>_ t. length (Stream_contents s) + length bs \<le> Stream_capacity s \<and> Stream_inv t \<and>
       Stream_contents t = Stream_contents s @ bs \<and> Stream_capacity t = Stream_capacity s)
    (\<lambda>e t. Stream_capacity s < length (Stream_contents s) + length bs \<and>
       e = Runtime_error ''Not enough space'' \<and> Stream_contents t = Stream_contents s) s"
proof (cases "length (Stream_contents s) + length bs \<le> Stream_capacity s")
  case True
  show ?thesis by (rule wp_mono [OF fifo.shift_then_push [OF assms True]]) (use True in auto)
next
  case False
  show ?thesis unfolding wp_thenM
    by (rule wp_mono [OF fifo.shift_keeps [OF assms]])
      (use False Stream_size_le_capacity [OF assms] in \<open>auto simp: Stream_push_bytes_def wp_simps assms\<close>)
qed

lemma Stream_refill_witness:
  "wp (thenM Stream_shift (Stream_push_bytes [7, 8]))
    (\<lambda>_ t. Stream_contents t = [7, 8]) (\<lambda>_ _. False) (Stream_new 2)"
  by (rule wp_mono [OF Stream_refill [OF Stream_inv_new]]) auto

lemma search_result:
  assumes "pat \<noteq> []"
  shows "case Stream_search pat s of
      Some i \<Rightarrow> take (length pat) (drop i (Stream_contents s)) = pat \<and>
        (\<forall>j < i. take (length pat) (drop j (Stream_contents s)) \<noteq> pat)
    | None \<Rightarrow> (\<forall>j. take (length pat) (drop j (Stream_contents s)) \<noteq> pat)"
proof -
  let ?w = "Stream_contents s"
  have S: "Stream_search pat s = (if std_search ?w pat = length ?w then None else Some (std_search ?w pat))"
    by (simp add: Stream_search_def Stream_contents_def Stream_size_def Let_def)
  show ?thesis
  proof (cases "std_search ?w pat = length ?w")
    case True
    have "take (length pat) (drop j ?w) \<noteq> pat" for j
      using True std_search_least [of j ?w pat] assms by (cases "j < length ?w") auto
    then show ?thesis by (simp add: S True)
  next
    case False
    then show ?thesis
      using std_search_found [of ?w pat] std_search_le [of ?w pat] std_search_least [of _ ?w pat]
      by (simp add: S)
  qed
qed

text \<open>
  \<^verbatim>\<open>search\<close> returns the least offset at which the pattern occurs in the unread bytes, and
  nothing when it does not occur.
\<close>

lemma Stream_search_least:
  assumes "pat \<noteq> []"
  shows "case Stream_search pat s of
      Some i \<Rightarrow> take (length pat) (drop i (Stream_contents s)) = pat \<and>
        (\<forall>j < i. take (length pat) (drop j (Stream_contents s)) \<noteq> pat)
    | None \<Rightarrow> (\<forall>j. take (length pat) (drop j (Stream_contents s)) \<noteq> pat)"
  using assms by (rule search_result)

lemma Stream_search_least_witness:
  "(\<forall>j. take (length [9]) (drop j (Stream_contents (Stream_new 3))) \<noteq> [9 :: byte])"
  using Stream_search_least [of "[9]" "Stream_new 3"]
  by (simp add: Stream_search_def Stream_new_def Let_def chunk_def)

text \<open>
  A read transaction sees the unread bytes; however the parser splits them into pieces, committing
  pops exactly the pieces it read, in order, and leaves the rest.
\<close>

lemma read_transaction_commit:
  assumes "Stream_inv s" and "read_transaction s = (Inr r, s')" and "pop_all ns r = Some (xs, r')"
  shows "s' = s \<and> wp (commit r') (\<lambda>out t. out = concat xs \<and> map length xs = ns \<and> Stream_inv t \<and>
      concat xs @ Stream_contents t = Stream_contents s) (\<lambda>_ _. False) s"
proof -
  have r: "r = ByteViewStream_new (Stream_contents s)" "s' = s"
    using assms(2) by (auto simp: read_transaction_eval [OF assms(1)])
  have p: "read_it r' = sum_list ns" "sum_list ns \<le> length (Stream_contents s)"
      "concat xs = take (sum_list ns) (Stream_contents s)" "map length xs = ns"
    using pop_all_pieces [OF assms(3)] by (auto simp: r ByteViewStream_new_def chunk_def)
  then show ?thesis
    unfolding commit_def wp_bindM
    by (auto simp: r wp_opt_value assms(1) intro!: wp_mono [OF fifo.pop_avail [OF assms(1)]])
qed

lemma read_transaction_commit_witness:
  "wp (commit \<lparr>byte_view = [5, 6, 7], read_it = 3\<rparr>) (\<lambda>out t. out = [5, 6, 7]) (\<lambda>_ _. False)
     \<lparr>buffer = [0, 5, 6, 7], s_read = 1, s_write = 4\<rparr>"
proof -
  let ?s = "\<lparr>buffer = [0, 5, 6, 7], s_read = 1, s_write = 4\<rparr> :: stream"
  have i: "Stream_inv ?s" by (simp add: Stream_inv_def)
  have r: "read_transaction ?s = (Inr \<lparr>byte_view = [5, 6, 7], read_it = 0\<rparr>, ?s)"
    using i by (simp add: read_transaction_eval Stream_contents_def Stream_size_def chunk_def ByteViewStream_new_def)
  have p: "pop_all [2, 1] \<lparr>byte_view = [5, 6, 7], read_it = 0\<rparr> =
      Some ([[5, 6], [7]], \<lparr>byte_view = [5, 6, 7], read_it = 3\<rparr>)"
    by (simp add: ByteViewStream_pop_def ByteViewStream_size_def chunk_def)
  show ?thesis
    using read_transaction_commit [OF i r p] by (auto elim!: wp_mono)
qed

end
