(* ===== verification/Wss_Frame.thy ===== *)
theory Wss_Frame
  imports Streams
begin

text \<open>
  Web socket frames, src/src/network/wss/model.h and the frame extraction of client.cpp: the three header
  forms a frame can have, reading a header off the receive stream, and taking one complete frame off it.
  The specification is the unmasked frame of RFC 6455, \<open>enc_frame\<close>.
\<close>

definition OpCode_Continuation :: byte where "OpCode_Continuation = 0x0"
definition OpCode_Text :: byte where "OpCode_Text = 0x1"
definition OpCode_Binary :: byte where "OpCode_Binary = 0x2"
definition OpCode_Close :: byte where "OpCode_Close = 0x8"
definition OpCode_Ping :: byte where "OpCode_Ping = 0x9"
definition OpCode_Pong :: byte where "OpCode_Pong = 0xA"

datatype frame_type = Base | Extended16 | Extended64

text \<open>
  \<^verbatim>\<open>FrameBasicHeader\<close>: two bytes of bit fields, the first field in the low bits.
\<close>

record frame_basic_header =
  fb_byte0 :: byte
  fb_byte1 :: byte

definition fb_code :: "frame_basic_header \<Rightarrow> byte" where "fb_code h = fb_byte0 h AND 0x0F"
definition fb_rsv3 :: "frame_basic_header \<Rightarrow> bool" where "fb_rsv3 h = bit (fb_byte0 h) 4"
definition fb_rsv2 :: "frame_basic_header \<Rightarrow> bool" where "fb_rsv2 h = bit (fb_byte0 h) 5"
definition fb_rsv1 :: "frame_basic_header \<Rightarrow> bool" where "fb_rsv1 h = bit (fb_byte0 h) 6"
definition fb_fin :: "frame_basic_header \<Rightarrow> bool" where "fb_fin h = bit (fb_byte0 h) 7"
definition fb_payload_len :: "frame_basic_header \<Rightarrow> byte" where "fb_payload_len h = fb_byte1 h AND 0x7F"
definition fb_mask :: "frame_basic_header \<Rightarrow> bool" where "fb_mask h = bit (fb_byte1 h) 7"

definition frame_basic_type :: "frame_basic_header \<Rightarrow> frame_type" where
  "frame_basic_type h = (if fb_payload_len h < 125 then Base
     else if fb_payload_len h = 126 then Extended16 else Extended64)"

definition dec_frame_basic :: "bytes \<Rightarrow> frame_basic_header" where
  "dec_frame_basic bs = \<lparr>fb_byte0 = bs ! 0, fb_byte1 = bs ! 1\<rparr>"

text \<open>The size of the header struct of each form, and the payload size the struct states.\<close>

fun sizeof_frame :: "frame_type \<Rightarrow> nat" where
  "sizeof_frame Base = 2"
| "sizeof_frame Extended16 = 4"
| "sizeof_frame Extended64 = 10"

fun frame_payload_size :: "frame_type \<Rightarrow> bytes \<Rightarrow> nat" where
  "frame_payload_size Base bs = unat (fb_payload_len (dec_frame_basic bs))"
| "frame_payload_size Extended16 bs = unat (be_value (mem_be (chunk 2 2 bs) :: 16 be))"
| "frame_payload_size Extended64 bs = unat (be_value (mem_be (chunk 2 8 bs) :: 64 be))"

record frame_header =
  fh_code :: byte
  fh_rsv3 :: bool
  fh_rsv2 :: bool
  fh_rsv1 :: bool
  fh_fin :: bool
  fh_mask :: bool
  fh_size :: nat
  fh_header_size :: nat

definition frame_header_of :: "frame_type \<Rightarrow> bytes \<Rightarrow> frame_header" where
  "frame_header_of ty bs = (let h = dec_frame_basic bs in
     \<lparr>fh_code = fb_code h, fh_rsv3 = fb_rsv3 h, fh_rsv2 = fb_rsv2 h, fh_rsv1 = fb_rsv1 h, fh_fin = fb_fin h,
      fh_mask = fb_mask h, fh_size = frame_payload_size ty bs, fh_header_size = sizeof_frame ty\<rparr>)"

definition pop_header_impl :: "frame_type \<Rightarrow> (stream, frame_header option) prog" where
  "pop_header_impl ty = assign_or_return (Stream_pop_obj (frame_header_of ty) (sizeof_frame ty)) None (\<lambda>h. ret (Some h))"

definition pop_header :: "(stream, frame_header option) prog" where
  "pop_header = assign_or_return (Stream_peek_obj dec_frame_basic 2) None (\<lambda>base. pop_header_impl (frame_basic_type base))"

definition peek_header_impl :: "frame_type \<Rightarrow> (stream, frame_header option) prog" where
  "peek_header_impl ty = assign_or_return (Stream_peek_obj (frame_header_of ty) (sizeof_frame ty)) None (\<lambda>h. ret (Some h))"

definition peek_header :: "(stream, frame_header option) prog" where
  "peek_header = assign_or_return (Stream_peek_obj dec_frame_basic 2) None (\<lambda>base. peek_header_impl (frame_basic_type base))"

text \<open>\<^verbatim>\<open>Client::extract_payload\<close>, which works on the client's stream alone.\<close>

definition extract_payload :: "(stream, (byte \<times> bytes) option) prog" where
  "extract_payload =
     assign_or_return peek_header None (\<lambda>header.
     assign_or_return (Stream_peek (add64 (fh_header_size header) (fh_size header))) None (\<lambda>_.
     assign_or_return pop_header None (\<lambda>_.
     assign_or_return (Stream_pop (fh_size header)) None (\<lambda>payload.
     thenM (require (\<not> fh_mask header) ''mask'')
     (thenM (require (unat (fh_code header) \<le> 10) ''code'')
     (ret (Some (fh_code header, payload))))))))"

section \<open>Specification\<close>

text \<open>RFC 6455, section 5.2: the shortest length form, no mask.\<close>

definition enc_frame :: "bool \<Rightarrow> byte \<Rightarrow> bytes \<Rightarrow> bytes" where
  "enc_frame fin code payload =
     (let b0 = (if fin then 0x80 else 0) OR (code AND 0x0F); n = length payload in
      if n \<le> 125 then b0 # of_nat n # payload
      else if n < 65536 then b0 # 126 # be_bytes 2 (of_nat n :: u16) @ payload
      else b0 # 127 # be_bytes 8 (of_nat n :: u64) @ payload)"

definition frame_overhead :: "nat \<Rightarrow> nat" where
  "frame_overhead n = (if n \<le> 125 then 2 else if n < 65536 then 4 else 10)"

text \<open>What both header readers see of the stream: the header of the first bytes, when they are there.\<close>

definition header_at :: "bytes \<Rightarrow> frame_header option" where
  "header_at bs = (if length bs < 2 then None
     else let ty = frame_basic_type (dec_frame_basic (take 2 bs)) in
       if length bs < sizeof_frame ty then None else Some (frame_header_of ty (take (sizeof_frame ty) bs)))"

section \<open>Reading a header\<close>

lemma wp_peek_header:
  "Stream_inv s \<Longrightarrow> wp peek_header Q E s = Q (header_at (Stream_contents s)) s"
  by (auto simp: peek_header_def peek_header_impl_def wp_simps wp_peek_obj_contents header_at_def Let_def)

lemma wp_pop_header:
  assumes "Stream_inv s"
    and "\<And>h t. header_at (Stream_contents s) = Some h \<Longrightarrow> Stream_inv t \<Longrightarrow>
      Stream_contents t = drop (fh_header_size h) (Stream_contents s) \<Longrightarrow> Stream_capacity t = Stream_capacity s \<Longrightarrow> Q (Some h) t"
    and "header_at (Stream_contents s) = None \<Longrightarrow> Q None s"
  shows "wp pop_header Q E s"
proof (cases "2 \<le> length (Stream_contents s)")
  case True
  let ?ty = "frame_basic_type (dec_frame_basic (take 2 (Stream_contents s)))"
  have "wp (pop_header_impl ?ty) Q E s"
    unfolding pop_header_impl_def wp_assign_or_return
    by (rule wp_pop_obj_contents [OF assms(1)])
       (use True assms in \<open>auto simp: header_at_def Let_def wp_simps frame_header_of_def\<close>)
  with True assms(1) show ?thesis by (simp add: pop_header_def wp_simps wp_peek_obj_contents)
next
  case False
  then show ?thesis using assms by (simp add: pop_header_def wp_simps wp_peek_obj_contents header_at_def)
qed


section \<open>The header of an encoded frame\<close>

lemma first_byte:
  "((if fin then 0x80 else 0) OR (code AND 0x0F)) AND 0x0F = (code AND 0x0F :: byte)"
  "bit ((if fin then 0x80 else 0) OR (code AND 0x0F) :: byte) 7 = fin"
  "\<not> bit ((if fin then 0x80 else 0) OR (code AND 0x0F) :: byte) 6"
  "\<not> bit ((if fin then 0x80 else 0) OR (code AND 0x0F) :: byte) 5"
  "\<not> bit ((if fin then 0x80 else 0) OR (code AND 0x0F) :: byte) 4"
  by (simp_all add: bit_and_iff bit_or_iff bit.conj_disj_distrib2 and.assoc)

lemma small_len: "n < 128 \<Longrightarrow> (of_nat n :: byte) AND 0x7F = of_nat n" "n < 128 \<Longrightarrow> \<not> bit (of_nat n :: byte) 7"
proof -
  assume n: "n < 128"
  have "(of_nat n :: byte) AND 0x7F = take_bit 7 (of_nat n)" by (simp add: take_bit_eq_mask mask_numeral and.commute)
  also have "\<dots> = of_nat (take_bit 7 n)" by (simp add: take_bit_of_nat)
  also have "take_bit 7 n = n" using n by (simp add: take_bit_nat_eq_self)
  finally show e: "(of_nat n :: byte) AND 0x7F = of_nat n" .
  have "\<not> bit ((of_nat n :: byte) AND 0x7F) 7" by (simp add: bit_and_iff)
  then show "\<not> bit (of_nat n :: byte) 7" unfolding e .
qed

lemma be_value_be_bytes [simp]:
  "be_value (mem_be (be_bytes 2 (w :: u16)) :: 16 be) = w" "be_value (mem_be (be_bytes 8 (x :: u64)) :: 64 be) = x"
  by (simp_all add: be_value_mem_be) (simp_all add: of_be_bytes_def be_bytes_def of_le_bytes_le_bytes)


lemma fb_simps:
  assumes "h = \<lparr>fb_byte0 = (if fin then 0x80 else 0) OR (code AND 0x0F), fb_byte1 = of_nat n\<rparr>" and "n < 128"
  shows "fb_code h = code AND 0x0F" "fb_fin h = fin" "\<not> fb_rsv1 h" "\<not> fb_rsv2 h" "\<not> fb_rsv3 h" "\<not> fb_mask h"
    "fb_payload_len h = of_nat n"
  using assms(2) first_byte small_len
  by (simp_all add: assms(1) fb_code_def fb_fin_def fb_rsv1_def fb_rsv2_def fb_rsv3_def fb_mask_def fb_payload_len_def)

lemma frame_basic_type_len:
  assumes "fb_payload_len h = of_nat n" and "n < 128"
  shows "frame_basic_type h = (if n < 125 then Base else if n = 126 then Extended16 else Extended64)"
proof -
  have "unat (of_nat n :: byte) = n" using assms(2) by simp
  then have "(of_nat n :: byte) < 125 \<longleftrightarrow> n < 125" "(of_nat n :: byte) = 126 \<longleftrightarrow> n = 126"
    by (auto simp: word_less_nat_alt word_unat_eq_iff)
  then show ?thesis by (simp add: frame_basic_type_def assms(1))
qed

lemma header_at_form:
  assumes "n < 128" and "length ext = (if n < 125 then 0 else if n = 126 then 2 else 8)"
  shows "header_at (((if fin then 0x80 else 0) OR (code AND 0x0F)) # of_nat n # ext @ rest) =
     Some \<lparr>fh_code = code AND 0x0F, fh_rsv3 = False, fh_rsv2 = False, fh_rsv1 = False, fh_fin = fin, fh_mask = False,
       fh_size = (if n < 125 then n else if n = 126 then unat (be_value (mem_be ext :: 16 be)) else unat (be_value (mem_be ext :: 64 be))),
       fh_header_size = 2 + length ext\<rparr>"
proof -
  let ?h = "\<lparr>fb_byte0 = (if fin then 0x80 else 0) OR (code AND 0x0F), fb_byte1 = of_nat n\<rparr>"
  let ?ty = "if n < 125 then Base else if n = 126 then Extended16 else Extended64"
  define bs where "bs = ((if fin then 0x80 else 0) OR (code AND 0x0F)) # of_nat n # ext @ rest"
  have l: "length bs = 2 + length ext + length rest" by (simp add: bs_def)
  have d: "dec_frame_basic (take k bs) = ?h" if "2 \<le> k" for k
    using that by (simp add: dec_frame_basic_def bs_def)
  note f = fb_simps [OF refl assms(1), of fin code]
  have t: "frame_basic_type ?h = ?ty" by (rule frame_basic_type_len [OF f(7) assms(1)])
  have z: "frame_payload_size ?ty (take (sizeof_frame ?ty) bs) =
      (if n < 125 then n else if n = 126 then unat (be_value (mem_be ext :: 16 be)) else unat (be_value (mem_be ext :: 64 be)))"
    using assms d [of 2] f(7) by (auto simp: bs_def chunk_def)
  have y: "sizeof_frame ?ty = 2 + length ext" using assms(2) by auto
  show ?thesis
    unfolding bs_def [symmetric] header_at_def Let_def d [OF order_refl] t frame_header_of_def z
    using f(1-6) l y d [of "sizeof_frame ?ty"] by simp
qed

lemma header_at_frame:
  assumes "length p \<noteq> 125" and "length p < 2 ^ 64"
  shows "header_at (enc_frame fin code p @ rest) =
     Some \<lparr>fh_code = code AND 0x0F, fh_rsv3 = False, fh_rsv2 = False, fh_rsv1 = False, fh_fin = fin, fh_mask = False,
       fh_size = length p, fh_header_size = frame_overhead (length p)\<rparr>"
    and "drop (frame_overhead (length p)) (enc_frame fin code p @ rest) = p @ rest"
    and "length (enc_frame fin code p) = frame_overhead (length p) + length p"
proof -
  have u: "unat (of_nat (length p) :: u64) = length p" using assms(2) by (simp add: unat_of_nat take_bit_eq_mod)
  have v: "unat (of_nat (length p) :: u16) = length p" if "length p < 65536" using that by (simp add: unat_of_nat take_bit_eq_mod)
  show "header_at (enc_frame fin code p @ rest) =
     Some \<lparr>fh_code = code AND 0x0F, fh_rsv3 = False, fh_rsv2 = False, fh_rsv1 = False, fh_fin = fin, fh_mask = False,
       fh_size = length p, fh_header_size = frame_overhead (length p)\<rparr>"
    using assms(1) u v header_at_form [of "length p" "[]" fin code "p @ rest"]
      header_at_form [of 126 "be_bytes 2 (of_nat (length p) :: u16)" fin code "p @ rest"]
      header_at_form [of 127 "be_bytes 8 (of_nat (length p) :: u64)" fin code "p @ rest"]
    by (auto simp: enc_frame_def frame_overhead_def Let_def)
qed (auto simp: enc_frame_def frame_overhead_def Let_def)


lemma wp_extract_payload:
  assumes "Stream_inv s" and "header_at (Stream_contents s) = Some h"
    and "add64 (fh_header_size h) (fh_size h) \<le> length (Stream_contents s)"
    and "\<And>t. Stream_inv t \<Longrightarrow> Stream_capacity t = Stream_capacity s \<Longrightarrow> fh_size h \<le> length (drop (fh_header_size h) (Stream_contents s)) \<Longrightarrow>
       Stream_contents t = drop (fh_size h) (drop (fh_header_size h) (Stream_contents s)) \<Longrightarrow>
       wp (thenM (require (\<not> fh_mask h) ''mask'') (thenM (require (unat (fh_code h) \<le> 10) ''code'')
          (ret (Some (fh_code h, take (fh_size h) (drop (fh_header_size h) (Stream_contents s))))))) Q E t"
    and "\<And>t. Stream_inv t \<Longrightarrow> Stream_capacity t = Stream_capacity s \<Longrightarrow> length (drop (fh_header_size h) (Stream_contents s)) < fh_size h \<Longrightarrow>
       Stream_contents t = drop (fh_header_size h) (Stream_contents s) \<Longrightarrow> Q None t"
  shows "wp extract_payload Q E s"
proof -
  have "wp pop_header (\<lambda>x t. case x of None \<Rightarrow> Q None t | Some _ \<Rightarrow> wp (assign_or_return (Stream_pop (fh_size h)) None (\<lambda>payload.
     thenM (require (\<not> fh_mask h) ''mask'') (thenM (require (unat (fh_code h) \<le> 10) ''code'')
     (ret (Some (fh_code h, payload)))))) Q E t) E s"
    by (rule wp_pop_header [OF assms(1)])
       (use assms in \<open>auto simp: wp_assign_or_return intro!: fifo.pop_wp\<close>)
  then show ?thesis
    using assms(1-3) by (simp add: extract_payload_def wp_assign_or_return wp_peek_header wp_peek_contents)
qed

lemma extract_payload_incomplete:
  assumes "Stream_inv s"
    and "header_at (Stream_contents s) = None \<or>
      (\<exists>h. header_at (Stream_contents s) = Some h \<and> length (Stream_contents s) < add64 (fh_header_size h) (fh_size h))"
  shows "extract_payload s = (Inr None, s)"
proof -
  have "wp extract_payload (\<lambda>r t. r = None \<and> t = s) (\<lambda>_ _. False) s"
    using assms by (auto simp: extract_payload_def wp_assign_or_return wp_peek_header wp_peek_contents)
  then show ?thesis by (auto simp: wp_def split: prod.splits sum.splits)
qed

text \<open>A header read off a prefix is the header of the whole.\<close>

lemma header_at_prefix:
  assumes "header_at (take k bs) = Some h"
  shows "header_at bs = Some h"
proof -
  have k: "2 \<le> k" "2 \<le> length bs" using assms by (auto simp: header_at_def split: if_splits)
  then have "take 2 (take k bs) = take 2 bs" by simp
  then show ?thesis
    using assms k by (auto simp: header_at_def Let_def min_def split: if_splits)
qed

section \<open>Properties\<close>

lemma wp_extract_frame:
  assumes "Stream_inv s" and "Stream_contents s = enc_frame fin code p @ rest" and "length p \<noteq> 125"
    and "length p < 2 ^ 63" and "unat (code AND 0x0F) \<le> 10"
  shows "wp extract_payload (\<lambda>r t. r = Some (code AND 0x0F, p) \<and> Stream_inv t \<and> Stream_contents t = rest \<and>
      Stream_capacity t = Stream_capacity s) (\<lambda>_ _. False) s"
proof -
  have "length p < 2 ^ 64" using assms(4) by simp
  note f = header_at_frame(1,2) [OF assms(3) this, of fin code rest, folded assms(2)] header_at_frame(3) [OF assms(3) this]
  have "frame_overhead (length p) \<le> 10" by (simp add: frame_overhead_def)
  then have "add64 (frame_overhead (length p)) (length p) = length (enc_frame fin code p)"
    using assms(4) f(3) by simp
  then show ?thesis
    by (intro wp_extract_payload [OF assms(1) f(1)]) (use assms(2,5) f in \<open>auto simp: wp_simps\<close>)
qed

text \<open>
  The exceptions: an operation code above 10 is refused, and a payload of exactly 125 bytes is read as one with
  a 64-bit length, so that what is returned, if anything is, is not the frame.
\<close>

lemma extract_payload_exceptions:
  assumes inv: "Stream_inv s" and c: "Stream_contents s = enc_frame fin code p @ rest"
    and len: "length p < 2 ^ 63" and x: "length p = 125 \<or> 10 < unat (code AND 0x0F)"
  shows "wp extract_payload (\<lambda>r t. \<not> (r = Some (code AND 0x0F, p) \<and> Stream_contents t = rest)) (\<lambda>_ _. True) s"
proof (cases "length p = 125")
  case True
  let ?k = "unat (be_value (mem_be (take 8 p) :: 64 be))"
  have c': "Stream_contents s = ((if fin then 0x80 else 0) OR (code AND 0x0F)) # of_nat 125 # take 8 p @ (drop 8 p @ rest)"
    using c True by (simp add: enc_frame_def Let_def flip: append_assoc)
  have h: "header_at (Stream_contents s) = Some \<lparr>fh_code = code AND 0x0F, fh_rsv3 = False, fh_rsv2 = False, fh_rsv1 = False,
      fh_fin = fin, fh_mask = False, fh_size = ?k, fh_header_size = 10\<rparr>"
    using header_at_form [of 125 "take 8 p" fin code "drop 8 p @ rest"] True by (simp add: c')
  have d: "drop 10 (Stream_contents s) = drop 8 p @ rest" using True by (simp add: c')
  have no: "\<not> (take ?k (drop 8 p @ rest) = p \<and> drop ?k (drop 8 p @ rest) = rest)" if "?k \<le> length (drop 8 p @ rest)"
  proof
    assume e: "take ?k (drop 8 p @ rest) = p \<and> drop ?k (drop 8 p @ rest) = rest"
    have "?k = 125" using arg_cong [of _ _ length, OF conjunct1 [OF e]] that True by simp
    then show False using arg_cong [of _ _ length, OF conjunct2 [OF e]] that True by simp
  qed
  show ?thesis
  proof (cases "add64 10 ?k \<le> length (Stream_contents s)")
    case fits: True
    show ?thesis
      by (rule wp_extract_payload [OF inv h]) (use fits no in \<open>auto simp: wp_simps d\<close>)
  next
    case False
    then have "extract_payload s = (Inr None, s)" by (intro extract_payload_incomplete [OF inv]) (auto simp: h)
    then show ?thesis by (simp add: wp_def)
  qed
next
  case False
  then have l: "length p \<noteq> 125" "length p < 2 ^ 64" using len by simp_all
  note f = header_at_frame(1,2) [OF l, of fin code rest, folded c] header_at_frame(3) [OF l]
  have "frame_overhead (length p) \<le> 10" by (simp add: frame_overhead_def)
  then have "add64 (frame_overhead (length p)) (length p) = length (enc_frame fin code p)" using len f(3) by simp
  then show ?thesis
    by (intro wp_extract_payload [OF inv f(1)]) (use c x False f in \<open>auto simp: wp_simps\<close>)
qed

lemma wp_disjoint: "wp m Q (\<lambda>_ _. False) s \<Longrightarrow> wp m (\<lambda>r t. \<not> Q r t) E s \<Longrightarrow> False"
  by (auto simp: wp_def split: prod.splits sum.splits)

text \<open>
  C26: a complete unmasked frame of RFC 6455 at the front of the stream, of fewer than \<open>2 ^ 63\<close> bytes and with
  anything behind it, is taken off the stream by \<^verbatim>\<open>extract_payload\<close> and returned with its code and exactly its
  payload if and only if the code is at most 10 and the payload is not exactly 125 bytes long.
\<close>

theorem extract_payload_frame:
  assumes "Stream_inv s" and "Stream_contents s = enc_frame fin code p @ rest" and "length p < 2 ^ 63"
  shows "wp extract_payload (\<lambda>r t. r = Some (code AND 0x0F, p) \<and> Stream_inv t \<and> Stream_contents t = rest \<and>
      Stream_capacity t = Stream_capacity s) (\<lambda>_ _. False) s \<longleftrightarrow> length p \<noteq> 125 \<and> unat (code AND 0x0F) \<le> 10"
    (is "wp _ ?Q _ s \<longleftrightarrow> _")
proof (rule iffI, rule ccontr)
  assume w: "wp extract_payload ?Q (\<lambda>_ _. False) s" and "\<not> (length p \<noteq> 125 \<and> unat (code AND 0x0F) \<le> 10)"
  then have "length p = 125 \<or> 10 < unat (code AND 0x0F)" by auto
  from extract_payload_exceptions [OF assms this]
  have "wp extract_payload (\<lambda>r t. \<not> ?Q r t) (\<lambda>_ _. True) s" by (rule wp_mono) auto
  with w show False by (rule wp_disjoint)
qed (use assms wp_extract_frame in blast)

theorem extract_payload_frame_witness:
  "wp (thenM (Stream_push_bytes (enc_frame True 1 [104, 105] @ [0x81])) extract_payload)
     (\<lambda>r t. r = Some (1, [104, 105]) \<and> Stream_contents t = [0x81]) (\<lambda>_ _. False) (Stream_new 64)"
  unfolding wp_thenM
  by (rule wp_mono [OF fifo.push_fits])
     (auto simp: enc_frame_def Let_def intro!: wp_mono [OF iffD2
        [OF extract_payload_frame [where fin = True and code = 1 and p = "[104, 105]" and rest = "[0x81]"]]])

lemma extract_partial_frame:
  assumes "Stream_inv s" and "Stream_contents s = take k (enc_frame fin code p)" and "k < length (enc_frame fin code p)"
    and "length p \<noteq> 125" and "length p < 2 ^ 63"
  shows "extract_payload s = (Inr None, s)"
proof (rule extract_payload_incomplete [OF assms(1)])
  have "length p < 2 ^ 64" using assms(5) by simp
  note f = header_at_frame(1,2) [OF assms(4) this, of fin code "[]"] header_at_frame(3) [OF assms(4) this]
  have "frame_overhead (length p) \<le> 10" by (simp add: frame_overhead_def)
  then have n: "add64 (frame_overhead (length p)) (length p) = length (enc_frame fin code p)"
    using assms(5) f(3) by simp
  show "header_at (Stream_contents s) = None \<or>
      (\<exists>h. header_at (Stream_contents s) = Some h \<and> length (Stream_contents s) < add64 (fh_header_size h) (fh_size h))"
  proof (cases "header_at (Stream_contents s)")
    case (Some h)
    then have "header_at (enc_frame fin code p) = Some h" using assms(2) header_at_prefix by metis
    then have "h = \<lparr>fh_code = code AND 0x0F, fh_rsv3 = False, fh_rsv2 = False, fh_rsv1 = False, fh_fin = fin, fh_mask = False,
       fh_size = length p, fh_header_size = frame_overhead (length p)\<rparr>" using f(1) by simp
    then show ?thesis using Some n assms(2,3) by simp
  qed simp
qed

text \<open>
  A frame that has not arrived completely is left in the stream: whatever part of it is there,
  \<^verbatim>\<open>extract_payload\<close> returns nothing and changes nothing.
\<close>

lemma extract_payload_waits:
  assumes "Stream_inv s" and "Stream_contents s = take k (enc_frame fin code p)" and "k < length (enc_frame fin code p)"
    and "length p \<noteq> 125" and "length p < 2 ^ 63"
  shows "extract_payload s = (Inr None, s)"
  using assms by (rule extract_partial_frame)

lemma extract_payload_waits_witness:
  "extract_payload (Stream_new 64) = (Inr None, Stream_new 64)"
  by (rule extract_payload_waits [where k = 0 and fin = True and code = 1 and p = "[104]"])
     (simp_all add: enc_frame_def Let_def)

text \<open>
  \<^verbatim>\<open>FrameBasicHeader::type\<close> takes the base form only below 125, so a frame with a payload of exactly 125 bytes
  is read as one with a 64-bit length, made of the first eight payload bytes. When that number is more than the
  stream holds the frame is never delivered, although it has arrived completely.
\<close>

lemma extract_payload_125_stuck:
  assumes "Stream_inv s" and "Stream_contents s = enc_frame fin code p @ rest" and "length p = 125"
    and "length (Stream_contents s) < 10 + unat (of_be_bytes (take 8 p) :: u64)"
    and "10 + unat (of_be_bytes (take 8 p) :: u64) < 2 ^ 64"
  shows "extract_payload s = (Inr None, s)"
proof (rule extract_payload_incomplete [OF assms(1)])
  have "Stream_contents s = ((if fin then 0x80 else 0) OR (code AND 0x0F)) # of_nat 125 # take 8 p @ (drop 8 p @ rest)"
    using assms(2,3) by (simp add: enc_frame_def Let_def flip: append_assoc)
  moreover have "length (take 8 p) = 8" using assms(3) by simp
  ultimately show "header_at (Stream_contents s) = None \<or>
      (\<exists>h. header_at (Stream_contents s) = Some h \<and> length (Stream_contents s) < add64 (fh_header_size h) (fh_size h))"
    using header_at_form [of 125 "take 8 p" fin code "drop 8 p @ rest"] assms(4,5)
    by (simp add: be_value_mem_be)
qed

lemma extract_payload_125_stuck_witness:
  "wp (thenM (Stream_push_bytes (enc_frame True 1 (replicate 125 65))) (\<lambda>s. (Inr (extract_payload s = (Inr None, s)), s)))
     (\<lambda>stuck t. stuck \<and> length (Stream_contents t) = 127) (\<lambda>_ _. False) (Stream_new 200)"
proof -
  have n: "unat (of_be_bytes (take 8 (replicate 125 65)) :: u64) = 0x4141414141414141"
  proof -
    have "take 8 (replicate 125 (65 :: byte)) = [65, 65, 65, 65, 65, 65, 65, 65]" by (simp add: numeral_eq_Suc)
    then show ?thesis by (simp add: of_be_bytes_def)
  qed
  show ?thesis
    unfolding wp_thenM
    by (rule wp_mono [OF fifo.push_fits])
       (auto simp: wp_def n [simplified] enc_frame_def Let_def intro!: extract_payload_125_stuck [where fin = True and code = 1 and p = "replicate 125 65" and rest = "[]"])
qed

text \<open>
  The sum of header and payload size is computed modulo \<open>2 ^ 64\<close>. A header that states a 64-bit length close to
  it passes the size check and is consumed, although the payload cannot be there: nothing is returned and the rest of
  the stream is then read as a frame.
\<close>

lemma extract_payload_huge_length_consumes_header:
  fixes n :: u64
  assumes "Stream_inv s" and "Stream_contents s = 0x82 # 127 # be_bytes 8 n @ rest"
    and "2 ^ 64 \<le> 10 + unat n" and "Stream_capacity s < 2 ^ 63"
  shows "wp extract_payload (\<lambda>r t. r = None \<and> Stream_inv t \<and> Stream_contents t = rest) (\<lambda>_ _. False) s"
proof -
  have "header_at (Stream_contents s) = Some \<lparr>fh_code = 2, fh_rsv3 = False, fh_rsv2 = False, fh_rsv1 = False, fh_fin = True,
      fh_mask = False, fh_size = unat n, fh_header_size = 10\<rparr>"
    using header_at_form [of 127 "be_bytes 8 n" True 2 rest] by (simp add: assms(2))
  moreover have u: "unat n < 2 ^ 64" using unsigned_less [of n, where 'a = nat] by simp
  have "add64 10 (unat n) = 10 + unat n - 2 ^ 64" using assms(3) u by (simp add: add64_def le_mod_geq)
  then have "add64 10 (unat n) < 10" using assms(3) u by linarith
  moreover have "length rest < 2 ^ 63"
    using assms(4) Stream_size_le_capacity [OF assms(1)] length_Stream_contents [OF assms(1)] assms(2) by simp
  ultimately show ?thesis
    using assms by (intro wp_extract_payload [OF assms(1)]) auto
qed

lemma extract_payload_huge_length_consumes_header_witness:
  "wp (thenM (Stream_push_bytes (0x82 # 127 # be_bytes 8 (- 4 :: u64) @ [1, 2, 3])) extract_payload)
     (\<lambda>r t. r = None \<and> Stream_contents t = [1, 2, 3]) (\<lambda>_ _. False) (Stream_new 64)"
  unfolding wp_thenM
  by (rule wp_mono [OF fifo.push_fits])
     (auto intro!: wp_mono [OF extract_payload_huge_length_consumes_header [where n = "- 4" and rest = "[1, 2, 3]"]])

end
