(* ===== verification/Tls_Model.thy ===== *)
theory Tls_Model
  imports UInt24 Streams
begin

text \<open>
  The packed structs of TLS 1.2, src/src/network/tls12/model.h, and the constant messages of messages.h.
  A struct the client reads off its stream has a decoder, one it writes has an encoder; the structs
  without arrays are packed structs in the sense of the prelude's contract. The specification of the
  framing is \<open>tls_record\<close>, a record header followed by its payload.
\<close>

section \<open>Constants and enumerations\<close>

record version =
  v_major :: byte
  v_minor :: byte

definition kTls12 :: version where "kTls12 = \<lparr>v_major = 3, v_minor = 3\<rparr>"

definition kGcmIvSize :: nat where "kGcmIvSize = 4"
definition kGcmTagSize :: nat where "kGcmTagSize = 16"
definition kExplicitIvSize :: nat where "kExplicitIvSize = 8"
definition X25519KeySize :: nat where "X25519KeySize = 32"

definition CipherSuite_ECDHE_RSA_WITH_AES_128_GCM_SHA256 :: u16 where
  "CipherSuite_ECDHE_RSA_WITH_AES_128_GCM_SHA256 = 0xC02F"

definition TlsExtension_SNI :: u16 where "TlsExtension_SNI = 0x0000"
definition TlsExtension_SupportedGroups :: u16 where "TlsExtension_SupportedGroups = 0x000A"
definition TlsExtension_SIGNATURE_ALGORITHMS :: u16 where "TlsExtension_SIGNATURE_ALGORITHMS = 0x000D"
definition TlsExtension_ExtendedMasterKey :: u16 where "TlsExtension_ExtendedMasterKey = 0x0017"
definition TlsExtension_RenegotiationInfo :: u16 where "TlsExtension_RenegotiationInfo = 0xFF01"

definition ContentType_ChangeCipher :: byte where "ContentType_ChangeCipher = 0x14"
definition ContentType_Handshake :: byte where "ContentType_Handshake = 0x16"
definition ContentType_ApplicationData :: byte where "ContentType_ApplicationData = 0x17"

definition HandshakeType_ClientHello :: byte where "HandshakeType_ClientHello = 0x01"
definition HandshakeType_Certificate :: byte where "HandshakeType_Certificate = 0x0B"
definition HandshakeType_ServerKeyExchange :: byte where "HandshakeType_ServerKeyExchange = 0x0C"
definition HandshakeType_ServerHelloDone :: byte where "HandshakeType_ServerHelloDone = 0x0E"
definition HandshakeType_ClientKeyExchange :: byte where "HandshakeType_ClientKeyExchange = 0x10"
definition HandshakeType_Finished :: byte where "HandshakeType_Finished = 0x14"

definition Group_Curve25519 :: u16 where "Group_Curve25519 = 0x1D"
definition CurveType_NamedCurve :: byte where "CurveType_NamedCurve = 0x03"
definition HashAlgo_SHA256 :: byte where "HashAlgo_SHA256 = 0x04"
definition SignatureAlgo_RSA :: byte where "SignatureAlgo_RSA = 0x01"

section \<open>Headers\<close>

record record_header =
  rh_content_type :: byte
  rh_version :: version
  rh_size :: "16 be"

definition sizeof_record_header :: nat where "sizeof_record_header = 5"

definition enc_record_header :: "record_header \<Rightarrow> bytes" where
  "enc_record_header h = [rh_content_type h, v_major (rh_version h), v_minor (rh_version h)] @ be_mem (rh_size h)"

definition dec_record_header :: "bytes \<Rightarrow> record_header" where
  "dec_record_header bs = \<lparr>rh_content_type = bs ! 0, rh_version = \<lparr>v_major = bs ! 1, v_minor = bs ! 2\<rparr>,
     rh_size = mem_be (chunk 3 2 bs)\<rparr>"

record handshake_header =
  hh_type :: byte
  hh_size :: uint24

definition sizeof_handshake_header :: nat where "sizeof_handshake_header = 4"

definition enc_handshake_header :: "handshake_header \<Rightarrow> bytes" where
  "enc_handshake_header h = hh_type h # UInt24_mem (hh_size h)"

definition dec_handshake_header :: "bytes \<Rightarrow> handshake_header" where
  "dec_handshake_header bs = \<lparr>hh_type = bs ! 0, hh_size = mem_UInt24 (chunk 1 3 bs)\<rparr>"

text \<open>\<^verbatim>\<open>TLSRecord\<close>: a record header and the explicit part of the nonce.\<close>

record tls_record_struct =
  tr_header :: record_header
  tr_explicit_iv :: "64 be"

definition enc_tls_record_struct :: "tls_record_struct \<Rightarrow> bytes" where
  "enc_tls_record_struct r = enc_record_header (tr_header r) @ be_mem (tr_explicit_iv r)"

section \<open>Messages of the server\<close>

record server_hello_message =
  sh_handshake_type :: byte
  sh_size :: uint24
  sh_version :: version
  sh_server_random :: bytes
  sh_session_id_size :: byte

definition sizeof_server_hello :: nat where "sizeof_server_hello = 39"

definition dec_server_hello :: "bytes \<Rightarrow> server_hello_message" where
  "dec_server_hello bs = \<lparr>sh_handshake_type = bs ! 0, sh_size = mem_UInt24 (chunk 1 3 bs),
     sh_version = \<lparr>v_major = bs ! 4, v_minor = bs ! 5\<rparr>, sh_server_random = chunk 6 32 bs,
     sh_session_id_size = bs ! 38\<rparr>"

record cipher_and_compression =
  cc_cipher_suite :: "16 be"
  cc_compression_method :: byte
  cc_extensions_size :: "16 be"

definition sizeof_cipher_and_compression :: nat where "sizeof_cipher_and_compression = 5"

definition enc_cipher_and_compression :: "cipher_and_compression \<Rightarrow> bytes" where
  "enc_cipher_and_compression c = be_mem (cc_cipher_suite c) @ [cc_compression_method c] @ be_mem (cc_extensions_size c)"

definition dec_cipher_and_compression :: "bytes \<Rightarrow> cipher_and_compression" where
  "dec_cipher_and_compression bs = \<lparr>cc_cipher_suite = mem_be (chunk 0 2 bs), cc_compression_method = bs ! 2,
     cc_extensions_size = mem_be (chunk 3 2 bs)\<rparr>"

record server_key_exchange =
  ke_curve_type :: byte
  ke_named_curve :: "16 be"
  ke_pubkey_size :: byte

definition sizeof_server_key_exchange :: nat where "sizeof_server_key_exchange = 4"

definition enc_server_key_exchange :: "server_key_exchange \<Rightarrow> bytes" where
  "enc_server_key_exchange k = [ke_curve_type k] @ be_mem (ke_named_curve k) @ [ke_pubkey_size k]"

definition dec_server_key_exchange :: "bytes \<Rightarrow> server_key_exchange" where
  "dec_server_key_exchange bs = \<lparr>ke_curve_type = bs ! 0, ke_named_curve = mem_be (chunk 1 2 bs), ke_pubkey_size = bs ! 3\<rparr>"

record signature_info =
  si_algorithm :: "16 be"
  si_size :: "16 be"

definition sizeof_signature_info :: nat where "sizeof_signature_info = 4"

definition enc_signature_info :: "signature_info \<Rightarrow> bytes" where
  "enc_signature_info k = be_mem (si_algorithm k) @ be_mem (si_size k)"

definition dec_signature_info :: "bytes \<Rightarrow> signature_info" where
  "dec_signature_info bs = \<lparr>si_algorithm = mem_be (chunk 0 2 bs), si_size = mem_be (chunk 2 2 bs)\<rparr>"

section \<open>Additional data and nonce of AES-GCM\<close>

record additional_auth_data =
  aad_sequence_number :: "64 be"
  aad_content_type :: byte
  aad_version :: version
  aad_size :: "16 be"

definition enc_aad :: "additional_auth_data \<Rightarrow> bytes" where
  "enc_aad a = be_mem (aad_sequence_number a) @
     [aad_content_type a, v_major (aad_version a), v_minor (aad_version a)] @ be_mem (aad_size a)"

record nonce =
  no_fixed_iv :: bytes
  no_explicit_iv :: "64 be"

definition enc_nonce :: "nonce \<Rightarrow> bytes" where
  "enc_nonce n = no_fixed_iv n @ be_mem (no_explicit_iv n)"

section \<open>Messages of the client\<close>

record client_hello_message =
  ch_tls_header :: record_header
  ch_handshake_header :: handshake_header
  ch_version :: version
  ch_client_random :: bytes
  ch_session_id_size :: byte
  ch_cipher_suites_size :: "16 be"
  ch_cipher_suites :: "16 be"
  ch_compression_methods_size :: byte
  ch_compression_method :: byte
  ch_extensions_size :: "16 be"

definition enc_client_hello :: "client_hello_message \<Rightarrow> bytes" where
  "enc_client_hello m = enc_record_header (ch_tls_header m) @ enc_handshake_header (ch_handshake_header m) @
     [v_major (ch_version m), v_minor (ch_version m)] @ ch_client_random m @ [ch_session_id_size m] @
     be_mem (ch_cipher_suites_size m) @ be_mem (ch_cipher_suites m) @
     [ch_compression_methods_size m, ch_compression_method m] @ be_mem (ch_extensions_size m)"

record extension_header =
  eh_type :: "16 be"
  eh_size :: "16 be"

definition enc_extension_header :: "extension_header \<Rightarrow> bytes" where
  "enc_extension_header h = be_mem (eh_type h) @ be_mem (eh_size h)"

record sni_extension =
  sni_header :: extension_header
  sni_server_name_list_size :: "16 be"
  sni_name_type :: byte
  sni_hostname_size :: "16 be"

definition enc_sni_extension :: "sni_extension \<Rightarrow> bytes" where
  "enc_sni_extension m = enc_extension_header (sni_header m) @ be_mem (sni_server_name_list_size m) @
     [sni_name_type m] @ be_mem (sni_hostname_size m)"

record curve25519_extension =
  cg_header :: extension_header
  cg_size :: "16 be"
  cg_groups :: "16 be"

definition enc_curve25519_extension :: "curve25519_extension \<Rightarrow> bytes" where
  "enc_curve25519_extension m = enc_extension_header (cg_header m) @ be_mem (cg_size m) @ be_mem (cg_groups m)"

record renegotiation_extension =
  re_header :: extension_header
  re_info_size :: byte

definition enc_renegotiation_extension :: "renegotiation_extension \<Rightarrow> bytes" where
  "enc_renegotiation_extension m = enc_extension_header (re_header m) @ [re_info_size m]"

record sha256_rsa_extension =
  sa_header :: extension_header
  sa_size :: "16 be"
  sa_hash_algo :: byte
  sa_signature_algo :: byte

definition enc_sha256_rsa_extension :: "sha256_rsa_extension \<Rightarrow> bytes" where
  "enc_sha256_rsa_extension m = enc_extension_header (sa_header m) @ be_mem (sa_size m) @
     [sa_hash_algo m, sa_signature_algo m]"

record key_exchange_message =
  kx_tls_header :: record_header
  kx_handshake_header :: handshake_header
  kx_pubkey_size :: byte
  kx_client_eph_pub :: bytes

definition enc_key_exchange_message :: "key_exchange_message \<Rightarrow> bytes" where
  "enc_key_exchange_message m = enc_record_header (kx_tls_header m) @ enc_handshake_header (kx_handshake_header m) @
     [kx_pubkey_size m] @ kx_client_eph_pub m"

record change_cipher_spec_record =
  cs_header :: record_header
  cs_message :: byte

definition enc_change_cipher_spec :: "change_cipher_spec_record \<Rightarrow> bytes" where
  "enc_change_cipher_spec m = enc_record_header (cs_header m) @ [cs_message m]"

record finished_message =
  fm_header :: handshake_header
  fm_verify_data :: bytes

definition enc_finished_message :: "finished_message \<Rightarrow> bytes" where
  "enc_finished_message m = enc_handshake_header (fm_header m) @ fm_verify_data m"

record finished_full_message =
  ff_tls_header :: record_header
  ff_explicit_iv :: "64 be"
  ff_finished :: finished_message

definition enc_finished_full :: "finished_full_message \<Rightarrow> bytes" where
  "enc_finished_full m = enc_record_header (ff_tls_header m) @ be_mem (ff_explicit_iv m) @ enc_finished_message (ff_finished m)"

record certificate_message =
  ce_tls_header :: record_header
  ce_header :: handshake_header
  ce_cert_list_size :: uint24

definition enc_certificate_message :: "certificate_message \<Rightarrow> bytes" where
  "enc_certificate_message m = enc_record_header (ce_tls_header m) @ enc_handshake_header (ce_header m) @
     UInt24_mem (ce_cert_list_size m)"

section \<open>The constant messages\<close>

definition kApplicationDataTlsRecordHeader :: record_header where
  "kApplicationDataTlsRecordHeader = \<lparr>rh_content_type = ContentType_ApplicationData, rh_version = kTls12, rh_size = BE 0\<rparr>"

definition kApplicationDataTlsRecord :: tls_record_struct where
  "kApplicationDataTlsRecord = \<lparr>tr_header = kApplicationDataTlsRecordHeader, tr_explicit_iv = BE 0\<rparr>"

definition kClientHelloMessage :: client_hello_message where
  "kClientHelloMessage = \<lparr>
     ch_tls_header = \<lparr>rh_content_type = ContentType_Handshake, rh_version = kTls12, rh_size = BE 0\<rparr>,
     ch_handshake_header = \<lparr>hh_type = HandshakeType_ClientHello, hh_size = UInt24 0\<rparr>,
     ch_version = kTls12, ch_client_random = replicate 32 0, ch_session_id_size = 0, ch_cipher_suites_size = BE 2,
     ch_cipher_suites = BE CipherSuite_ECDHE_RSA_WITH_AES_128_GCM_SHA256, ch_compression_methods_size = 1,
     ch_compression_method = 0, ch_extensions_size = BE 0\<rparr>"

definition make_sni_extensions :: "nat \<Rightarrow> sni_extension" where
  "make_sni_extensions sni_size = \<lparr>
     sni_header = \<lparr>eh_type = BE TlsExtension_SNI, eh_size = BE (of_nat (9 - 4 + sni_size))\<rparr>,
     sni_server_name_list_size = BE (of_nat (9 - 4 + sni_size - 2)), sni_name_type = 0,
     sni_hostname_size = BE (of_nat sni_size)\<rparr>"

definition kCurve25519GroupExtension :: curve25519_extension where
  "kCurve25519GroupExtension = \<lparr>cg_header = \<lparr>eh_type = BE TlsExtension_SupportedGroups, eh_size = BE (8 - 4)\<rparr>,
     cg_size = BE 2, cg_groups = BE Group_Curve25519\<rparr>"

definition kExtendedMasterSecretExtension :: extension_header where
  "kExtendedMasterSecretExtension = \<lparr>eh_type = BE TlsExtension_ExtendedMasterKey, eh_size = BE 0\<rparr>"

definition kRenegotiationExtension :: renegotiation_extension where
  "kRenegotiationExtension = \<lparr>re_header = \<lparr>eh_type = BE TlsExtension_RenegotiationInfo, eh_size = BE (5 - 4)\<rparr>,
     re_info_size = 0\<rparr>"

text \<open>The initializer names no \<^verbatim>\<open>size\<close>, so the field keeps its default, zero.\<close>

definition kSHA256RSAExtension :: sha256_rsa_extension where
  "kSHA256RSAExtension = \<lparr>sa_header = \<lparr>eh_type = BE TlsExtension_SIGNATURE_ALGORITHMS, eh_size = BE (8 - 4)\<rparr>,
     sa_size = BE 0, sa_hash_algo = HashAlgo_SHA256, sa_signature_algo = SignatureAlgo_RSA\<rparr>"

text \<open>
  The memory of \<^verbatim>\<open>std::make_tuple(..)\<close> of the four extensions. The standard leaves the order of the
  elements in memory open; libstdc++ stores the last element first, and every element has alignment one.
\<close>

definition kDefaultExtensions :: bytes where
  "kDefaultExtensions = enc_sha256_rsa_extension kSHA256RSAExtension @
     enc_renegotiation_extension kRenegotiationExtension @ enc_extension_header kExtendedMasterSecretExtension @
     enc_curve25519_extension kCurve25519GroupExtension"

definition kX25519KeyExchangeMessage :: key_exchange_message where
  "kX25519KeyExchangeMessage = \<lparr>
     kx_tls_header = \<lparr>rh_content_type = ContentType_Handshake, rh_version = kTls12, rh_size = BE (4 + 1 + 32)\<rparr>,
     kx_handshake_header = \<lparr>hh_type = HandshakeType_ClientKeyExchange, hh_size = UInt24 (1 + 32)\<rparr>,
     kx_pubkey_size = 32, kx_client_eph_pub = replicate 32 0\<rparr>"

definition kChangeCipherSpecRecord :: change_cipher_spec_record where
  "kChangeCipherSpecRecord = \<lparr>
     cs_header = \<lparr>rh_content_type = ContentType_ChangeCipher, rh_version = kTls12, rh_size = BE 1\<rparr>, cs_message = 1\<rparr>"

definition kFinishedHandshakeMessage :: finished_message where
  "kFinishedHandshakeMessage = \<lparr>fm_header = \<lparr>hh_type = HandshakeType_Finished, hh_size = UInt24 (16 - 4)\<rparr>,
     fm_verify_data = replicate 12 0\<rparr>"

definition kFinishedHandshakeFullMessage :: finished_full_message where
  "kFinishedHandshakeFullMessage = \<lparr>
     ff_tls_header = \<lparr>rh_content_type = ContentType_Handshake, rh_version = kTls12, rh_size = BE 0\<rparr>,
     ff_explicit_iv = BE 0, ff_finished = kFinishedHandshakeMessage\<rparr>"

definition kCertificateHandshakeMessage :: certificate_message where
  "kCertificateHandshakeMessage = \<lparr>
     ce_tls_header = \<lparr>rh_content_type = ContentType_Handshake, rh_version = kTls12, rh_size = BE (12 - 5)\<rparr>,
     ce_header = \<lparr>hh_type = HandshakeType_Certificate, hh_size = UInt24 (12 - 5 - 4)\<rparr>, ce_cert_list_size = UInt24 0\<rparr>"

section \<open>Specification of the framing\<close>

definition tls_record :: "byte \<Rightarrow> bytes \<Rightarrow> bytes" where
  "tls_record ct body =
     enc_record_header \<lparr>rh_content_type = ct, rh_version = kTls12, rh_size = BE (of_nat (length body))\<rparr> @ body"

section \<open>Memory images\<close>

lemma list3: "length bs = 3 \<Longrightarrow> [bs ! 0, bs ! 1, bs ! 2] = bs"
  by (auto simp: list_eq_iff_nth_eq less_Suc_eq numeral_eq_Suc)

lemma take_chunk: "n \<le> length bs \<Longrightarrow> take n bs = chunk 0 n bs"
  by (simp add: chunk_def)

interpretation record_header_mem: packed_struct enc_record_header dec_record_header sizeof_record_header
proof
  fix bs :: bytes assume "length bs = sizeof_record_header"
  then have l: "length bs = 5" by (simp add: sizeof_record_header_def)
  then have "[bs ! 0, bs ! 1, bs ! 2] @ chunk 3 2 bs = bs"
    by (intro nth_equalityI) (auto simp: chunk_def nth_append nth_Cons numeral_eq_Suc less_Suc_eq)
  with l show "enc_record_header (dec_record_header bs) = bs"
    by (simp add: enc_record_header_def dec_record_header_def)
qed (auto simp: enc_record_header_def dec_record_header_def sizeof_record_header_def chunk_def)

interpretation handshake_header_mem: packed_struct enc_handshake_header dec_handshake_header sizeof_handshake_header
proof
  fix bs :: bytes assume "length bs = sizeof_handshake_header"
  then have l: "length bs = 4" by (simp add: sizeof_handshake_header_def)
  then have "bs ! 0 # chunk 1 3 bs = bs"
    by (intro nth_equalityI) (auto simp: chunk_def nth_Cons numeral_eq_Suc less_Suc_eq)
  with l show "enc_handshake_header (dec_handshake_header bs) = bs"
    by (simp add: enc_handshake_header_def dec_handshake_header_def uint24_mem.enc_dec)
qed (auto simp: enc_handshake_header_def dec_handshake_header_def sizeof_handshake_header_def chunk_def
      uint24_mem.length_enc uint24_mem.dec_enc)

interpretation cipher_mem: packed_struct enc_cipher_and_compression dec_cipher_and_compression sizeof_cipher_and_compression
proof
  fix bs :: bytes assume "length bs = sizeof_cipher_and_compression"
  then have l: "length bs = 5" by (simp add: sizeof_cipher_and_compression_def)
  then have "chunk 0 2 bs @ [bs ! 2] @ chunk 3 2 bs = bs"
    by (intro nth_equalityI) (auto simp: chunk_def nth_append nth_Cons numeral_eq_Suc less_Suc_eq)
  with l show "enc_cipher_and_compression (dec_cipher_and_compression bs) = bs"
    by (simp add: enc_cipher_and_compression_def dec_cipher_and_compression_def)
qed (auto simp: enc_cipher_and_compression_def dec_cipher_and_compression_def sizeof_cipher_and_compression_def
      chunk_def nth_append)

interpretation key_exchange_mem: packed_struct enc_server_key_exchange dec_server_key_exchange sizeof_server_key_exchange
proof
  fix bs :: bytes assume "length bs = sizeof_server_key_exchange"
  then have l: "length bs = 4" by (simp add: sizeof_server_key_exchange_def)
  then have "[bs ! 0] @ chunk 1 2 bs @ [bs ! 3] = bs"
    by (intro nth_equalityI) (auto simp: chunk_def nth_append nth_Cons numeral_eq_Suc less_Suc_eq)
  with l show "enc_server_key_exchange (dec_server_key_exchange bs) = bs"
    by (simp add: enc_server_key_exchange_def dec_server_key_exchange_def)
qed (auto simp: enc_server_key_exchange_def dec_server_key_exchange_def sizeof_server_key_exchange_def
      chunk_def nth_append)

interpretation signature_info_mem: packed_struct enc_signature_info dec_signature_info sizeof_signature_info
proof
  fix bs :: bytes assume "length bs = sizeof_signature_info"
  then have l: "length bs = 4" by (simp add: sizeof_signature_info_def)
  then have "chunk 0 2 bs @ chunk 2 2 bs = bs" using chunk_append_chunk [of 0 2 bs 2] by (simp add: chunk_def)
  with l show "enc_signature_info (dec_signature_info bs) = bs"
    by (simp add: enc_signature_info_def dec_signature_info_def)
qed (auto simp: enc_signature_info_def dec_signature_info_def sizeof_signature_info_def chunk_def)

lemma length_headers [simp]:
  "length (enc_record_header h) = 5" "length (enc_handshake_header k) = 4"
  "length (enc_extension_header x) = 4" "length (UInt24_mem u) = 3"
  by (simp_all add: enc_record_header_def enc_handshake_header_def enc_extension_header_def uint24_mem.length_enc)

lemma length_messages [simp]:
  "length (enc_client_hello m) = 20 + length (ch_client_random m)"
  "length (enc_tls_record_struct r) = 13" "length (enc_sni_extension e) = 9"
  "length kDefaultExtensions = 25" "length (enc_change_cipher_spec c) = 6"
  "length (enc_key_exchange_message k) = 10 + length (kx_client_eph_pub k)"
  "length (enc_finished_message f) = 4 + length (fm_verify_data f)"
  "length (enc_finished_full g) = 17 + length (fm_verify_data (ff_finished g))"
  "length (enc_certificate_message d) = 12" "length (enc_aad a) = 13" "length (enc_nonce n) = length (no_fixed_iv n) + 8"
  by (simp_all add: enc_client_hello_def enc_tls_record_struct_def enc_sni_extension_def kDefaultExtensions_def
      enc_sha256_rsa_extension_def enc_renegotiation_extension_def enc_curve25519_extension_def enc_change_cipher_spec_def
      enc_key_exchange_message_def enc_finished_message_def enc_finished_full_def enc_certificate_message_def
      enc_aad_def enc_nonce_def)

lemma tls_record_header [simp]:
  "length (tls_record ct body) = 5 + length body" "drop 5 (tls_record ct body) = body"
  "length body < 65536 \<Longrightarrow> dec_record_header (take 5 (tls_record ct body)) =
     \<lparr>rh_content_type = ct, rh_version = kTls12, rh_size = BE (of_nat (length body))\<rparr>"
  by (simp_all add: tls_record_def record_header_mem.dec_enc)

end
