(* ===== verification/Net_Types.thy ===== *)
theory Net_Types
  imports Endian
begin

text \<open>
  The address types of src/src/network/type: \<open>Mac\<close> (mac.h, mac.cpp) with its text form, \<open>Ip\<close>
  (ip.h, ip.cpp), \<open>Port\<close> (port.h), and the aggregates \<open>Host\<close>, \<open>Endpoint\<close>, \<open>Session\<close> and
  \<open>Connection\<close> (endpoint.h). The text form of a Mac is that of the standard library's
  \<^verbatim>\<open>sscanf\<close> and \<^verbatim>\<open>snprintf\<close>; the one of an Ip is left to \<^verbatim>\<open>inet_pton\<close> and \<^verbatim>\<open>inet_ntop\<close> of the system, which are
  parameters.
\<close>

section \<open>Mac\<close>

datatype mac = Mac_bytes byte byte byte byte byte byte

definition Mac_default :: mac where
  "Mac_default = Mac_bytes 0 0 0 0 0 0"

fun Mac_data :: "mac \<Rightarrow> bytes" where
  "Mac_data (Mac_bytes a b c d e f) = [a, b, c, d, e, f]"

definition mem_Mac :: "bytes \<Rightarrow> mac" where
  "mem_Mac bs = Mac_bytes (bs ! 0) (bs ! 1) (bs ! 2) (bs ! 3) (bs ! 4) (bs ! 5)"

definition Mac_kSize :: nat where
  "Mac_kSize = 6"

definition Mac_eq :: "mac \<Rightarrow> mac \<Rightarrow> bool" where
  "Mac_eq x y \<longleftrightarrow> take Mac_kSize (Mac_data x) = take Mac_kSize (Mac_data y)"

text \<open>\<^verbatim>\<open>snprintf\<close> with \<^verbatim>\<open>%02X:%02X:%02X:%02X:%02X:%02X\<close>.\<close>

definition hex_upper :: "nat \<Rightarrow> char" where
  "hex_upper n = ''0123456789ABCDEF'' ! n"

definition format_02X :: "byte \<Rightarrow> string" where
  "format_02X b = [hex_upper (unat b div 16), hex_upper (unat b mod 16)]"

fun Mac_as_string :: "mac \<Rightarrow> string" where
  "Mac_as_string (Mac_bytes a b c d e f) =
     format_02X a @ CHR '':'' # format_02X b @ CHR '':'' # format_02X c @ CHR '':'' #
     format_02X d @ CHR '':'' # format_02X e @ CHR '':'' # format_02X f"

text \<open>
  \<^verbatim>\<open>sscanf\<close> with \<^verbatim>\<open>%hhx:%hhx:%hhx:%hhx:%hhx:%hhx\<close>. A \<^verbatim>\<open>%hhx\<close> skips white space, takes an
  optional sign and an optional \<^verbatim>\<open>0x\<close>, reads as many hexadecimal digits as there are and stores
  the low eight bits; \<^verbatim>\<open>:\<close> matches itself. The scan stops at the first mismatch and the bytes not
  reached keep the zero they were initialised with.
\<close>

definition hex_val :: "char \<Rightarrow> nat option" where
  "hex_val c = (let n = (of_char c :: nat) in
     if 48 \<le> n \<and> n \<le> 57 then Some (n - 48)
     else if 65 \<le> n \<and> n \<le> 70 then Some (n - 55)
     else if 97 \<le> n \<and> n \<le> 102 then Some (n - 87) else None)"

fun scan_digits :: "nat \<Rightarrow> string \<Rightarrow> nat \<times> string" where
  "scan_digits acc [] = (acc, [])"
| "scan_digits acc (c # cs) = (case hex_val c of None \<Rightarrow> (acc, c # cs) | Some d \<Rightarrow> scan_digits (16 * acc + d) cs)"

definition is_space :: "char \<Rightarrow> bool" where
  "is_space c \<longleftrightarrow> c = CHR '' '' \<or> (9 \<le> (of_char c :: nat) \<and> (of_char c :: nat) \<le> 13)"

definition starts_with_digit :: "string \<Rightarrow> bool" where
  "starts_with_digit cs = (case cs of [] \<Rightarrow> False | c # _ \<Rightarrow> hex_val c \<noteq> None)"

fun skip_0x :: "string \<Rightarrow> string" where
  "skip_0x (a # b # cs) = (if a = CHR ''0'' \<and> (b = CHR ''x'' \<or> b = CHR ''X'') then cs else a # b # cs)"
| "skip_0x cs = cs"

definition scan_hhx :: "string \<Rightarrow> (byte \<times> string) option" where
  "scan_hhx s = (let s1 = dropWhile is_space s;
     neg = (case s1 of [] \<Rightarrow> False | c # _ \<Rightarrow> c = CHR ''-'');
     s2 = (case s1 of [] \<Rightarrow> [] | c # cs \<Rightarrow> if c = CHR ''+'' \<or> c = CHR ''-'' then cs else c # cs);
     s3 = skip_0x s2
     in if starts_with_digit s3
        then (case scan_digits 0 s3 of (n, rest) \<Rightarrow>
          Some (if neg then - of_nat n else of_nat n, rest))
        else None)"

fun scan_mac :: "nat \<Rightarrow> string \<Rightarrow> bytes" where
  "scan_mac 0 s = []"
| "scan_mac (Suc k) s = (case scan_hhx s of None \<Rightarrow> []
     | Some (b, rest) \<Rightarrow> b # (case rest of [] \<Rightarrow> []
         | c # cs \<Rightarrow> if c = CHR '':'' then scan_mac k cs else []))"

definition Mac :: "string \<Rightarrow> mac" where
  "Mac str = mem_Mac (poke 0 (scan_mac 6 str) (Mac_data Mac_default))"

section \<open>Ip\<close>

text \<open>\<^verbatim>\<open>in_addr\<close> read as a native word: the four address bytes in memory order.\<close>

datatype ip = Ip (Ip_data: u32)

definition Ip_eq :: "ip \<Rightarrow> ip \<Rightarrow> bool" where
  "Ip_eq x y \<longleftrightarrow> Ip_data x = Ip_data y"

definition Ip_less :: "ip \<Rightarrow> ip \<Rightarrow> bool" where
  "Ip_less x y \<longleftrightarrow> Ip_data x < Ip_data y"

definition Ip_mem :: "ip \<Rightarrow> bytes" where
  "Ip_mem x = le_bytes 4 (Ip_data x)"

definition mem_Ip :: "bytes \<Rightarrow> ip" where
  "mem_Ip bs = Ip (of_le_bytes bs)"

definition Ip_default :: ip where
  "Ip_default = Ip 0"

text \<open>
  \<open>inet_pton\<close> takes the text and what the destination held and gives what the destination holds then; its result is
  not looked at. \<open>inet_ntop\<close> takes the address and the buffer of sixteen zero characters and gives the buffer as it leaves it.
\<close>

definition Ip_of_string :: "(string \<Rightarrow> bytes \<Rightarrow> bytes) \<Rightarrow> string \<Rightarrow> ip" where
  "Ip_of_string inet_pton str = mem_Ip (inet_pton str (Ip_mem Ip_default))"

definition Ip_as_string :: "(bytes \<Rightarrow> string \<Rightarrow> string) \<Rightarrow> ip \<Rightarrow> string" where
  "Ip_as_string inet_ntop x = takeWhile (\<lambda>c. c \<noteq> CHR 0x00) (inet_ntop (Ip_mem x) (replicate 16 (CHR 0x00)))"

section \<open>Port\<close>

datatype port = Port_be (port_data: "16 be")

definition Port :: "u16 \<Rightarrow> port" where
  "Port p = Port_be (BE p)"

definition Port_value :: "port \<Rightarrow> u16" where
  "Port_value p = be_value (port_data p)"

definition Port_as_big_endian :: "port \<Rightarrow> u16" where
  "Port_as_big_endian p = be_data (port_data p)"

definition Port_eq :: "port \<Rightarrow> port \<Rightarrow> bool" where
  "Port_eq x y \<longleftrightarrow> be_eq (port_data x) (port_data y)"

definition Port_mem :: "port \<Rightarrow> bytes" where
  "Port_mem p = be_mem (port_data p)"

definition mem_Port :: "bytes \<Rightarrow> port" where
  "mem_Port bs = Port_be (mem_be bs)"

section \<open>Aggregates\<close>

record host =
  host_mac :: mac
  host_ip :: ip

record endpoint =
  ep_ip :: ip
  ep_port :: port

record session =
  sess_src :: host
  sess_dst :: host

record connection =
  conn_session :: session
  conn_src_port :: port
  conn_dst_port :: port

definition Host_eq :: "host \<Rightarrow> host \<Rightarrow> bool" where
  "Host_eq x y \<longleftrightarrow> Mac_eq (host_mac x) (host_mac y) \<and> Ip_eq (host_ip x) (host_ip y)"

definition Endpoint_eq :: "endpoint \<Rightarrow> endpoint \<Rightarrow> bool" where
  "Endpoint_eq x y \<longleftrightarrow> Ip_eq (ep_ip x) (ep_ip y) \<and> Port_eq (ep_port x) (ep_port y)"

definition Session_eq :: "session \<Rightarrow> session \<Rightarrow> bool" where
  "Session_eq x y \<longleftrightarrow> Host_eq (sess_src x) (sess_src y) \<and> Host_eq (sess_dst x) (sess_dst y)"

definition Connection_eq :: "connection \<Rightarrow> connection \<Rightarrow> bool" where
  "Connection_eq x y \<longleftrightarrow> Session_eq (conn_session x) (conn_session y) \<and>
     Port_eq (conn_src_port x) (conn_src_port y) \<and> Port_eq (conn_dst_port x) (conn_dst_port y)"

text \<open>A concrete connection, for the witnesses.\<close>

definition demo_session :: session where
  "demo_session = \<lparr>sess_src = \<lparr>host_mac = Mac_bytes 2 0 0 0 0 1, host_ip = Ip 0x0100000A\<rparr>,
     sess_dst = \<lparr>host_mac = Mac_bytes 2 0 0 0 0 2, host_ip = Ip 0x0200000A\<rparr>\<rparr>"

definition demo_connection :: connection where
  "demo_connection = \<lparr>conn_session = demo_session, conn_src_port = Port 40000, conn_dst_port = Port 443\<rparr>"

section \<open>Memory images\<close>

lemma length_Mac_data [simp]: "length (Mac_data m) = 6"
  by (cases m) simp

interpretation mac_mem: packed_struct Mac_data mem_Mac 6
proof
  fix bs :: bytes assume "length bs = 6"
  then show "Mac_data (mem_Mac bs) = bs"
    by (auto simp: mem_Mac_def eval_nat_numeral length_Suc_conv)
next
  fix m show "mem_Mac (Mac_data m) = m" by (cases m) (simp add: mem_Mac_def)
qed simp

interpretation ip_mem: packed_struct Ip_mem mem_Ip 4
proof
  fix bs :: bytes assume "length bs = 4"
  then show "Ip_mem (mem_Ip bs) = bs"
    using le_bytes_of_le_bytes [of bs, where 'a = 32] by (simp add: Ip_mem_def mem_Ip_def)
qed (simp_all add: Ip_mem_def mem_Ip_def of_le_bytes_le_bytes)

interpretation port_mem: packed_struct Port_mem mem_Port 2
  by unfold_locales (simp_all add: Port_mem_def mem_Port_def)

lemmas length_Ip_mem [simp] = ip_mem.length_enc
lemmas length_Port_mem [simp] = port_mem.length_enc

section \<open>Equality and order\<close>

lemma Mac_eq_iff [simp]: "Mac_eq x y \<longleftrightarrow> x = y"
  by (simp add: Mac_eq_def Mac_kSize_def mac_mem.enc_inject)

lemma Ip_eq_iff [simp]: "Ip_eq x y \<longleftrightarrow> x = y"
  by (cases x; cases y) (simp add: Ip_eq_def)

lemma Port_eq_iff [simp]: "Port_eq x y \<longleftrightarrow> x = y"
  by (cases x; cases y) (simp add: Port_eq_def)

lemma Port_value_Port [simp]: "Port_value (Port p) = p"
  by (simp add: Port_value_def Port_def)

lemma Host_eq_iff [simp]: "Host_eq x y \<longleftrightarrow> x = y"
  by (auto simp: Host_eq_def intro: host.equality)

instantiation ip :: linorder
begin

definition less_ip :: "ip \<Rightarrow> ip \<Rightarrow> bool" where
  "less_ip x y \<longleftrightarrow> Ip_less x y"

definition less_eq_ip :: "ip \<Rightarrow> ip \<Rightarrow> bool" where
  "less_eq_ip x y \<longleftrightarrow> x = y \<or> Ip_less x y"

instance
  by standard (auto simp: less_ip_def less_eq_ip_def Ip_less_def ip.expand)

end

section \<open>The text form of a Mac\<close>

lemma hex_upper_props:
  assumes "n < 16"
  shows "hex_val (hex_upper n) = Some n \<and> \<not> is_space (hex_upper n) \<and> hex_upper n \<noteq> CHR ''+'' \<and>
    hex_upper n \<noteq> CHR ''-'' \<and> hex_upper n \<noteq> CHR ''x'' \<and> hex_upper n \<noteq> CHR ''X''"
proof -
  have "n \<in> {0, 1, 2, 3, 4, 5, 6, 7, 8, 9, 10, 11, 12, 13, 14, 15}" using assms unfolding insert_iff empty_iff by presburger
  then show ?thesis by (auto simp: hex_upper_def hex_val_def is_space_def)
qed

lemma scan_hhx_format_02X:
  assumes "rest = [] \<or> hd rest = CHR '':''"
  shows "scan_hhx (format_02X b @ rest) = Some (b, rest)"
proof -
  let ?h = "unat b div 16" and ?l = "unat b mod 16"
  have "unat b < 256" using unsigned_less [of b, where 'a = nat] by simp
  then have "?h < 16" "?l < 16" by auto
  note p = hex_upper_props [OF this(1)] hex_upper_props [OF this(2)]
  have colon: "hex_val CHR '':'' = None" by (simp add: hex_val_def)
  have "scan_digits n rest = (n, rest)" for n
    using assms colon by (cases rest) auto
  moreover have "of_nat (16 * ?h + ?l) = b" by simp
  ultimately show ?thesis
    using p by (simp add: scan_hhx_def format_02X_def starts_with_digit_def)
qed

lemma length_scan_mac: "length (scan_mac k s) \<le> k"
proof (induction k arbitrary: s)
  case (Suc k)
  then show ?case by (auto split: option.splits list.splits)
qed simp

section \<open>Properties\<close>

text \<open>A text that the system refuses, leaving the destination alone, gives the address 0.0.0.0, without an error.\<close>

lemma Ip_of_malformed: "(\<And>dst. inet_pton str dst = dst) \<Longrightarrow> Ip_of_string inet_pton str = Ip 0"
  by (simp add: Ip_of_string_def Ip_default_def ip_mem.dec_enc)

text \<open>
  Parsing the text form of a hardware address gives the address back.
\<close>

lemma Mac_string_round_trip: "Mac (Mac_as_string m) = m"
proof (cases m)
  case (Mac_bytes a b c d e f)
  have "scan_mac 6 (Mac_as_string m) = [a, b, c, d, e, f]"
    by (simp add: Mac_bytes eval_nat_numeral scan_hhx_format_02X
        scan_hhx_format_02X [where rest = "[]", simplified])
  then show ?thesis by (simp add: Mac_def poke_def Mac_default_def mem_Mac_def Mac_bytes)
qed

end
