(* ===== verification/Eth_Ip.thy ===== *)
theory Eth_Ip
  imports Net_Types
begin

text \<open>
  The Ethernet and IPv4 packet views of src/src/network/eth_ip. A view is a span into packet memory:
  \<open>v_mem\<close> is the memory from the span's first byte to the end of its allocation, \<open>v_size\<close> the size
  the span states, which the code may set beyond the allocation. A read or a write outside
  \<open>v_mem\<close> is undefined behaviour and is the error \<open>Undefined_behaviour\<close> of the model. Sizes are
  \<^verbatim>\<open>size_t\<close>, with subtraction that wraps around (\<open>sub64\<close>).
  The checksum \<^verbatim>\<open>rte_ipv4_cksum\<close> of DPDK is an argument of the operation that uses it.
\<close>

record packet_view =
  v_mem :: bytes
  v_size :: nat

section \<open>Access to packet memory\<close>

definition load :: "nat \<Rightarrow> nat \<Rightarrow> bytes \<Rightarrow> ('s, bytes) prog" where
  "load off n mem = thenM (defined_if (off + n \<le> length mem) ''read past the buffer'') (ret (chunk off n mem))"

definition store :: "nat \<Rightarrow> bytes \<Rightarrow> bytes \<Rightarrow> ('s, bytes) prog" where
  "store off bs mem = thenM (defined_if (off + length bs \<le> length mem) ''write past the buffer'') (ret (poke off bs mem))"

section \<open>Ethernet\<close>

definition EthernetType_Ipv4 :: u16 where "EthernetType_Ipv4 = 0x0800"
definition EthernetType_Ipv6 :: u16 where "EthernetType_Ipv6 = 0x86DD"
definition EthernetType_Arp :: u16 where "EthernetType_Arp = 0x0806"

record eth_header =
  eth_dst_mac :: mac
  eth_src_mac :: mac
  eth_type :: "16 be"

definition enc_eth :: "eth_header \<Rightarrow> bytes" where
  "enc_eth h = Mac_data (eth_dst_mac h) @ Mac_data (eth_src_mac h) @ be_mem (eth_type h)"

definition dec_eth :: "bytes \<Rightarrow> eth_header" where
  "dec_eth bs = \<lparr>eth_dst_mac = mem_Mac (chunk 0 6 bs), eth_src_mac = mem_Mac (chunk 6 6 bs),
     eth_type = mem_be (chunk 12 2 bs)\<rparr>"

abbreviation sizeof_eth :: nat where "sizeof_eth \<equiv> 14"

definition Eth_is_valid :: "packet_view \<Rightarrow> bool" where
  "Eth_is_valid v \<longleftrightarrow> v_size v \<ge> sizeof_eth"

definition Eth_header :: "packet_view \<Rightarrow> ('s, eth_header) prog" where
  "Eth_header v = bindM (load 0 sizeof_eth (v_mem v)) (\<lambda>bs. ret (dec_eth bs))"

definition Eth_payload :: "packet_view \<Rightarrow> packet_view" where
  "Eth_payload v = \<lparr>v_mem = drop sizeof_eth (v_mem v), v_size = sub64 (v_size v) sizeof_eth\<rparr>"

definition Eth_raw_bytes :: "packet_view \<Rightarrow> packet_view" where
  "Eth_raw_bytes v = v"

definition Eth_predict_size :: "nat \<Rightarrow> nat" where
  "Eth_predict_size payload_size = sizeof_eth + payload_size"

definition Eth_resize_payload :: "nat \<Rightarrow> packet_view \<Rightarrow> packet_view" where
  "Eth_resize_payload payload_size v = v\<lparr>v_size := add64 sizeof_eth payload_size\<rparr>"

definition Eth_init :: "mac \<Rightarrow> mac \<Rightarrow> u16 \<Rightarrow> packet_view \<Rightarrow> ('s, packet_view) prog" where
  "Eth_init dst_mac src_mac ty v =
     bindM (store 0 (enc_eth \<lparr>eth_dst_mac = dst_mac, eth_src_mac = src_mac, eth_type = BE ty\<rparr>) (v_mem v)) (\<lambda>mem.
     thenM (require (Eth_is_valid v) ''ethernet packet is not valid'')
     (ret (v\<lparr>v_mem := mem\<rparr>)))"

section \<open>IPv4\<close>

definition IpProtocol_Tcp :: byte where "IpProtocol_Tcp = 6"
definition IpProtocol_Udp :: byte where "IpProtocol_Udp = 17"

text \<open>\<open>ip_ver_ihl\<close> is the byte of the bit fields \<^verbatim>\<open>ihl : 4, version : 4\<close>, the low half first.\<close>

record ip_header =
  ip_ver_ihl :: byte
  ip_tos :: byte
  ip_total_length :: "16 be"
  ip_id_field :: "16 be"
  ip_frag_off :: "16 be"
  ip_ttl :: byte
  ip_protocol :: byte
  ip_check :: "16 be"
  ip_src_addr :: ip
  ip_dst_addr :: ip

definition ip_ihl :: "ip_header \<Rightarrow> nat" where
  "ip_ihl h = unat (ip_ver_ihl h AND 0x0F)"

definition ip_version :: "ip_header \<Rightarrow> nat" where
  "ip_version h = unat (drop_bit 4 (ip_ver_ihl h))"

definition ver_ihl :: "byte \<Rightarrow> byte \<Rightarrow> byte" where
  "ver_ihl version ihl = push_bit 4 version OR (ihl AND 0x0F)"

definition enc_ip :: "ip_header \<Rightarrow> bytes" where
  "enc_ip h = [ip_ver_ihl h, ip_tos h] @ be_mem (ip_total_length h) @ be_mem (ip_id_field h) @
     be_mem (ip_frag_off h) @ [ip_ttl h, ip_protocol h] @ be_mem (ip_check h) @
     Ip_mem (ip_src_addr h) @ Ip_mem (ip_dst_addr h)"

definition dec_ip :: "bytes \<Rightarrow> ip_header" where
  "dec_ip bs = \<lparr>ip_ver_ihl = bs ! 0, ip_tos = bs ! 1, ip_total_length = mem_be (chunk 2 2 bs),
     ip_id_field = mem_be (chunk 4 2 bs), ip_frag_off = mem_be (chunk 6 2 bs), ip_ttl = bs ! 8,
     ip_protocol = bs ! 9, ip_check = mem_be (chunk 10 2 bs), ip_src_addr = mem_Ip (chunk 12 4 bs),
     ip_dst_addr = mem_Ip (chunk 16 4 bs)\<rparr>"

abbreviation sizeof_ip :: nat where "sizeof_ip \<equiv> 20"

definition IpHeader_size :: "ip_header \<Rightarrow> nat" where
  "IpHeader_size h = ip_ihl h * 4"

text \<open>An \<open>IPPacketView\<close> holds the Ethernet view; its header lies at the Ethernet payload.\<close>

definition IP_header :: "packet_view \<Rightarrow> ('s, ip_header) prog" where
  "IP_header v = bindM (load 0 sizeof_ip (v_mem (Eth_payload v))) (\<lambda>bs. ret (dec_ip bs))"

definition IP_store_header :: "ip_header \<Rightarrow> packet_view \<Rightarrow> ('s, packet_view) prog" where
  "IP_store_header h v = bindM (store sizeof_eth (enc_ip h) (v_mem v)) (\<lambda>mem. ret (v\<lparr>v_mem := mem\<rparr>))"

definition IP_is_valid :: "packet_view \<Rightarrow> ('s, bool) prog" where
  "IP_is_valid v = bindM (IP_header v) (\<lambda>h.
     let ip_size = unat (be_value (ip_total_length h));
         eth_payload_size = v_size (Eth_payload v)
     in ret ((ip_size < 60 \<or> ip_size = eth_payload_size) \<and> IpHeader_size h \<le> eth_payload_size))"

definition IP_init :: "session \<Rightarrow> byte \<Rightarrow> packet_view \<Rightarrow> ('s, packet_view) prog" where
  "IP_init session protocol v =
     bindM (Eth_init (host_mac (sess_dst session)) (host_mac (sess_src session)) EthernetType_Ipv4 v) (\<lambda>v1.
     bindM (IP_store_header
       \<lparr>ip_ver_ihl = ver_ihl 4 5, ip_tos = 0, ip_total_length = BE (of_nat (v_size (Eth_payload v1))),
        ip_id_field = BE 0, ip_frag_off = BE 0, ip_ttl = 64, ip_protocol = protocol, ip_check = BE 0,
        ip_src_addr = host_ip (sess_src session), ip_dst_addr = host_ip (sess_dst session)\<rparr> v1) (\<lambda>v2.
     bindM (IP_is_valid v2) (\<lambda>ok.
     thenM (require ok ''ip packet is not valid'') (ret v2))))"

definition IP_update_checksum :: "(bytes \<Rightarrow> u16) \<Rightarrow> packet_view \<Rightarrow> ('s, packet_view) prog" where
  "IP_update_checksum rte_ipv4_cksum v = bindM (IP_header v) (\<lambda>h.
     IP_store_header (h\<lparr>ip_check := from_big_endian (rte_ipv4_cksum (v_mem (Eth_payload v)))\<rparr>) v)"

definition IP_predict_size :: "nat \<Rightarrow> nat" where
  "IP_predict_size payload_size = Eth_predict_size (20 + payload_size)"

definition IP_resize_payload :: "nat \<Rightarrow> packet_view \<Rightarrow> ('s, packet_view) prog" where
  "IP_resize_payload payload_size v = bindM (IP_header v) (\<lambda>h.
     let v1 = Eth_resize_payload (add64 (IpHeader_size h) payload_size) v
     in bindM (IP_header v1) (\<lambda>h1.
       IP_store_header (h1\<lparr>ip_total_length := BE (of_nat (v_size (Eth_payload v1)))\<rparr>) v1))"

definition IP_payload :: "packet_view \<Rightarrow> ('s, packet_view) prog" where
  "IP_payload v = bindM (IP_header v) (\<lambda>h.
     ret \<lparr>v_mem = drop (IpHeader_size h) (v_mem (Eth_payload v)),
          v_size = sub64 (unat (be_value (ip_total_length h))) (IpHeader_size h)\<rparr>)"

text \<open>The headers as plain reads, for memory known to hold them.\<close>

definition eth_hdr :: "packet_view \<Rightarrow> eth_header" where
  "eth_hdr v = dec_eth (chunk 0 sizeof_eth (v_mem v))"

definition ip_hdr :: "packet_view \<Rightarrow> ip_header" where
  "ip_hdr v = dec_ip (chunk sizeof_eth sizeof_ip (v_mem v))"

text \<open>The two headers \<^verbatim>\<open>IPPacketView::init\<close> leaves in the buffer.\<close>

definition IP_init_header :: "session \<Rightarrow> byte \<Rightarrow> nat \<Rightarrow> ip_header" where
  "IP_init_header sess proto n =
     \<lparr>ip_ver_ihl = ver_ihl 4 5, ip_tos = 0, ip_total_length = BE (of_nat n), ip_id_field = BE 0,
      ip_frag_off = BE 0, ip_ttl = 64, ip_protocol = proto, ip_check = BE 0,
      ip_src_addr = host_ip (sess_src sess), ip_dst_addr = host_ip (sess_dst sess)\<rparr>"

definition Eth_init_header :: "session \<Rightarrow> eth_header" where
  "Eth_init_header sess = \<lparr>eth_dst_mac = host_mac (sess_dst sess), eth_src_mac = host_mac (sess_src sess),
     eth_type = BE EthernetType_Ipv4\<rparr>"

section \<open>The headers are packed structs\<close>

interpretation eth_mem: packed_struct enc_eth dec_eth sizeof_eth
proof
  fix bs :: bytes assume "length bs = sizeof_eth"
  then show "enc_eth (dec_eth bs) = bs"
    by (simp add: enc_eth_def dec_eth_def mac_mem.enc_dec)
       (auto simp: chunk_def eval_nat_numeral length_Suc_conv)
qed (simp_all add: enc_eth_def dec_eth_def chunk_def mac_mem.dec_enc)

interpretation ip_hdr_mem: packed_struct enc_ip dec_ip sizeof_ip
proof
  fix bs :: bytes assume "length bs = sizeof_ip"
  then show "enc_ip (dec_ip bs) = bs"
    by (simp add: enc_ip_def dec_ip_def ip_mem.enc_dec)
       (auto simp: chunk_def eval_nat_numeral length_Suc_conv)
qed (simp_all add: enc_ip_def dec_ip_def chunk_def ip_mem.dec_enc nth_append)

lemmas length_enc_eth [simp] = eth_mem.length_enc
lemmas length_enc_ip [simp] = ip_hdr_mem.length_enc

section \<open>Reads and writes of headers\<close>

lemma wp_load [wp_simps]:
  "wp (load off n mem) Q E =
     (if off + n \<le> length mem then Q (chunk off n mem) else E (Undefined_behaviour ''read past the buffer''))"
  by (simp add: load_def wp_simps)

lemma wp_store [wp_simps]:
  "wp (store off bs mem) Q E =
     (if off + length bs \<le> length mem then Q (poke off bs mem)
      else E (Undefined_behaviour ''write past the buffer''))"
  by (simp add: store_def wp_simps)

lemma v_mem_Eth_payload [simp]: "v_mem (Eth_payload v) = drop sizeof_eth (v_mem v)"
  by (simp add: Eth_payload_def)

lemma v_size_Eth_payload [simp]: "v_size (Eth_payload v) = sub64 (v_size v) sizeof_eth"
  by (simp add: Eth_payload_def)

lemma wp_Eth_header [wp_simps]:
  "wp (Eth_header v) Q E =
     (if sizeof_eth \<le> length (v_mem v) then Q (eth_hdr v)
      else E (Undefined_behaviour ''read past the buffer''))"
  by (simp add: Eth_header_def wp_simps eth_hdr_def)

lemma wp_IP_header [wp_simps]:
  "wp (IP_header v) Q E =
     (if 34 \<le> length (v_mem v) then Q (ip_hdr v)
      else E (Undefined_behaviour ''read past the buffer''))"
  by (auto simp: IP_header_def wp_simps ip_hdr_def chunk_def)

lemma wp_IP_store_header [wp_simps]:
  "wp (IP_store_header h v) Q E =
     (if 34 \<le> length (v_mem v) then Q (v\<lparr>v_mem := poke sizeof_eth (enc_ip h) (v_mem v)\<rparr>)
      else E (Undefined_behaviour ''write past the buffer''))"
  by (simp add: IP_store_header_def wp_simps)

lemma ip_hdr_size [simp]: "ip_hdr (v\<lparr>v_size := n\<rparr>) = ip_hdr v"
  by (simp add: ip_hdr_def)

lemma eth_hdr_size [simp]: "eth_hdr (v\<lparr>v_size := n\<rparr>) = eth_hdr v"
  by (simp add: eth_hdr_def)

lemma ip_hdr_stored [simp]:
  "34 \<le> length m \<Longrightarrow> ip_hdr (v\<lparr>v_mem := poke 14 (enc_ip h) m\<rparr>) = h"
  using ip_hdr_mem.read_written [of 14 m h] by (simp add: ip_hdr_def)

lemma eth_hdr_ip_stored [simp]:
  "34 \<le> length m \<Longrightarrow> eth_hdr (v\<lparr>v_mem := poke 14 (enc_ip h) m\<rparr>) = eth_hdr (v\<lparr>v_mem := m\<rparr>)"
  using ip_hdr_mem.read_frame [of 0 14 14 m h] by (simp add: eth_hdr_def)

lemma eth_hdr_stored [simp]:
  "14 \<le> length m \<Longrightarrow> eth_hdr (v\<lparr>v_mem := poke 0 (enc_eth h) m\<rparr>) = h"
  using eth_mem.read_written [of 0 m h] by (simp add: eth_hdr_def)

lemma ip_hdr_eth_stored [simp]:
  "14 \<le> length m \<Longrightarrow> ip_hdr (v\<lparr>v_mem := poke 0 (enc_eth h) m\<rparr>) = ip_hdr (v\<lparr>v_mem := m\<rparr>)"
  using eth_mem.read_frame [of 14 20 0 m h] by (simp add: ip_hdr_def)

lemma drop_poke_after: "off + length bs \<le> n \<Longrightarrow> off + length bs \<le> length mem \<Longrightarrow> drop n (poke off bs mem) = drop n mem"
  by (auto simp: poke_def add.commute dest!: le_Suc_ex)

lemma take_poke_before: "n \<le> off \<Longrightarrow> off \<le> length mem \<Longrightarrow> take n (poke off bs mem) = take n mem"
  by (simp add: poke_def min_def)

lemma ver_ihl_4_5 [simp]: "unat (ver_ihl 4 5 AND 0x0F) = 5" "unat (drop_bit 4 (ver_ihl 4 5)) = 4"
  by (simp_all add: ver_ihl_def)

lemma IpHeader_size_le: "IpHeader_size h \<le> 60"
proof -
  have "ip_ver_ihl h AND 0x0F \<le> 0x0F" by (rule word_and_le1)
  then have "unat (ip_ver_ihl h AND 0x0F) \<le> unat (0x0F :: byte)" by (simp only: word_le_nat_alt)
  then show ?thesis by (simp add: IpHeader_size_def ip_ihl_def)
qed

lemma IpHeader_size_init [simp]: "IpHeader_size (IP_init_header sess proto n) = 20"
  by (simp add: IpHeader_size_def ip_ihl_def IP_init_header_def)

lemma IP_init_header_simps [simp]:
  "ip_version (IP_init_header sess proto n) = 4"
  "ip_total_length (IP_init_header sess proto n) = BE (of_nat n)"
  "ip_protocol (IP_init_header sess proto n) = proto"
  "ip_check (IP_init_header sess proto n) = BE 0"
  "ip_src_addr (IP_init_header sess proto n) = host_ip (sess_src sess)"
  "ip_dst_addr (IP_init_header sess proto n) = host_ip (sess_dst sess)"
  by (simp_all add: IP_init_header_def ip_version_def)

lemma IP_init_run:
  assumes "34 \<le> v_size v" and "34 \<le> length (v_mem v)" and "v_size v < 65536"
  shows "IP_init sess proto v s = (Inr (v\<lparr>v_mem :=
    poke 14 (enc_ip (IP_init_header sess proto (v_size v - 14))) (poke 0 (enc_eth (Eth_init_header sess)) (v_mem v))\<rparr>), s)"
proof -
  let ?v = "v\<lparr>v_mem := poke 0 (enc_eth (Eth_init_header sess)) (v_mem v)\<rparr>"
  let ?v' = "v\<lparr>v_mem := poke 14 (enc_ip (IP_init_header sess proto (v_size v - 14))) (v_mem ?v)\<rparr>"
  have "wp (IP_init sess proto v) (\<lambda>a t. a = ?v' \<and> t = s) (\<lambda>_ _. False) s"
    using assms
    by (simp add: IP_init_def Eth_init_def IP_is_valid_def Let_def wp_simps Eth_is_valid_def
        flip: IP_init_header_def Eth_init_header_def del: of_nat_diff)
  then show ?thesis by (auto simp: wp_def split: prod.splits sum.splits)
qed

section \<open>Properties\<close>

text \<open>
  \<^verbatim>\<open>IPPacketView::init\<close> on a buffer that holds both headers (and states less than 64 KiB) succeeds,
  and the frame then reads back as an IPv4 header of twenty bytes with the session's addresses, the
  Ethernet payload size as its total length and a zero checksum, behind an Ethernet header with the
  session's hardware addresses; the bytes after the headers are untouched.
\<close>

lemma IP_init_headers:
  assumes "34 \<le> v_size v" and "34 \<le> length (v_mem v)" and "v_size v < 65536"
  shows "wp (IP_init sess proto v) (\<lambda>v' s'. s' = s \<and> v_size v' = v_size v \<and>
      length (v_mem v') = length (v_mem v) \<and> drop 34 (v_mem v') = drop 34 (v_mem v) \<and>
      eth_hdr v' = \<lparr>eth_dst_mac = host_mac (sess_dst sess), eth_src_mac = host_mac (sess_src sess),
        eth_type = BE EthernetType_Ipv4\<rparr> \<and>
      ip_version (ip_hdr v') = 4 \<and> IpHeader_size (ip_hdr v') = 20 \<and>
      unat (be_value (ip_total_length (ip_hdr v'))) = v_size v - 14 \<and>
      ip_protocol (ip_hdr v') = proto \<and> ip_check (ip_hdr v') = BE 0 \<and>
      ip_src_addr (ip_hdr v') = host_ip (sess_src sess) \<and> ip_dst_addr (ip_hdr v') = host_ip (sess_dst sess))
    (\<lambda>_ _. False) s"
  using assms
  by (simp add: wp_result [OF IP_init_run] drop_poke_after Eth_init_header_def del: of_nat_diff)


lemma IP_init_headers_witness:
  "wp (IP_init demo_session IpProtocol_Tcp \<lparr>v_mem = replicate 64 0, v_size = 60\<rparr>)
     (\<lambda>v' s'. s' = () \<and> unat (be_value (ip_total_length (ip_hdr v'))) = 46 \<and> ip_protocol (ip_hdr v') = IpProtocol_Tcp)
     (\<lambda>_ _. False) ()"
  by (rule wp_mono [OF IP_init_headers]) auto

text \<open>
  \<^verbatim>\<open>IPPacketView::is_valid\<close> accepts a packet whose total length is smaller than its own header, and
  \<^verbatim>\<open>payload()\<close> of such a packet states a size that wrapped around below \<open>2 ^ 64\<close>.
\<close>

lemma IP_short_total_length_accepted:
  assumes "34 \<le> length (v_mem v)" and "14 + IpHeader_size (ip_hdr v) \<le> v_size v" and "v_size v < 2 ^ 64"
    and "unat (be_value (ip_total_length (ip_hdr v))) < IpHeader_size (ip_hdr v)"
  shows "IP_is_valid v s = (Inr True, s) \<and>
    wp (IP_payload v) (\<lambda>p s'. s' = s \<and>
      v_size p = 2 ^ 64 + unat (be_value (ip_total_length (ip_hdr v))) - IpHeader_size (ip_hdr v)) (\<lambda>_ _. False) s"
proof -
  have "wp (IP_is_valid v) (\<lambda>b s'. b \<and> s' = s) (\<lambda>_ _. False) s"
    using assms IpHeader_size_le [of "ip_hdr v"] by (simp add: IP_is_valid_def wp_simps Let_def)
  then have "IP_is_valid v s = (Inr True, s)" by (auto simp: wp_def split: prod.splits sum.splits)
  then show ?thesis
    using assms IpHeader_size_le [of "ip_hdr v"] by (simp add: IP_payload_def wp_simps sub64_wrap)
qed

lemma IP_short_total_length_accepted_witness:
  "IP_is_valid \<lparr>v_mem = replicate 14 0 @ [0x45] @ replicate 45 0, v_size = 60\<rparr> () = (Inr True, ())"
proof -
  let ?v = "\<lparr>v_mem = replicate 14 0 @ [0x45] @ replicate 45 (0 :: byte), v_size = 60\<rparr>"
  have "chunk 14 20 (v_mem ?v) = 0x45 # replicate 19 0" by (simp add: chunk_def numeral_eq_Suc)
  then have "ip_ver_ihl (ip_hdr ?v) = 0x45" "be_value (ip_total_length (ip_hdr ?v)) = 0"
    by (simp_all add: ip_hdr_def dec_ip_def chunk_def numeral_eq_Suc) (simp add: be_value_mem_be of_be_bytes_def)
  then show ?thesis
    using IP_short_total_length_accepted [of ?v "()"] by (simp add: IpHeader_size_def ip_ihl_def)
qed

end
