(* ===== verification/Tcp_Packet.thy ===== *)
theory Tcp_Packet
  imports Eth_Ip
begin

text \<open>
  The TCP packet of src/src/network/tcp: the flag set (flags.h), sequence numbers with their
  wrap-around order (seq_number.h), the header and the options block (model.h), and the packet view
  (packet_view.cpp) with its option parser. The TCP header lies where the IP header ends, so every
  access goes through the IP header's size. \<^verbatim>\<open>rte_ipv4_udptcp_cksum\<close> of DPDK is an argument of the
  operations that use it.
\<close>

section \<open>Flags\<close>

text \<open>A scoped enumeration over \<^verbatim>\<open>uint8_t\<close>: every byte is a value of the type.\<close>

type_synonym flags = byte

definition Flags_FIN :: flags where "Flags_FIN = 0x01"
definition Flags_SYN :: flags where "Flags_SYN = 0x02"
definition Flags_RST :: flags where "Flags_RST = 0x04"
definition Flags_PSH :: flags where "Flags_PSH = 0x08"
definition Flags_ACK :: flags where "Flags_ACK = 0x10"
definition Flags_URG :: flags where "Flags_URG = 0x20"
definition Flags_ECE :: flags where "Flags_ECE = 0x40"
definition Flags_CWR :: flags where "Flags_CWR = 0x80"
definition Flags_SYN_ACK :: flags where "Flags_SYN_ACK = 0x12"
definition Flags_FIN_ACK :: flags where "Flags_FIN_ACK = 0x11"
definition Flags_RST_ACK :: flags where "Flags_RST_ACK = 0x14"
definition Flags_PSH_ACK :: flags where "Flags_PSH_ACK = 0x18"

definition Flags_or :: "flags \<Rightarrow> flags \<Rightarrow> flags" where "Flags_or lhs rhs = lhs OR rhs"
definition Flags_and :: "flags \<Rightarrow> flags \<Rightarrow> flags" where "Flags_and lhs rhs = lhs AND rhs"
definition Flags_xor :: "flags \<Rightarrow> flags \<Rightarrow> flags" where "Flags_xor lhs rhs = lhs XOR rhs"
definition Flags_not :: "flags \<Rightarrow> flags" where "Flags_not flag = NOT flag"

definition has_flag :: "flags \<Rightarrow> flags \<Rightarrow> bool" where
  "has_flag flags flag \<longleftrightarrow> Flags_and flags flag = flag"

section \<open>SeqNumber\<close>

datatype seq_number = SeqNumber (seq_value: u32)

definition SeqNumber_add :: "seq_number \<Rightarrow> u32 \<Rightarrow> seq_number" where
  "SeqNumber_add a offset = SeqNumber (seq_value a + offset)"

definition SeqNumber_minus :: "seq_number \<Rightarrow> seq_number \<Rightarrow> u32" where
  "SeqNumber_minus a b = seq_value a - seq_value b"

definition SeqNumber_compare :: "seq_number \<Rightarrow> seq_number \<Rightarrow> strong_ordering" where
  "SeqNumber_compare a b =
     (if seq_value a = seq_value b then Equal_ordering
      else if sint (seq_value a - seq_value b) < 0 then Less_ordering else Greater_ordering)"

definition SeqNumber_less :: "seq_number \<Rightarrow> seq_number \<Rightarrow> bool" where
  "SeqNumber_less a b \<longleftrightarrow> SeqNumber_compare a b = Less_ordering"

definition SeqNumber_le :: "seq_number \<Rightarrow> seq_number \<Rightarrow> bool" where
  "SeqNumber_le a b \<longleftrightarrow> SeqNumber_compare a b \<noteq> Greater_ordering"

definition SeqNumber_eq :: "seq_number \<Rightarrow> seq_number \<Rightarrow> bool" where
  "SeqNumber_eq a b \<longleftrightarrow> seq_value a = seq_value b"

section \<open>Header and options\<close>

text \<open>\<open>tcp_off_res\<close> is the byte of the bit fields \<^verbatim>\<open>reserved : 4, data_offset_scaled : 4\<close>, the low half first.\<close>

record tcp_header =
  tcp_src_port :: port
  tcp_dst_port :: port
  tcp_seq :: "32 be"
  tcp_ack :: "32 be"
  tcp_off_res :: byte
  tcp_flags :: flags
  tcp_window :: "16 be"
  tcp_checksum :: "16 be"
  tcp_urg_ptr :: "16 be"

definition tcp_off_res_of :: "byte \<Rightarrow> byte \<Rightarrow> byte" where
  "tcp_off_res_of data_offset_scaled reserved = push_bit 4 data_offset_scaled OR (reserved AND 0x0F)"

definition data_offset_scaled :: "tcp_header \<Rightarrow> nat" where
  "data_offset_scaled h = unat (drop_bit 4 (tcp_off_res h))"

definition tcp_data_offset :: "tcp_header \<Rightarrow> nat" where
  "tcp_data_offset h = data_offset_scaled h * 4"

definition enc_tcp :: "tcp_header \<Rightarrow> bytes" where
  "enc_tcp h = Port_mem (tcp_src_port h) @ Port_mem (tcp_dst_port h) @ be_mem (tcp_seq h) @ be_mem (tcp_ack h) @
     [tcp_off_res h, tcp_flags h] @ be_mem (tcp_window h) @ be_mem (tcp_checksum h) @ be_mem (tcp_urg_ptr h)"

definition dec_tcp :: "bytes \<Rightarrow> tcp_header" where
  "dec_tcp bs = \<lparr>tcp_src_port = mem_Port (chunk 0 2 bs), tcp_dst_port = mem_Port (chunk 2 2 bs),
     tcp_seq = mem_be (chunk 4 4 bs), tcp_ack = mem_be (chunk 8 4 bs), tcp_off_res = bs ! 12,
     tcp_flags = bs ! 13, tcp_window = mem_be (chunk 14 2 bs), tcp_checksum = mem_be (chunk 16 2 bs),
     tcp_urg_ptr = mem_be (chunk 18 2 bs)\<rparr>"

abbreviation sizeof_tcp :: nat where "sizeof_tcp \<equiv> 20"

record option_header =
  opt_kind :: byte
  opt_length :: byte

record options_block =
  mss_option :: "option_header \<times> 16 be"
  sack_permitted_option :: option_header
  window_scale_option :: "option_header \<times> byte"
  term_and_padding :: "byte \<times> byte \<times> byte"

definition kMssOptionHeader :: option_header where
  "kMssOptionHeader = \<lparr>opt_kind = 2, opt_length = 4\<rparr>"

definition kSackPermittedOptionHeader :: option_header where
  "kSackPermittedOptionHeader = \<lparr>opt_kind = 4, opt_length = 2\<rparr>"

definition kWindowScaleOptionHeader :: option_header where
  "kWindowScaleOptionHeader = \<lparr>opt_kind = 3, opt_length = 3\<rparr>"

definition kNoOperationByte :: byte where "kNoOperationByte = 1"
definition kTerminationByte :: byte where "kTerminationByte = 0"

definition kDefaultOptionsBlock :: options_block where
  "kDefaultOptionsBlock = \<lparr>mss_option = (kMssOptionHeader, BE 1460),
     sack_permitted_option = kSackPermittedOptionHeader,
     window_scale_option = (kWindowScaleOptionHeader, 0),
     term_and_padding = (kTerminationByte, 0, 0)\<rparr>"

definition enc_option_header :: "option_header \<Rightarrow> bytes" where
  "enc_option_header h = [opt_kind h, opt_length h]"

definition enc_options_block :: "options_block \<Rightarrow> bytes" where
  "enc_options_block b =
     (case mss_option b of (h, mss) \<Rightarrow> enc_option_header h @ be_mem mss) @
     enc_option_header (sack_permitted_option b) @
     (case window_scale_option b of (h, shift) \<Rightarrow> enc_option_header h @ [shift]) @
     (case term_and_padding b of (x, y, z) \<Rightarrow> [x, y, z])"

abbreviation sizeof_options_block :: nat where "sizeof_options_block \<equiv> 12"

definition kDefaultWindowSize :: u16 where "kDefaultWindowSize = 65535"

section \<open>The packet view\<close>

definition Tcp_header :: "packet_view \<Rightarrow> ('s, tcp_header) prog" where
  "Tcp_header v = bindM (IP_payload v) (\<lambda>p. bindM (load 0 sizeof_tcp (v_mem p)) (\<lambda>bs. ret (dec_tcp bs)))"

text \<open>A write through the header reference, at the address of the IP payload.\<close>

definition Tcp_store :: "nat \<Rightarrow> bytes \<Rightarrow> packet_view \<Rightarrow> ('s, packet_view) prog" where
  "Tcp_store off bs v = bindM (IP_header v) (\<lambda>ih.
     bindM (store (sizeof_eth + IpHeader_size ih + off) bs (v_mem v)) (\<lambda>mem. ret (v\<lparr>v_mem := mem\<rparr>)))"

definition Tcp_predict_size :: "nat \<Rightarrow> bool \<Rightarrow> nat" where
  "Tcp_predict_size payload_size options = IP_predict_size (sizeof_tcp + (if options then 12 else 0) + payload_size)"

definition Tcp_resize_payload :: "nat \<Rightarrow> packet_view \<Rightarrow> ('s, packet_view) prog" where
  "Tcp_resize_payload payload_size v = bindM (Tcp_header v) (\<lambda>h.
     IP_resize_payload (add64 (tcp_data_offset h) payload_size) v)"

definition Tcp_init ::
    "connection \<Rightarrow> flags \<Rightarrow> seq_number \<Rightarrow> seq_number \<Rightarrow> bool \<Rightarrow> packet_view \<Rightarrow> ('s, packet_view) prog" where
  "Tcp_init connection flags seq ack_seq options v =
     bindM (IP_init (conn_session connection) IpProtocol_Tcp v) (\<lambda>v1.
     let hdr = \<lparr>tcp_src_port = conn_src_port connection, tcp_dst_port = conn_dst_port connection,
                tcp_seq = BE (seq_value seq), tcp_ack = BE (seq_value ack_seq),
                tcp_off_res = tcp_off_res_of (of_nat (sizeof_tcp div 4)) 0, tcp_flags = flags,
                tcp_window = BE kDefaultWindowSize, tcp_checksum = BE 0, tcp_urg_ptr = BE 0\<rparr>
     in bindM (Tcp_store 0 (enc_tcp hdr) v1) (\<lambda>v2.
       if options then
         bindM (Tcp_store 0 (enc_tcp (hdr\<lparr>tcp_off_res :=
           tcp_off_res_of (of_nat (data_offset_scaled hdr + sizeof_options_block div 4)) 0\<rparr>)) v2) (\<lambda>v3.
         Tcp_store sizeof_tcp (enc_options_block kDefaultOptionsBlock) v3)
       else ret v2))"

definition Tcp_calc_checksum :: "(bytes \<Rightarrow> bytes \<Rightarrow> u16) \<Rightarrow> packet_view \<Rightarrow> ('s, 16 be) prog" where
  "Tcp_calc_checksum rte_ipv4_udptcp_cksum v = bindM (IP_payload v) (\<lambda>p.
     ret (from_big_endian (rte_ipv4_udptcp_cksum (v_mem (Eth_payload v)) (v_mem p))))"

definition Tcp_update_checksum :: "(bytes \<Rightarrow> bytes \<Rightarrow> u16) \<Rightarrow> packet_view \<Rightarrow> ('s, packet_view) prog" where
  "Tcp_update_checksum cksum v = bindM (Tcp_calc_checksum cksum v) (\<lambda>c.
     bindM (Tcp_header v) (\<lambda>h. Tcp_store 0 (enc_tcp (h\<lparr>tcp_checksum := c\<rparr>)) v))"

definition Tcp_payload :: "packet_view \<Rightarrow> ('s, packet_view) prog" where
  "Tcp_payload v = bindM (IP_payload v) (\<lambda>p. bindM (Tcp_header v) (\<lambda>h.
     ret \<lparr>v_mem = drop (tcp_data_offset h) (v_mem p), v_size = sub64 (v_size p) (tcp_data_offset h)\<rparr>))"

definition Tcp_is_valid :: "packet_view \<Rightarrow> ('s, bool) prog" where
  "Tcp_is_valid v = IP_is_valid v"

text \<open>
  The option loop over the bytes after the header. \<open>options_length\<close> is the \<^verbatim>\<open>size_t\<close> difference
  computed once; every access checks the memory. An offset inside the memory leaves the sums below
  \<open>2 ^ 64\<close>, so they are plain sums of naturals.
\<close>

function parse_options_loop :: "bytes \<Rightarrow> nat \<Rightarrow> nat \<Rightarrow> byte option \<Rightarrow> error + byte option" where
  "parse_options_loop options_data options_length offset window_scale =
     (if \<not> offset < options_length then Inr window_scale
      else if \<not> offset < length options_data then Inl (Undefined_behaviour ''read past the buffer'')
      else let option_kind = options_data ! offset in
        if option_kind = kTerminationByte then Inr window_scale
        else if option_kind = kNoOperationByte
        then parse_options_loop options_data options_length (offset + 1) window_scale
        else if \<not> offset + 2 \<le> options_length then Inl (Runtime_error ''Not enough space for option header'')
        else if \<not> offset + 1 < length options_data then Inl (Undefined_behaviour ''read past the buffer'')
        else let len = unat (options_data ! (offset + 1)) in
          if \<not> (len \<ge> 2 \<and> offset + len \<le> options_length) then Inl (Runtime_error ''Invalid length field'')
          else if option_kind = opt_kind kWindowScaleOptionHeader \<and> len = 3
          then (if \<not> offset + 2 < length options_data then Inl (Undefined_behaviour ''read past the buffer'')
                else parse_options_loop options_data options_length (offset + len) (Some (options_data ! (offset + 2))))
          else parse_options_loop options_data options_length (offset + len) window_scale)"
  by pat_completeness auto

termination
  by (relation "measure (\<lambda>(data, len, offset, ws). len - offset)") auto

definition lift_result :: "error + 'a \<Rightarrow> ('s, 'a) prog" where
  "lift_result r = (case r of Inl e \<Rightarrow> throw e | Inr a \<Rightarrow> ret a)"

definition Tcp_parse_options :: "packet_view \<Rightarrow> ('s, byte option) prog" where
  "Tcp_parse_options v = bindM (IP_payload v) (\<lambda>p. bindM (Tcp_header v) (\<lambda>h.
     lift_result (parse_options_loop (drop sizeof_tcp (v_mem p)) (sub64 (tcp_data_offset h) sizeof_tcp) 0 None)))"


text \<open>The TCP header as a plain read, and what a frame of this client carries in its headers.\<close>

definition tcp_off :: "packet_view \<Rightarrow> nat" where
  "tcp_off v = sizeof_eth + IpHeader_size (ip_hdr v)"

definition tcp_hdr :: "packet_view \<Rightarrow> tcp_header" where
  "tcp_hdr v = dec_tcp (chunk (tcp_off v) sizeof_tcp (v_mem v))"

definition tcp_header_length :: "bool \<Rightarrow> nat" where
  "tcp_header_length options = (if options then 32 else 20)"

definition tcp_frame :: "connection \<Rightarrow> flags \<Rightarrow> seq_number \<Rightarrow> seq_number \<Rightarrow> bool \<Rightarrow> packet_view \<Rightarrow> bool" where
  "tcp_frame c flags seq ack options v \<longleftrightarrow>
     54 + (if options then 12 else 0) \<le> length (v_mem v) \<and>
     eth_hdr v = \<lparr>eth_dst_mac = host_mac (sess_dst (conn_session c)),
       eth_src_mac = host_mac (sess_src (conn_session c)), eth_type = BE EthernetType_Ipv4\<rparr> \<and>
     ip_version (ip_hdr v) = 4 \<and> IpHeader_size (ip_hdr v) = 20 \<and> ip_protocol (ip_hdr v) = IpProtocol_Tcp \<and>
     ip_src_addr (ip_hdr v) = host_ip (sess_src (conn_session c)) \<and>
     ip_dst_addr (ip_hdr v) = host_ip (sess_dst (conn_session c)) \<and>
     tcp_src_port (tcp_hdr v) = conn_src_port c \<and> tcp_dst_port (tcp_hdr v) = conn_dst_port c \<and>
     be_value (tcp_seq (tcp_hdr v)) = seq_value seq \<and> be_value (tcp_ack (tcp_hdr v)) = seq_value ack \<and>
     tcp_flags (tcp_hdr v) = flags \<and> be_value (tcp_window (tcp_hdr v)) = kDefaultWindowSize \<and>
     tcp_data_offset (tcp_hdr v) = tcp_header_length options \<and>
     (options \<longrightarrow> chunk 54 12 (v_mem v) = enc_options_block kDefaultOptionsBlock)"

text \<open>The frame with one checksum field replaced, and what correct checksums are: each is computed with
  the fields it covers still zero, the TCP one before the IP one.\<close>

definition with_tcp_checksum :: "16 be \<Rightarrow> packet_view \<Rightarrow> packet_view" where
  "with_tcp_checksum c v = v\<lparr>v_mem := poke (tcp_off v) (enc_tcp (tcp_hdr v\<lparr>tcp_checksum := c\<rparr>)) (v_mem v)\<rparr>"

definition with_ip_check :: "16 be \<Rightarrow> packet_view \<Rightarrow> packet_view" where
  "with_ip_check c v = v\<lparr>v_mem := poke sizeof_eth (enc_ip (ip_hdr v\<lparr>ip_check := c\<rparr>)) (v_mem v)\<rparr>"

definition checksums_ok :: "(bytes \<Rightarrow> u16) \<Rightarrow> (bytes \<Rightarrow> bytes \<Rightarrow> u16) \<Rightarrow> packet_view \<Rightarrow> bool" where
  "checksums_ok rte_ipv4_cksum rte_ipv4_udptcp_cksum v \<longleftrightarrow>
     (let z = with_ip_check (BE 0) (with_tcp_checksum (BE 0) v) in
      tcp_checksum (tcp_hdr v) =
        from_big_endian (rte_ipv4_udptcp_cksum (drop sizeof_eth (v_mem z)) (drop (tcp_off z) (v_mem z)))) \<and>
     ip_check (ip_hdr v) = from_big_endian (rte_ipv4_cksum (drop sizeof_eth (v_mem (with_ip_check (BE 0) v))))"

definition tcp_in_bounds :: "packet_view \<Rightarrow> bool" where
  "tcp_in_bounds v \<longleftrightarrow> 34 \<le> tcp_off v \<and> tcp_off v + 20 \<le> length (v_mem v)"

text \<open>The options of RFC 9293 as data, with their wire form and the window scale they announce.\<close>

datatype tcp_option = No_operation | Tlv_option byte bytes

fun enc_tcp_option :: "tcp_option \<Rightarrow> bytes" where
  "enc_tcp_option No_operation = [1]"
| "enc_tcp_option (Tlv_option kind data) = kind # of_nat (length data + 2) # data"

fun wf_tcp_option :: "tcp_option \<Rightarrow> bool" where
  "wf_tcp_option No_operation \<longleftrightarrow> True"
| "wf_tcp_option (Tlv_option kind data) \<longleftrightarrow> kind \<noteq> 0 \<and> kind \<noteq> 1 \<and> length data + 2 < 256"

fun announced_scale :: "tcp_option \<Rightarrow> byte option \<Rightarrow> byte option" where
  "announced_scale (Tlv_option kind [shift]) ws = (if kind = 3 then Some shift else ws)"
| "announced_scale _ ws = ws"

lemmas Flags_defs =
  Flags_FIN_def Flags_SYN_def Flags_RST_def Flags_PSH_def Flags_ACK_def Flags_URG_def Flags_ECE_def
  Flags_CWR_def Flags_SYN_ACK_def Flags_FIN_ACK_def Flags_RST_ACK_def Flags_PSH_ACK_def
  Flags_or_def Flags_and_def Flags_xor_def Flags_not_def

declare parse_options_loop.simps [simp del]

section \<open>The header is a packed struct\<close>

interpretation tcp_mem: packed_struct enc_tcp dec_tcp sizeof_tcp
proof
  fix bs :: bytes assume "length bs = sizeof_tcp"
  then show "enc_tcp (dec_tcp bs) = bs"
    by (simp add: enc_tcp_def dec_tcp_def port_mem.enc_dec)
       (auto simp: chunk_def eval_nat_numeral length_Suc_conv)
qed (simp_all add: enc_tcp_def dec_tcp_def chunk_def port_mem.dec_enc nth_append)

lemmas length_enc_tcp [simp] = tcp_mem.length_enc

lemma length_enc_options_block [simp]: "length (enc_options_block b) = 12"
  by (simp add: enc_options_block_def enc_option_header_def split: prod.splits)

section \<open>Reads and writes through the view\<close>

lemma wp_IP_payload [wp_simps]:
  "wp (IP_payload v) Q E =
     (if 34 \<le> length (v_mem v)
      then Q \<lparr>v_mem = drop (tcp_off v) (v_mem v),
              v_size = sub64 (unat (be_value (ip_total_length (ip_hdr v)))) (IpHeader_size (ip_hdr v))\<rparr>
      else E (Undefined_behaviour ''read past the buffer''))"
  by (simp add: IP_payload_def wp_simps tcp_off_def add.commute)

lemma wp_Tcp_header [wp_simps]:
  "wp (Tcp_header v) Q E =
     (if 34 \<le> length (v_mem v) \<and> tcp_off v + 20 \<le> length (v_mem v) then Q (tcp_hdr v)
      else E (Undefined_behaviour ''read past the buffer''))"
  by (auto simp: Tcp_header_def wp_simps tcp_hdr_def chunk_def)

lemma wp_Tcp_store [wp_simps]:
  "wp (Tcp_store off bs v) Q E =
     (if \<not> 34 \<le> length (v_mem v) then E (Undefined_behaviour ''read past the buffer'')
      else if tcp_off v + off + length bs \<le> length (v_mem v)
      then Q (v\<lparr>v_mem := poke (tcp_off v + off) bs (v_mem v)\<rparr>)
      else E (Undefined_behaviour ''write past the buffer''))"
  by (simp add: Tcp_store_def wp_simps tcp_off_def)

lemma wp_lift_result [wp_simps]:
  "wp (lift_result r) Q E = (case r of Inl e \<Rightarrow> E e | Inr a \<Rightarrow> Q a)"
  by (cases r) (simp_all add: lift_result_def wp_simps)

lemma wp_IP_resize_payload [wp_simps]:
  "wp (IP_resize_payload n v) Q E =
     (let v1 = Eth_resize_payload (add64 (IpHeader_size (ip_hdr v)) n) v in
      if 34 \<le> length (v_mem v)
      then Q (v1\<lparr>v_mem := poke 14 (enc_ip (ip_hdr v\<lparr>ip_total_length := BE (of_nat (v_size (Eth_payload v1)))\<rparr>)) (v_mem v)\<rparr>)
      else E (Undefined_behaviour ''read past the buffer''))"
  by (simp add: IP_resize_payload_def wp_simps Let_def Eth_resize_payload_def)

lemma tcp_off_size [simp]: "tcp_off (v\<lparr>v_size := n\<rparr>) = tcp_off v"
  by (simp add: tcp_off_def)

lemma tcp_hdr_size [simp]: "tcp_hdr (v\<lparr>v_size := n\<rparr>) = tcp_hdr v"
  by (simp add: tcp_hdr_def)

lemma v_mem_update_id [simp]: "v\<lparr>v_mem := v_mem v\<rparr> = v"
  by simp

text \<open>A write behind the IP header leaves both lower headers as they were.\<close>

lemma ip_hdr_poke_after [simp]:
  "34 \<le> off \<Longrightarrow> off + length bs \<le> length m \<Longrightarrow> ip_hdr (v\<lparr>v_mem := poke off bs m\<rparr>) = ip_hdr (v\<lparr>v_mem := m\<rparr>)"
  by (simp add: ip_hdr_def chunk_poke_before)

lemma eth_hdr_poke_after [simp]:
  "14 \<le> off \<Longrightarrow> off + length bs \<le> length m \<Longrightarrow> eth_hdr (v\<lparr>v_mem := poke off bs m\<rparr>) = eth_hdr (v\<lparr>v_mem := m\<rparr>)"
  by (simp add: eth_hdr_def chunk_poke_before)

lemma tcp_off_poke_after [simp]:
  "34 \<le> off \<Longrightarrow> off + length bs \<le> length m \<Longrightarrow> tcp_off (v\<lparr>v_mem := poke off bs m\<rparr>) = tcp_off (v\<lparr>v_mem := m\<rparr>)"
  by (simp add: tcp_off_def)

lemma tcp_hdr_stored [simp]:
  "off = tcp_off (v\<lparr>v_mem := m\<rparr>) \<Longrightarrow> 34 \<le> off \<Longrightarrow> off + 20 \<le> length m \<Longrightarrow>
     tcp_hdr (v\<lparr>v_mem := poke off (enc_tcp h) m\<rparr>) = h"
  by (simp add: tcp_hdr_def tcp_mem.dec_enc)

lemma tcp_hdr_poke_after [simp]:
  "34 \<le> tcp_off (v\<lparr>v_mem := m\<rparr>) \<Longrightarrow> tcp_off (v\<lparr>v_mem := m\<rparr>) + 20 \<le> off \<Longrightarrow> off + length bs \<le> length m \<Longrightarrow>
     tcp_hdr (v\<lparr>v_mem := poke off bs m\<rparr>) = tcp_hdr (v\<lparr>v_mem := m\<rparr>)"
  by (simp add: tcp_hdr_def chunk_poke_before)

text \<open>A new IP header of the same size leaves the TCP header as it was.\<close>

lemma tcp_off_ip_stored [simp]:
  "34 \<le> length m \<Longrightarrow> tcp_off (v\<lparr>v_mem := poke 14 (enc_ip h) m\<rparr>) = 14 + IpHeader_size h"
  by (simp add: tcp_off_def)

lemma tcp_hdr_ip_stored [simp]:
  "34 \<le> length m \<Longrightarrow> 20 \<le> IpHeader_size h \<Longrightarrow> IpHeader_size h = IpHeader_size (ip_hdr (v\<lparr>v_mem := m\<rparr>)) \<Longrightarrow>
     tcp_hdr (v\<lparr>v_mem := poke 14 (enc_ip h) m\<rparr>) = tcp_hdr (v\<lparr>v_mem := m\<rparr>)"
  by (simp add: tcp_hdr_def tcp_off_def chunk_poke_after)

lemma tcp_off_res_of [simp]:
  "drop_bit 4 (tcp_off_res_of 5 0) = 5" "unat (drop_bit 4 (tcp_off_res_of 8 0)) = 8"
  by (simp_all add: tcp_off_res_of_def)


section \<open>Building a frame\<close>

lemma tcp_frame_size [simp]: "tcp_frame c f q a opt (v\<lparr>v_size := n\<rparr>) = tcp_frame c f q a opt v"
  by (simp add: tcp_frame_def)

lemma tcp_frame_off: "tcp_frame c f q a opt v \<Longrightarrow> tcp_off v = 34"
  by (simp add: tcp_frame_def tcp_off_def)

lemma tcp_frame_length: "tcp_frame c f q a opt v \<Longrightarrow> 34 + tcp_header_length opt \<le> length (v_mem v)"
  by (auto simp: tcp_frame_def tcp_header_length_def split: if_splits)

lemma tcp_frame_length_54: "tcp_frame c f q a opt v \<Longrightarrow> 54 \<le> length (v_mem v)"
  by (auto simp: tcp_frame_def split: if_splits)

lemma wp_Tcp_init:
  assumes "34 + tcp_header_length options \<le> v_size v" and "34 + tcp_header_length options \<le> length (v_mem v)" and "v_size v < 65536"
  shows "wp (Tcp_init c flags seq ack_seq options v) (\<lambda>v' s'. s' = s \<and> v_size v' = v_size v \<and>
      length (v_mem v') = length (v_mem v) \<and>
      drop (34 + tcp_header_length options) (v_mem v') = drop (34 + tcp_header_length options) (v_mem v) \<and>
      tcp_frame c flags seq ack_seq options v' \<and>
      unat (be_value (ip_total_length (ip_hdr v'))) = v_size v - 14 \<and>
      ip_check (ip_hdr v') = BE 0 \<and> tcp_checksum (tcp_hdr v') = BE 0) (\<lambda>_ _. False) s"
proof -
  have l: "54 \<le> length (v_mem v)" "54 \<le> v_size v" using assms by (auto simp: tcp_header_length_def split: if_splits)
  show ?thesis
    using assms l
    by (cases options; simp add: Tcp_init_def wp_result [OF IP_init_run] Let_def wp_simps tcp_header_length_def
        data_offset_scaled_def del: of_nat_diff)
      (simp_all add: tcp_frame_def tcp_header_length_def drop_poke_after tcp_data_offset_def data_offset_scaled_def
        Eth_init_header_def del: of_nat_diff)
qed


section \<open>Checksums\<close>

lemma IpHeader_size_check [simp]: "IpHeader_size (h\<lparr>ip_check := c\<rparr>) = IpHeader_size h"
  "IpHeader_size (h\<lparr>ip_total_length := w\<rparr>) = IpHeader_size h" "IpHeader_size (h\<lparr>ip_id_field := w\<rparr>) = IpHeader_size h"
  by (simp_all add: IpHeader_size_def ip_ihl_def)

lemma tcp_in_boundsD:
  "tcp_in_bounds v \<Longrightarrow> 34 \<le> tcp_off v \<and> tcp_off v + 20 \<le> length (v_mem v) \<and> 34 \<le> length (v_mem v) \<and>
     20 \<le> IpHeader_size (ip_hdr v)"
  by (auto simp: tcp_in_bounds_def tcp_off_def)

lemma with_checksum_simps [simp]:
  assumes "tcp_in_bounds v"
  shows "ip_hdr (with_tcp_checksum c v) = ip_hdr v" "eth_hdr (with_tcp_checksum c v) = eth_hdr v"
    "tcp_hdr (with_tcp_checksum c v) = tcp_hdr v\<lparr>tcp_checksum := c\<rparr>"
    "tcp_off (with_tcp_checksum c v) = tcp_off v" "v_size (with_tcp_checksum c v) = v_size v"
    "ip_hdr (with_ip_check c v) = ip_hdr v\<lparr>ip_check := c\<rparr>" "eth_hdr (with_ip_check c v) = eth_hdr v"
    "tcp_hdr (with_ip_check c v) = tcp_hdr v" "tcp_off (with_ip_check c v) = tcp_off v"
    "v_size (with_ip_check c v) = v_size v"
    "length (v_mem (with_tcp_checksum c v)) = length (v_mem v)" "length (v_mem (with_ip_check c v)) = length (v_mem v)"
  using tcp_in_boundsD [OF assms] by (simp_all add: with_tcp_checksum_def with_ip_check_def) (simp add: tcp_off_def)

lemma with_checksum_in_bounds [simp]:
  "tcp_in_bounds v \<Longrightarrow> tcp_in_bounds (with_tcp_checksum c v)" "tcp_in_bounds v \<Longrightarrow> tcp_in_bounds (with_ip_check c v)"
  by (simp_all add: tcp_in_bounds_def [of "with_tcp_checksum c v"] tcp_in_bounds_def [of "with_ip_check c v"])
     (simp_all add: tcp_in_bounds_def)

lemma with_tcp_checksum_twice [simp]:
  "tcp_in_bounds v \<Longrightarrow> with_tcp_checksum c (with_tcp_checksum d v) = with_tcp_checksum c v"
  using tcp_in_boundsD [of v] by (simp add: with_tcp_checksum_def [of c]) (simp add: with_tcp_checksum_def)

lemma with_ip_check_twice [simp]:
  "tcp_in_bounds v \<Longrightarrow> with_ip_check c (with_ip_check d v) = with_ip_check c v"
  using tcp_in_boundsD [of v] by (simp add: with_ip_check_def [of c]) (simp add: with_ip_check_def)

lemma with_checksums_commute:
  assumes "tcp_in_bounds v"
  shows "with_tcp_checksum c (with_ip_check d v) = with_ip_check d (with_tcp_checksum c v)"
proof -
  note b = tcp_in_boundsD [OF assms]
  have "with_tcp_checksum c (with_ip_check d v) =
      v\<lparr>v_mem := poke (tcp_off v) (enc_tcp (tcp_hdr v\<lparr>tcp_checksum := c\<rparr>)) (poke 14 (enc_ip (ip_hdr v\<lparr>ip_check := d\<rparr>)) (v_mem v))\<rparr>"
    using assms by (simp add: with_tcp_checksum_def) (simp add: with_ip_check_def)
  also have "\<dots> = with_ip_check d (with_tcp_checksum c v)"
    using assms b by (simp add: with_ip_check_def poke_commute [symmetric]) (simp add: with_tcp_checksum_def poke_commute)
  finally show ?thesis .
qed

lemma with_tcp_checksum_id:
  "tcp_in_bounds v \<Longrightarrow> tcp_checksum (tcp_hdr v) = c \<Longrightarrow> with_tcp_checksum c v = v"
  using tcp_in_boundsD [of v] tcp_mem.write_back [of "tcp_off v" "v_mem v"]
  by (auto simp: with_tcp_checksum_def tcp_hdr_def)

lemma with_ip_check_id:
  "tcp_in_bounds v \<Longrightarrow> ip_check (ip_hdr v) = c \<Longrightarrow> with_ip_check c v = v"
  using tcp_in_boundsD [of v] ip_hdr_mem.write_back [of 14 "v_mem v"]
  by (auto simp: with_ip_check_def ip_hdr_def)

lemma drop_with_checksums [simp]:
  assumes "tcp_in_bounds v" and "tcp_off v + 20 \<le> n"
  shows "drop n (v_mem (with_tcp_checksum c v)) = drop n (v_mem v)" "drop n (v_mem (with_ip_check c v)) = drop n (v_mem v)"
  using assms tcp_in_boundsD [OF assms(1)]
  by (simp_all add: with_tcp_checksum_def with_ip_check_def drop_poke_after)

lemma checksums_ok_sealed:
  assumes "tcp_in_bounds v" and "tcp_checksum (tcp_hdr v) = BE 0" and "ip_check (ip_hdr v) = BE 0"
    and "w = with_tcp_checksum (from_big_endian (ck (drop 14 (v_mem v)) (drop (tcp_off v) (v_mem v)))) v"
  shows "checksums_ok ck4 ck (with_ip_check (from_big_endian (ck4 (drop 14 (v_mem w)))) w)"
proof -
  have "with_ip_check (BE 0) w = w" using assms by (simp add: with_ip_check_id)
  moreover have "with_ip_check (BE 0) (with_tcp_checksum (BE 0) (with_ip_check d w)) = v" for d
    using assms by (simp add: with_checksums_commute with_tcp_checksum_id with_ip_check_id)
  ultimately show ?thesis
    using assms(1) by (simp add: checksums_ok_def assms(4))
qed

lemma wp_Tcp_update_checksum [wp_simps]:
  assumes "tcp_in_bounds v"
  shows "wp (Tcp_update_checksum ck v) Q E =
    Q (with_tcp_checksum (from_big_endian (ck (drop 14 (v_mem v)) (drop (tcp_off v) (v_mem v)))) v)"
  using tcp_in_boundsD [OF assms]
  by (simp add: Tcp_update_checksum_def Tcp_calc_checksum_def wp_simps with_tcp_checksum_def)

lemma wp_IP_update_checksum [wp_simps]:
  assumes "tcp_in_bounds v"
  shows "wp (IP_update_checksum ck4 v) Q E =
    Q (with_ip_check (from_big_endian (ck4 (drop 14 (v_mem v)))) v)"
  using tcp_in_boundsD [OF assms]
  by (simp add: IP_update_checksum_def wp_simps with_ip_check_def)

lemma tcp_frame_in_bounds: "tcp_frame c f q a opt v \<Longrightarrow> tcp_in_bounds v"
  by (auto simp: tcp_frame_def tcp_in_bounds_def tcp_off_def split: if_splits)

lemma tcp_frame_with_tcp_checksum:
  assumes "tcp_frame c f q a opt v"
  shows "tcp_frame c f q a opt (with_tcp_checksum x v)"
proof -
  note b = tcp_frame_in_bounds [OF assms]
  have "chunk 54 12 (v_mem (with_tcp_checksum x v)) = chunk 54 12 (v_mem v)"
    using b tcp_frame_off [OF assms] by (simp add: chunk_def)
  then show ?thesis
    using assms b by (simp add: tcp_frame_def tcp_data_offset_def data_offset_scaled_def)
qed

lemma ip_version_update [simp]:
  "ip_version (h\<lparr>ip_check := c\<rparr>) = ip_version h" "ip_version (h\<lparr>ip_total_length := w\<rparr>) = ip_version h"
  "ip_version (h\<lparr>ip_id_field := w\<rparr>) = ip_version h"
  by (simp_all add: ip_version_def)

lemma tcp_frame_ip_stored:
  assumes "tcp_frame c f q a opt v" and "IpHeader_size h = 20" "ip_version h = 4"
    "ip_protocol h = IpProtocol_Tcp" "ip_src_addr h = ip_src_addr (ip_hdr v)" "ip_dst_addr h = ip_dst_addr (ip_hdr v)"
  shows "tcp_frame c f q a opt (v\<lparr>v_mem := poke 14 (enc_ip h) (v_mem v)\<rparr>)"
proof -
  note l = tcp_frame_length_54 [OF assms(1)]
  have "chunk 54 12 (poke 14 (enc_ip h) (v_mem v)) = chunk 54 12 (v_mem v)"
    using l by (simp add: chunk_poke_after)
  then show ?thesis using assms l by (auto simp: tcp_frame_def)
qed

lemma tcp_frame_with_ip_check:
  assumes "tcp_frame c f q a opt v"
  shows "tcp_frame c f q a opt (with_ip_check x v)"
  unfolding with_ip_check_def using assms by (intro tcp_frame_ip_stored) (auto simp: tcp_frame_def)

lemma v_size_v_mem_swap: "v\<lparr>v_size := n, v_mem := m\<rparr> = v\<lparr>v_mem := m, v_size := n\<rparr>"
  by simp

lemma wp_Tcp_resize_payload:
  assumes "tcp_frame c f q a opt v" and "20 + tcp_header_length opt + n < 65536"
  shows "wp (Tcp_resize_payload n v) Q E s =
     Q (v\<lparr>v_mem := poke 14 (enc_ip (ip_hdr v\<lparr>ip_total_length := BE (of_nat (20 + tcp_header_length opt + n))\<rparr>)) (v_mem v),
          v_size := 34 + tcp_header_length opt + n\<rparr>) s"
  using assms tcp_frame_length_54 [OF assms(1)] tcp_frame_off [OF assms(1)]
  by (simp add: Tcp_resize_payload_def wp_simps Let_def Eth_resize_payload_def tcp_frame_def add.assoc v_size_v_mem_swap del: of_nat_add)

text \<open>
  The end of a send: the payload is resized and both checksums are computed. The frame keeps its
  headers and payload bytes, its lengths agree with the payload, and its checksums are correct.
\<close>

lemma wp_Tcp_seal:
  assumes "tcp_frame c f q a opt v" and "20 + tcp_header_length opt + n < 65536"
    and "tcp_checksum (tcp_hdr v) = BE 0" and "ip_check (ip_hdr v) = BE 0"
  shows "wp (bindM (Tcp_resize_payload n v) (\<lambda>v1. bindM (Tcp_update_checksum ck v1) (\<lambda>v2. IP_update_checksum ck4 v2)))
     (\<lambda>v' s'. s' = s \<and> tcp_frame c f q a opt v' \<and> v_size v' = 34 + tcp_header_length opt + n \<and>
       unat (be_value (ip_total_length (ip_hdr v'))) = 20 + tcp_header_length opt + n \<and>
       ip_id_field (ip_hdr v') = ip_id_field (ip_hdr v) \<and> length (v_mem v') = length (v_mem v) \<and>
       drop 54 (v_mem v') = drop 54 (v_mem v) \<and> checksums_ok ck4 ck v') E s"
proof -
  define v1 where "v1 = v\<lparr>v_mem := poke 14 (enc_ip (ip_hdr v\<lparr>ip_total_length :=
      BE (of_nat (20 + tcp_header_length opt + n))\<rparr>)) (v_mem v), v_size := 34 + tcp_header_length opt + n\<rparr>"
  note l = tcp_frame_length_54 [OF assms(1)]
  have f: "tcp_frame c f q a opt v1" unfolding v1_def tcp_frame_size
    using assms(1) by (intro tcp_frame_ip_stored) (auto simp: tcp_frame_def)
  note b = tcp_frame_in_bounds [OF f]
  let ?v2 = "with_tcp_checksum (from_big_endian (ck (drop 14 (v_mem v1)) (drop (tcp_off v1) (v_mem v1)))) v1"
  let ?v3 = "with_ip_check (from_big_endian (ck4 (drop 14 (v_mem ?v2)))) ?v2"
  have h: "ip_hdr v1 = ip_hdr v\<lparr>ip_total_length := BE (of_nat (20 + tcp_header_length opt + n))\<rparr>"
    "tcp_hdr v1 = tcp_hdr v" "v_size v1 = 34 + tcp_header_length opt + n" "length (v_mem v1) = length (v_mem v)"
    "drop 54 (v_mem v1) = drop 54 (v_mem v)"
    using l assms(1) by (simp_all add: v1_def tcp_frame_def drop_poke_after del: of_nat_add)
  have "checksums_ok ck4 ck ?v3"
    using assms(3,4) by (intro checksums_ok_sealed [OF b _ _ refl]) (simp_all add: h)
  moreover have "tcp_frame c f q a opt ?v3" using f by (intro tcp_frame_with_ip_check tcp_frame_with_tcp_checksum)
  moreover have "wp (Tcp_resize_payload n v) Q E s = Q v1 s" for Q
    unfolding v1_def by (rule wp_Tcp_resize_payload [OF assms(1,2)])
  ultimately show ?thesis
    using assms(2) b tcp_frame_off [OF f] by (simp add: wp_simps h del: of_nat_add)
qed


section \<open>The option parser\<close>

lemmas option_bytes = kTerminationByte_def kNoOperationByte_def kWindowScaleOptionHeader_def

lemma parse_options_loop_end:
  "len \<le> offset \<Longrightarrow> parse_options_loop data len offset ws = Inr ws"
  by (subst parse_options_loop.simps) simp

lemma parse_options_loop_term:
  "offset < length data \<Longrightarrow> data ! offset = 0 \<Longrightarrow> parse_options_loop data len offset ws = Inr ws"
  by (subst parse_options_loop.simps) (simp add: option_bytes)

lemma announced_scale_Tlv:
  "announced_scale (Tlv_option kind d) ws = (if kind = 3 \<and> length d = 1 then Some (hd d) else ws)"
  by (cases "(Tlv_option kind d, ws)" rule: announced_scale.cases) auto

lemma parse_options_loop_option:
  assumes "data = pre @ enc_tcp_option opt @ post" and "wf_tcp_option opt"
    and "length pre + length (enc_tcp_option opt) \<le> len"
  shows "parse_options_loop data len (length pre) ws =
     parse_options_loop data len (length pre + length (enc_tcp_option opt)) (announced_scale opt ws)"
proof (cases opt)
  case No_operation
  then show ?thesis
    using assms by (subst parse_options_loop.simps) (simp add: option_bytes nth_append)
next
  case (Tlv_option kind d)
  have l: "unat (of_nat (length d + 2) :: byte) = length d + 2"
    using assms(2) Tlv_option by (intro unat_of_nat_byte) simp
  have r: "data ! length pre = kind" "data ! Suc (length pre) = of_nat (length d + 2)"
    "length pre + length d + 2 \<le> length data" "d \<noteq> [] \<longrightarrow> data ! Suc (Suc (length pre)) = hd d"
    using assms(1) Tlv_option by (auto simp: nth_append hd_conv_nth)
  have "length pre + (length d + 2) \<le> len" using assms(3) Tlv_option by simp
  then show ?thesis
    using assms(2) r unfolding Tlv_option announced_scale_Tlv
    by (subst parse_options_loop.simps) (auto simp: option_bytes l simp del: of_nat_add of_nat_Suc)
qed

lemma parse_options_loop_encoded:
  assumes "data = pre @ concat (map enc_tcp_option opts) @ post" and "list_all wf_tcp_option opts"
    and "len = length pre + length (concat (map enc_tcp_option opts)) \<or>
      (length pre + length (concat (map enc_tcp_option opts)) < len \<and> post \<noteq> [] \<and> hd post = 0)"
  shows "parse_options_loop data len (length pre) ws = Inr (fold announced_scale opts ws)"
  using assms
proof (induction opts arbitrary: pre ws)
  case Nil
  then show ?case
    by (cases post) (auto simp: parse_options_loop_end parse_options_loop_term nth_append)
next
  case (Cons opt opts)
  have "parse_options_loop data len (length pre) ws =
      parse_options_loop data len (length (pre @ enc_tcp_option opt)) (announced_scale opt ws)"
    using Cons.prems by (subst parse_options_loop_option [where opt = opt and post = "concat (map enc_tcp_option opts) @ post"]) auto
  also have "\<dots> = Inr (fold announced_scale opts (announced_scale opt ws))"
    using Cons.prems by (intro Cons.IH) auto
  finally show ?case by simp
qed

lemma tcp_data_offset_le: "tcp_data_offset h \<le> 60"
proof -
  have "unat (drop_bit 4 (tcp_off_res h)) = unat (tcp_off_res h) div 16" 
    by (subst unat_drop_bit_eq) (simp add: drop_bit_eq_div)
  then show ?thesis
    using unsigned_less [of "tcp_off_res h", where 'a = nat] by (simp add: tcp_data_offset_def data_offset_scaled_def)
qed

lemma parse_options_loop_safe:
  assumes "len \<le> length data"
  shows "case parse_options_loop data len offset ws of Inl e \<Rightarrow> \<exists>m. e = Runtime_error m | Inr _ \<Rightarrow> True"
  using assms
proof (induction data len offset ws rule: parse_options_loop.induct)
  case (1 data len offset ws)
  show ?case
    using 1 by (subst parse_options_loop.simps) (auto simp: Let_def)
qed


lemma be_mem_1460: "be_mem (BE (1460 :: u16)) = [0x05, 0xB4]"
  by (simp add: be_mem_network_order be_bytes_def codec_simps)

lemma kDefaultOptionsBlock_bytes:
  "enc_options_block kDefaultOptionsBlock =
     concat (map enc_tcp_option [Tlv_option 2 [0x05, 0xB4], Tlv_option 4 [], Tlv_option 3 [0]]) @ [0, 0, 0]"
  by (simp add: enc_options_block_def kDefaultOptionsBlock_def enc_option_header_def kMssOptionHeader_def
      kSackPermittedOptionHeader_def kWindowScaleOptionHeader_def kTerminationByte_def be_mem_1460)

section \<open>Order of sequence numbers\<close>

lemma SeqNumber_eq_iff [simp]: "SeqNumber_eq a b \<longleftrightarrow> a = b"
  by (cases a; cases b) (simp add: SeqNumber_eq_def)

lemma sint_neg_iff: "sint (w :: u32) < 0 \<longleftrightarrow> 0x80000000 \<le> w"
proof -
  have b: "unat w < 2 ^ 32" using unsigned_less [of w, where 'a = nat] by simp
  have "sint w < 0 \<longleftrightarrow> bit w 31" using bit_last_iff [of w] by simp
  also have "\<dots> \<longleftrightarrow> bit (unat w) 31" by (simp add: bit_unsigned_iff)
  also have "\<dots> \<longleftrightarrow> odd (unat w div 2 ^ 31)" by (simp only: bit_iff_odd)
  also have "\<dots> \<longleftrightarrow> 2 ^ 31 \<le> unat w"
  proof (cases "2 ^ 31 \<le> unat w")
    case True
    then have "unat w div 2 ^ 31 = 1" using b by (intro div_nat_eqI) auto
    then show ?thesis using True by simp
  qed simp
  finally show ?thesis by (simp add: word_le_nat_alt)
qed


section \<open>Properties\<close>

text \<open>
  C23: sequence numbers compare around the wrap: a number advanced by less than half the sequence space
  is greater, the number it started from is smaller, and their difference is the advance.
\<close>

theorem SeqNumber_order_window:
  assumes "0 < d" and "d < 0x80000000"
  shows "SeqNumber_less a (SeqNumber_add a d) \<and> \<not> SeqNumber_le (SeqNumber_add a d) a \<and>
    SeqNumber_minus (SeqNumber_add a d) a = d"
proof -
  have n: "0 < unat d" "unat d < 2 ^ 31" using assms by (simp_all add: word_less_nat_alt unat_gt_0)
  have "- d = of_nat (2 ^ 32 - unat d)" using n by (simp add: of_nat_diff)
  then have "0x80000000 \<le> - d"
    using n by (simp add: word_le_nat_alt unat_of_nat take_bit_eq_mod del: of_nat_diff)
  then show ?thesis
    using assms by (auto simp: SeqNumber_less_def SeqNumber_le_def SeqNumber_compare_def SeqNumber_add_def
        SeqNumber_minus_def sint_neg_iff not_le)
qed

theorem SeqNumber_order_window_witness:
  "SeqNumber_less (SeqNumber 0xFFFFFFF0) (SeqNumber_add (SeqNumber 0xFFFFFFF0) 0x20)"
  using SeqNumber_order_window [of "0x20" "SeqNumber 0xFFFFFFF0"] by simp

text \<open>
  At a distance of exactly half the sequence space \<^verbatim>\<open>operator<=>\<close> answers \<^verbatim>\<open>less\<close> in both
  directions, which no \<^verbatim>\<open>std::strong_ordering\<close> allows.
\<close>

lemma SeqNumber_midpoint_not_ordered:
  "SeqNumber_less a (SeqNumber_add a 0x80000000) \<and> SeqNumber_less (SeqNumber_add a 0x80000000) a"
  by (simp add: SeqNumber_less_def SeqNumber_compare_def SeqNumber_add_def sint_neg_iff)


text \<open>
  \<^verbatim>\<open>PacketView::init\<close> on a large enough buffer (below 64 KiB) succeeds and builds the frame of the
  connection: addresses, ports, flags and sequence numbers read back, the default options block
  follows the header when it is asked for, both checksums are zero, and the payload area is untouched.
\<close>

lemma Tcp_init_frame:
  assumes "34 + tcp_header_length options \<le> v_size v" and "34 + tcp_header_length options \<le> length (v_mem v)" and "v_size v < 65536"
  shows "wp (Tcp_init c flags seq ack_seq options v) (\<lambda>v' s'. s' = s \<and> v_size v' = v_size v \<and>
      tcp_frame c flags seq ack_seq options v' \<and>
      drop (34 + tcp_header_length options) (v_mem v') = drop (34 + tcp_header_length options) (v_mem v) \<and>
      ip_check (ip_hdr v') = BE 0 \<and> tcp_checksum (tcp_hdr v') = BE 0) (\<lambda>_ _. False) s"
  by (rule wp_mono [OF wp_Tcp_init [OF assms]]) auto

lemma Tcp_init_frame_witness:
  "wp (Tcp_init demo_connection Flags_SYN (SeqNumber 7) (SeqNumber 0) True \<lparr>v_mem = replicate 128 0, v_size = 128\<rparr>)
     (\<lambda>v' s'. tcp_frame demo_connection Flags_SYN (SeqNumber 7) (SeqNumber 0) True v') (\<lambda>_ _. False) ()"
  by (rule wp_mono [OF Tcp_init_frame]) (auto simp: tcp_header_length_def)

text \<open>
  After \<^verbatim>\<open>resize_payload(n)\<close> on a frame, \<^verbatim>\<open>payload()\<close> is the area of exactly \<open>n\<close> bytes behind the
  headers, whatever the size was before.
\<close>

lemma Tcp_payload_after_resize:
  assumes "tcp_frame c f q a opt v" and "20 + tcp_header_length opt + n < 65536"
  shows "wp (bindM (Tcp_resize_payload n v) Tcp_payload)
     (\<lambda>p s'. s' = s \<and> v_size p = n \<and> v_mem p = drop (34 + tcp_header_length opt) (v_mem v)) E s"
proof -
  have hl: "tcp_header_length opt \<le> 32" "20 \<le> tcp_header_length opt" by (simp_all add: tcp_header_length_def)
  show ?thesis
    unfolding wp_bindM wp_Tcp_resize_payload [OF assms]
    using assms tcp_frame_length_54 [OF assms(1)] tcp_frame_off [OF assms(1)] hl
    by (simp add: wp_simps Tcp_payload_def tcp_frame_def drop_poke_after add.commute [of _ 34] del: of_nat_add)
qed

lemma Tcp_payload_after_resize_witness:
  "wp (bindM (Tcp_init demo_connection Flags_ACK (SeqNumber 7) (SeqNumber 9) False \<lparr>v_mem = replicate 128 3, v_size = 128\<rparr>)
       (\<lambda>v. bindM (Tcp_resize_payload 5 v) Tcp_payload))
     (\<lambda>p s'. v_size p = 5 \<and> v_mem p = replicate 74 3) (\<lambda>_ _. False) ()"
proof -
  let ?v = "\<lparr>v_mem = replicate 128 (3 :: byte), v_size = 128\<rparr>"
  have i: "wp (Tcp_init demo_connection Flags_ACK (SeqNumber 7) (SeqNumber 9) False ?v)
     (\<lambda>v s'. tcp_frame demo_connection Flags_ACK (SeqNumber 7) (SeqNumber 9) False v \<and> drop 54 (v_mem v) = replicate 74 3)
     (\<lambda>_ _. False) ()"
    by (rule wp_mono [OF wp_Tcp_init]) (auto simp: tcp_header_length_def)
  show ?thesis
    unfolding wp_bindM [of "Tcp_init _ _ _ _ _ _"]
    by (rule wp_mono [OF i], rule wp_mono [OF Tcp_payload_after_resize]) (auto simp: tcp_header_length_def)
qed

text \<open>
  C21: the option parser reads every well-formed option list, closed by the end of the options or by the
  termination byte, and returns the window scale the last window scale option announced.
\<close>

theorem parse_options_of_encoded:
  assumes "list_all wf_tcp_option opts"
    and "post = [] \<and> n = 0 \<or> (\<exists>pad. post = 0 # pad \<and> 0 < n)"
  shows "parse_options_loop (concat (map enc_tcp_option opts) @ post @ rest)
       (length (concat (map enc_tcp_option opts)) + n) 0 None = Inr (fold announced_scale opts None)"
  using assms by (intro parse_options_loop_encoded [where pre = "[]", simplified]) auto

theorem parse_options_of_encoded_witness:
  "parse_options_loop (enc_options_block kDefaultOptionsBlock) 12 0 None = Inr (Some 0)"
  using parse_options_of_encoded [of "[Tlv_option 2 [0x05, 0xB4], Tlv_option 4 [], Tlv_option 3 [0]]" "[0, 0, 0]" 3 "[]"]
  by (simp add: kDefaultOptionsBlock_bytes)

text \<open>
  C22: \<^verbatim>\<open>parse_options()\<close> on a packet whose data offset covers the header and lies inside the packet memory
  returns or fails a \<^verbatim>\<open>REQUIRE\<close>; it never reads outside the packet, whatever the option bytes are.
\<close>

theorem Tcp_parse_options_memory_safe:
  assumes "34 \<le> tcp_off v" and "20 \<le> tcp_data_offset (tcp_hdr v)"
    and "tcp_off v + tcp_data_offset (tcp_hdr v) \<le> length (v_mem v)"
  shows "wp (Tcp_parse_options v) (\<lambda>_ s'. s' = s) (\<lambda>e s'. s' = s \<and> (\<exists>m. e = Runtime_error m)) s"
proof -
  let ?d = "drop 20 (drop (tcp_off v) (v_mem v))" and ?n = "tcp_data_offset (tcp_hdr v) - 20"
  have "tcp_data_offset (tcp_hdr v) < 2 ^ 64" using tcp_data_offset_le [of "tcp_hdr v"] by simp
  moreover have "case parse_options_loop ?d ?n 0 None of Inl e \<Rightarrow> \<exists>m. e = Runtime_error m | Inr _ \<Rightarrow> True"
    using assms by (intro parse_options_loop_safe) simp
  ultimately show ?thesis
    using assms by (auto simp: Tcp_parse_options_def wp_simps add.commute split: sum.splits)
qed

theorem Tcp_parse_options_memory_safe_witness:
  "wp (Tcp_parse_options \<lparr>v_mem = replicate 14 0 @ 0x45 # replicate 31 0 @ 0x60 # replicate 40 9, v_size = 80\<rparr>)
     (\<lambda>_ _. True) (\<lambda>e _. \<exists>m. e = Runtime_error m) ()"
proof -
  let ?v = "\<lparr>v_mem = replicate 14 0 @ 0x45 # replicate 31 0 @ 0x60 # replicate 40 (9 :: byte), v_size = 80\<rparr>"
  have "chunk 14 20 (v_mem ?v) = 0x45 # replicate 19 0" by (simp add: chunk_def numeral_eq_Suc)
  then have o: "tcp_off ?v = 34" by (simp add: tcp_off_def ip_hdr_def dec_ip_def IpHeader_size_def ip_ihl_def)
  have "chunk 34 20 (v_mem ?v) ! 12 = 0x60" by (simp add: chunk_def numeral_eq_Suc)
  then have d: "tcp_data_offset (tcp_hdr ?v) = 24"
    by (simp add: tcp_hdr_def o dec_tcp_def tcp_data_offset_def data_offset_scaled_def)
  show ?thesis
    by (rule wp_mono [OF Tcp_parse_options_memory_safe]) (auto simp: o d)
qed

end
