(* ===== verification/Device.thy ===== *)
theory Device
  imports Eth_Ip
begin

text \<open>
  The DPDK device of src/src/network/dpdk: packets (packet.h), the device with its receive burst and
  its send queue (device.h, device.cpp), and the sender handle (sender.cpp). The DPDK library itself is
  the argument \<open>api\<close>, a record of the functions the code calls; the state behind them (the network card
  and the buffer pool) is the field \<open>world\<close> of the device state. \<open>dpdk_ok\<close> names what the code relies on
  of them. An \<^verbatim>\<open>rte_mbuf*\<close> is the value of the buffer it points to, with \<open>m_data\<close> the memory from
  \<^verbatim>\<open>rte_pktmbuf_mtod\<close> to the end of the buffer; a view into a buffer that the code fills before it hands
  the buffer on is stored back when it does.
\<close>

section \<open>Buffers and the library\<close>

record mbuf =
  m_data :: bytes
  m_data_len :: u16
  m_pkt_len :: u32
  m_l2_len :: nat
  m_l3_len :: nat
  m_l4_len :: nat
  m_ol_flags :: u64

record dev_stats =
  ipackets :: u64
  opackets :: u64
  ibytes :: u64
  obytes :: u64
  imissed :: u64
  ierrors :: u64
  oerrors :: u64
  rx_nombuf :: u64
  q_ipackets :: u64
  q_opackets :: u64
  q_ibytes :: u64
  q_obytes :: u64
  q_errors :: u64

record 'w dpdk_api =
  rte_eth_rx_burst :: "u16 \<Rightarrow> u16 \<Rightarrow> nat \<Rightarrow> 'w \<Rightarrow> mbuf list \<times> 'w"
  rte_eth_tx_burst :: "u16 \<Rightarrow> u16 \<Rightarrow> mbuf list \<Rightarrow> 'w \<Rightarrow> nat \<times> 'w"
  rte_pktmbuf_alloc :: "'w \<Rightarrow> mbuf option \<times> 'w"
  rte_pktmbuf_free :: "mbuf \<Rightarrow> 'w \<Rightarrow> 'w"
  rte_pktmbuf_reset :: "mbuf \<Rightarrow> mbuf"
  rte_pktmbuf_append :: "nat \<Rightarrow> mbuf \<Rightarrow> mbuf option"
  rte_pktmbuf_data_room_size :: nat
  RTE_MBUF_F_TX_flags :: u64
  rte_mempool_lookup :: "string \<Rightarrow> bool"
  rte_eth_dev_get_mtu :: "u16 \<Rightarrow> u16 option"
  rte_eth_macaddr_get :: "u16 \<Rightarrow> mac"
  rte_eth_stats_get :: "u16 \<Rightarrow> 'w \<Rightarrow> dev_stats option"
  rte_ipv4_cksum :: "bytes \<Rightarrow> u16"
  rte_ipv4_udptcp_cksum :: "bytes \<Rightarrow> bytes \<Rightarrow> u16"
  SyncRdtscClock_now :: "'w \<Rightarrow> int \<times> 'w"

section \<open>Device\<close>

record 'w device =
  pci_addr :: string
  dev_interface_name :: string
  dev_port_id :: u16
  dev_queue_id :: u16
  max_tx_packet_size :: u16
  send_mbufs :: "mbuf list"
  receive_mbufs :: "mbuf list"
  current_recieve_mbuf_idx :: nat
  last_receive_time_point :: int
  world :: 'w

definition kReceiveBurstSize :: nat where "kReceiveBurstSize = 32"
definition kSendBurstSize :: nat where "kSendBurstSize = 32"

text \<open>A call of the library that changes the card or the pool.\<close>

definition world_call :: "('w \<Rightarrow> 'a \<times> 'w) \<Rightarrow> (('w, 'z) device_scheme, 'a) prog" where
  "world_call f = (\<lambda>s. case f (world s) of (a, w) \<Rightarrow> (Inr a, s\<lparr>world := w\<rparr>))"

definition free_mbuf :: "'w dpdk_api \<Rightarrow> mbuf \<Rightarrow> (('w, 'z) device_scheme, unit) prog" where
  "free_mbuf api m = world_call (\<lambda>w. ((), rte_pktmbuf_free api m w))"

text \<open>A scope that owns a packet: its destructor frees the buffer, also when the scope is left by an exception.\<close>

definition owning :: "'w dpdk_api \<Rightarrow> mbuf \<Rightarrow> (('w, 'z) device_scheme, 'a) prog \<Rightarrow> (('w, 'z) device_scheme, 'a) prog" where
  "owning api m body = (\<lambda>s. case body s of (r, t) \<Rightarrow> (r, t\<lparr>world := rte_pktmbuf_free api m (world t)\<rparr>))"

definition format_pool_name :: "u16 \<Rightarrow> string" where
  "format_pool_name port_id = ''pool_'' @
     (let n = unat port_id; d = (\<lambda>k. char_of (48 + (n div k) mod 10 :: nat))
      in map d (filter (\<lambda>k. k \<le> n \<or> k = 1) [10000, 1000, 100, 10, 1]))"

definition Device_new :: "'w dpdk_api \<Rightarrow> string \<Rightarrow> u16 \<Rightarrow> string \<Rightarrow> u16 \<Rightarrow> 'w \<Rightarrow> error + 'w device" where
  "Device_new api pci port_id interface_name queue_id w =
     (if \<not> rte_mempool_lookup api (format_pool_name port_id) then Inl (Runtime_error ''Failed to lookup mbuf_pool'')
      else case rte_eth_dev_get_mtu api port_id of
        None \<Rightarrow> Inl (Runtime_error ''Failed to get max_tx_packet_size'')
      | Some mtu \<Rightarrow> Inr \<lparr>pci_addr = pci, dev_interface_name = interface_name, dev_port_id = port_id, dev_queue_id = queue_id,
          max_tx_packet_size = mtu, send_mbufs = [], receive_mbufs = [], current_recieve_mbuf_idx = 0,
          last_receive_time_point = 0, world = w\<rparr>)"

definition Device_receive :: "'w dpdk_api \<Rightarrow> (('w, 'z) device_scheme, mbuf option) prog" where
  "Device_receive api = bindM (gets (\<lambda>s. current_recieve_mbuf_idx s = length (receive_mbufs s))) (\<lambda>drained.
     thenM (if drained
       then bindM (gets (\<lambda>s. (dev_port_id s, dev_queue_id s))) (\<lambda>(port, queue).
         bindM (world_call (rte_eth_rx_burst api port queue kReceiveBurstSize)) (\<lambda>ms.
         thenM (modify (\<lambda>s. s\<lparr>receive_mbufs := ms, current_recieve_mbuf_idx := 0\<rparr>))
         (bindM (world_call (SyncRdtscClock_now api)) (\<lambda>now.
           modify (\<lambda>s. s\<lparr>last_receive_time_point := now\<rparr>)))))
       else ret ())
     (bindM (gets (\<lambda>s. current_recieve_mbuf_idx s < length (receive_mbufs s))) (\<lambda>avail.
       if avail
       then bindM (gets (\<lambda>s. receive_mbufs s ! current_recieve_mbuf_idx s)) (\<lambda>m.
         thenM (modify (\<lambda>s. s\<lparr>current_recieve_mbuf_idx := current_recieve_mbuf_idx s + 1\<rparr>)) (ret (Some m)))
       else ret None)))"

text \<open>The constructor of \<^verbatim>\<open>TxPacket\<close>, on the buffer an allocation returned.\<close>

definition TxPacket_new :: "'w dpdk_api \<Rightarrow> mbuf option \<Rightarrow> ('s, mbuf) prog" where
  "TxPacket_new api tx_packet = (case tx_packet of None \<Rightarrow> throw (Runtime_error ''Nullptr in tx_packet'')
     | Some m \<Rightarrow> let m1 = rte_pktmbuf_reset api m in
         ret (m1\<lparr>m_l2_len := 14, m_l3_len := 20, m_l4_len := 32,
                 m_ol_flags := m_ol_flags m1 OR RTE_MBUF_F_TX_flags api\<rparr>))"

definition TxPacket_view :: "'w dpdk_api \<Rightarrow> mbuf \<Rightarrow> packet_view" where
  "TxPacket_view api m = \<lparr>v_mem = m_data m, v_size = rte_pktmbuf_data_room_size api\<rparr>"

definition RxPacket_bytes :: "mbuf \<Rightarrow> packet_view" where
  "RxPacket_bytes m = \<lparr>v_mem = m_data m, v_size = unat (m_pkt_len m)\<rparr>"

definition Device_get_send_buffer :: "'w dpdk_api \<Rightarrow> (('w, 'z) device_scheme, mbuf) prog" where
  "Device_get_send_buffer api = bindM (world_call (rte_pktmbuf_alloc api)) (TxPacket_new api)"

definition set_lengths :: "nat \<Rightarrow> mbuf \<Rightarrow> mbuf" where
  "set_lengths sz m = m\<lparr>m_data_len := of_nat sz, m_pkt_len := of_nat sz\<rparr>"

definition Device_enqueue_packet :: "'w dpdk_api \<Rightarrow> mbuf \<Rightarrow> nat \<Rightarrow> (('w, 'z) device_scheme, unit) prog" where
  "Device_enqueue_packet api packet sz = bindM (gets (\<lambda>s. (dev_port_id s, dev_queue_id s))) (\<lambda>(port, queue).
     bindM (world_call (rte_eth_tx_burst api port queue [set_lengths sz packet])) (\<lambda>sent.
     require (sent = 1) ''failed to send''))"

definition get_last_receive_time_point :: "(('w, 'z) device_scheme, int) prog" where
  "get_last_receive_time_point = bindM (gets last_receive_time_point) (\<lambda>t.
     thenM (require (t \<noteq> 0) ''get_last_receive_time_point can be only called after a received'') (ret t))"

text \<open>
  \<^verbatim>\<open>flush_send_queue\<close>. The rest moves to the front of the vector and the vector shrinks by what was
  sent; a count above the sz would wrap the new sz around, which \<^verbatim>\<open>resize\<close> refuses.
\<close>

definition Device_flush_send_queue :: "'w dpdk_api \<Rightarrow> (('w, 'z) device_scheme, unit) prog" where
  "Device_flush_send_queue api = bindM (gets send_mbufs) (\<lambda>ms.
     if ms = [] then ret ()
     else bindM (gets (\<lambda>s. (dev_port_id s, dev_queue_id s))) (\<lambda>(port, queue).
       bindM (world_call (rte_eth_tx_burst api port queue ms)) (\<lambda>sent.
       if sent \<le> length ms
       then modify (\<lambda>s. s\<lparr>send_mbufs := take (length ms - sent) (drop sent ms @ drop (length ms - sent) ms)\<rparr>)
       else throw (Invalid_argument ''vector::_M_default_append''))))"

definition flush_if_full :: "'w dpdk_api \<Rightarrow> (('w, 'z) device_scheme, unit) prog" where
  "flush_if_full api = bindM (gets (\<lambda>s. length (send_mbufs s) = kSendBurstSize)) (\<lambda>full.
     if full then Device_flush_send_queue api else ret ())"

definition alloc_mbuf :: "'w dpdk_api \<Rightarrow> (('w, 'z) device_scheme, mbuf) prog" where
  "alloc_mbuf api = bindM (world_call (rte_pktmbuf_alloc api)) (\<lambda>m. case m of
     None \<Rightarrow> throw (Runtime_error ''Failed to allocate mbuf'') | Some m \<Rightarrow> ret m)"

text \<open>
  \<^verbatim>\<open>enqueue_for_send(size)\<close>: the returned span lies in the buffer just queued. When
  \<^verbatim>\<open>rte_pktmbuf_append\<close> has no room it returns a null pointer, which the code does not check; the span
  then has no memory behind it.
\<close>

definition Device_enqueue_size :: "'w dpdk_api \<Rightarrow> nat \<Rightarrow> (('w, 'z) device_scheme, packet_view) prog" where
  "Device_enqueue_size api sz = thenM (flush_if_full api) (bindM (alloc_mbuf api) (\<lambda>m.
     case rte_pktmbuf_append api sz m of
       None \<Rightarrow> thenM (modify (\<lambda>s. s\<lparr>send_mbufs := send_mbufs s @ [m]\<rparr>)) (ret \<lparr>v_mem = [], v_size = sz\<rparr>)
     | Some m' \<Rightarrow> thenM (modify (\<lambda>s. s\<lparr>send_mbufs := send_mbufs s @ [m']\<rparr>))
         (ret \<lparr>v_mem = m_data m', v_size = sz\<rparr>)))"

text \<open>The caller's writes through the span reach the buffer at the end of the queue.\<close>

definition fill_last :: "packet_view \<Rightarrow> ('w, 'z) device_scheme \<Rightarrow> ('w, 'z) device_scheme" where
  "fill_last v s = s\<lparr>send_mbufs := (case rev (send_mbufs s) of [] \<Rightarrow> []
     | m # ms \<Rightarrow> rev ms @ [m\<lparr>m_data := v_mem v\<rparr>])\<rparr>"

text \<open>\<^verbatim>\<open>enqueue_for_send(f)\<close>: the callback fills the buffer and returns the sz.\<close>

definition Device_enqueue_with :: "'w dpdk_api \<Rightarrow> (bytes \<Rightarrow> bytes \<times> nat) \<Rightarrow> (('w, 'z) device_scheme, unit) prog" where
  "Device_enqueue_with api f = thenM (flush_if_full api) (bindM (alloc_mbuf api) (\<lambda>m.
     bindM (TxPacket_new api (Some m)) (\<lambda>m1. case f (m_data m1) of (mem, sz) \<Rightarrow>
       modify (\<lambda>s. s\<lparr>send_mbufs := send_mbufs s @ [set_lengths sz (m1\<lparr>m_data := mem\<rparr>)]\<rparr>))))"

text \<open>\<^verbatim>\<open>clear_receive_queue\<close>: \<open>None\<close> is a card that never runs dry.\<close>

partial_function (option) clear_receive_queue_loop ::
    "'w dpdk_api \<Rightarrow> nat \<Rightarrow> ('w, 'z) device_scheme \<Rightarrow> ((error + nat) \<times> ('w, 'z) device_scheme) option" where
  "clear_receive_queue_loop api counter s = (case Device_receive api s of
     (Inl e, t) \<Rightarrow> Some (Inl e, t)
   | (Inr None, t) \<Rightarrow> Some (Inr counter, t)
   | (Inr (Some m), t) \<Rightarrow> clear_receive_queue_loop api (counter + 1) (t\<lparr>world := rte_pktmbuf_free api m (world t)\<rparr>))"

definition Device_clear_receive_queue ::
    "'w dpdk_api \<Rightarrow> ('w, 'z) device_scheme \<Rightarrow> ((error + nat) \<times> ('w, 'z) device_scheme) option" where
  "Device_clear_receive_queue api s = clear_receive_queue_loop api 0 s"

definition Device_mac :: "'w dpdk_api \<Rightarrow> ('w, 'z) device_scheme \<Rightarrow> mac" where
  "Device_mac api s = rte_eth_macaddr_get api (dev_port_id s)"

definition Device_stats :: "'w dpdk_api \<Rightarrow> (('w, 'z) device_scheme, dev_stats) prog" where
  "Device_stats api = bindM (gets (\<lambda>s. rte_eth_stats_get api (dev_port_id s) (world s))) (\<lambda>r. case r of
     None \<Rightarrow> throw (Runtime_error ''failed to call rte_eth_stats_get()'') | Some st \<Rightarrow> ret st)"

definition Device_destroy :: "'w dpdk_api \<Rightarrow> ('w, 'z) device_scheme \<Rightarrow> 'w" where
  "Device_destroy api s = fold (rte_pktmbuf_free api) (send_mbufs s) (world s)"

section \<open>Sender\<close>

text \<open>A \<open>Sender\<close> holds the pointer to its device; its operations are the device's.\<close>

definition Sender_send_raw_size :: "'w dpdk_api \<Rightarrow> nat \<Rightarrow> (('w, 'z) device_scheme, packet_view) prog" where
  "Sender_send_raw_size api sz = Device_enqueue_size api sz"

definition Sender_get_send_buffer :: "'w dpdk_api \<Rightarrow> (('w, 'z) device_scheme, mbuf) prog" where
  "Sender_get_send_buffer api = Device_get_send_buffer api"

definition Sender_send_raw :: "'w dpdk_api \<Rightarrow> mbuf \<Rightarrow> nat \<Rightarrow> (('w, 'z) device_scheme, unit) prog" where
  "Sender_send_raw api packet sz = Device_enqueue_packet api packet sz"

definition Sender_flush :: "'w dpdk_api \<Rightarrow> (('w, 'z) device_scheme, unit) prog" where
  "Sender_flush api = Device_flush_send_queue api"

section \<open>What the code relies on of DPDK\<close>

text \<open>
  \<open>wire\<close> observes the packets the card has accepted. A transmit burst accepts a prefix of the packets
  it is given, in order; a receive burst returns at most as many packets as asked for; nothing else
  transmits. A buffer of the pool has 2048 bytes of data behind 128 bytes of head room
  (\<^verbatim>\<open>RTE_MBUF_DEFAULT_BUF_SIZE\<close>, with which the master service creates the pool), and a reset buffer has
  its data at the head room; appending up to the room of a fresh buffer succeeds and keeps its bytes.
\<close>

definition tx_burst_ok :: "'w dpdk_api \<Rightarrow> ('w \<Rightarrow> mbuf list) \<Rightarrow> bool" where
  "tx_burst_ok api wire \<longleftrightarrow> (\<forall>port queue ms w k w'. rte_eth_tx_burst api port queue ms w = (k, w') \<longrightarrow>
     k \<le> length ms \<and> wire w' = wire w @ take k ms)"

definition rx_burst_ok :: "'w dpdk_api \<Rightarrow> ('w \<Rightarrow> mbuf list) \<Rightarrow> bool" where
  "rx_burst_ok api wire \<longleftrightarrow> (\<forall>port queue n w ms w'. rte_eth_rx_burst api port queue n w = (ms, w') \<longrightarrow>
     length ms \<le> n \<and> wire w' = wire w)"

definition pool_ok :: "'w dpdk_api \<Rightarrow> ('w \<Rightarrow> mbuf list) \<Rightarrow> bool" where
  "pool_ok api wire \<longleftrightarrow> rte_pktmbuf_data_room_size api = 2176 \<and>
     (\<forall>w m w'. rte_pktmbuf_alloc api w = (m, w') \<longrightarrow> wire w' = wire w) \<and>
     (\<forall>w m w'. rte_pktmbuf_alloc api w = (Some m, w') \<longrightarrow>
        length (m_data m) = 2048 \<and> length (m_data (rte_pktmbuf_reset api m)) = 2048 \<and>
        (\<forall>n \<le> 2048. rte_pktmbuf_append api n m = Some (set_lengths n m))) \<and>
     (\<forall>m w. wire (rte_pktmbuf_free api m w) = wire w) \<and> (\<forall>w. wire (snd (SyncRdtscClock_now api w)) = wire w)"

definition dpdk_ok :: "'w dpdk_api \<Rightarrow> ('w \<Rightarrow> mbuf list) \<Rightarrow> bool" where
  "dpdk_ok api wire \<longleftrightarrow> tx_burst_ok api wire \<and> rx_burst_ok api wire \<and> pool_ok api wire"

text \<open>A card and a pool none of whose calls fails: there is always a buffer, and a single packet is always accepted.\<close>

definition dpdk_reliable :: "'w dpdk_api \<Rightarrow> bool" where
  "dpdk_reliable api \<longleftrightarrow> (\<forall>w. fst (rte_pktmbuf_alloc api w) \<noteq> None) \<and>
     (\<forall>port queue m w. fst (rte_eth_tx_burst api port queue [m] w) = 1)"

text \<open>
  The packets that are received but not yet handed out, the packets that are sent or queued, in order,
  and the invariant of the receive burst.
\<close>

definition Device_pending :: "('w, 'z) device_scheme \<Rightarrow> mbuf list" where
  "Device_pending s = drop (current_recieve_mbuf_idx s) (receive_mbufs s)"

definition Device_line :: "('w \<Rightarrow> mbuf list) \<Rightarrow> ('w, 'z) device_scheme \<Rightarrow> mbuf list" where
  "Device_line wire s = wire (world s) @ send_mbufs s"

definition Device_inv :: "('w, 'z) device_scheme \<Rightarrow> bool" where
  "Device_inv s \<longleftrightarrow> current_recieve_mbuf_idx s \<le> length (receive_mbufs s) \<and>
     length (receive_mbufs s) \<le> kReceiveBurstSize"

text \<open>A device that carries every packet and answers from a list of bursts, for the witnesses.\<close>

record loop_world =
  lw_bursts :: "mbuf list list"
  lw_accept :: nat
  lw_wire :: "mbuf list"
  lw_time :: int

definition blank_mbuf :: mbuf where
  "blank_mbuf = \<lparr>m_data = replicate 2048 0, m_data_len = 0, m_pkt_len = 0, m_l2_len = 0, m_l3_len = 0,
     m_l4_len = 0, m_ol_flags = 0\<rparr>"

definition loop_api :: "loop_world dpdk_api" where
  "loop_api = \<lparr>rte_eth_rx_burst = (\<lambda>_ _ n w. case lw_bursts w of [] \<Rightarrow> ([], w)
       | b # bs \<Rightarrow> (take n b, w\<lparr>lw_bursts := bs\<rparr>)),
     rte_eth_tx_burst = (\<lambda>_ _ ms w. let k = min (lw_accept w) (length ms) in (k, w\<lparr>lw_wire := lw_wire w @ take k ms\<rparr>)),
     rte_pktmbuf_alloc = (\<lambda>w. (Some blank_mbuf, w)), rte_pktmbuf_free = (\<lambda>_ w. w),
     rte_pktmbuf_reset = (\<lambda>m. blank_mbuf), rte_pktmbuf_append = (\<lambda>n m. Some (set_lengths n m)),
     rte_pktmbuf_data_room_size = 2176, RTE_MBUF_F_TX_flags = 0, rte_mempool_lookup = (\<lambda>_. True),
     rte_eth_dev_get_mtu = (\<lambda>_. Some 1500), rte_eth_macaddr_get = (\<lambda>_. Mac_default),
     rte_eth_stats_get = (\<lambda>_ _. None), rte_ipv4_cksum = (\<lambda>_. 0), rte_ipv4_udptcp_cksum = (\<lambda>_ _. 0),
     SyncRdtscClock_now = (\<lambda>w. (lw_time w, w\<lparr>lw_time := lw_time w + 1\<rparr>))\<rparr>"

text \<open>The same with a card that accepts every packet.\<close>

definition steady_api :: "loop_world dpdk_api" where
  "steady_api = loop_api\<lparr>rte_eth_tx_burst := (\<lambda>_ _ ms w. (length ms, w\<lparr>lw_wire := lw_wire w @ ms\<rparr>))\<rparr>"

definition loop_device :: "mbuf list list \<Rightarrow> nat \<Rightarrow> loop_world device" where
  "loop_device bursts accept = \<lparr>pci_addr = [], dev_interface_name = [], dev_port_id = 0, dev_queue_id = 0,
     max_tx_packet_size = 1500, send_mbufs = [], receive_mbufs = [], current_recieve_mbuf_idx = 0,
     last_receive_time_point = 0,
     world = \<lparr>lw_bursts = bursts, lw_accept = accept, lw_wire = [], lw_time = 1\<rparr>\<rparr>"

text \<open>A client's use of the send queue as a sequence of calls.\<close>

datatype send_call = Enqueue nat | Flush

fun call_device :: "'w dpdk_api \<Rightarrow> send_call \<Rightarrow> (('w, 'z) device_scheme, unit) prog" where
  "call_device api (Enqueue n) = bindM (Sender_send_raw_size api n) (\<lambda>_. ret ())"
| "call_device api Flush = Sender_flush api"

fun send_calls :: "'w dpdk_api \<Rightarrow> send_call list \<Rightarrow> (('w, 'z) device_scheme, unit) prog" where
  "send_calls api [] = ret ()"
| "send_calls api (c # cs) = thenM (call_device api c) (send_calls api cs)"

fun enqueued_sizes :: "send_call list \<Rightarrow> nat list" where
  "enqueued_sizes [] = []"
| "enqueued_sizes (Enqueue n # cs) = n # enqueued_sizes cs"
| "enqueued_sizes (Flush # cs) = enqueued_sizes cs"

text \<open>
  The packets the card still holds for the receiver, as a measure: a receive burst that returns
  packets lowers it, freeing a buffer and reading the clock keep it.
\<close>

definition rx_backlog :: "'w dpdk_api \<Rightarrow> ('w \<Rightarrow> nat) \<Rightarrow> bool" where
  "rx_backlog api left \<longleftrightarrow>
     (\<forall>port queue n w m ms w'. rte_eth_rx_burst api port queue n w = (m # ms, w') \<longrightarrow> left w' < left w) \<and>
     (\<forall>m w. left (rte_pktmbuf_free api m w) = left w) \<and> (\<forall>w. left (snd (SyncRdtscClock_now api w)) = left w)"

section \<open>Lemmas\<close>

lemma wp_world_call [wp_simps]:
  "wp (world_call f) Q E = (\<lambda>s. Q (fst (f (world s))) (s\<lparr>world := snd (f (world s))\<rparr>))"
  by (simp add: wp_def world_call_def fun_eq_iff split: prod.splits)

lemma wp_owning [wp_simps]:
  "wp (owning api m body) Q E =
     wp body (\<lambda>a t. Q a (t\<lparr>world := rte_pktmbuf_free api m (world t)\<rparr>))
       (\<lambda>e t. E e (t\<lparr>world := rte_pktmbuf_free api m (world t)\<rparr>))"
  by (auto simp: wp_def owning_def fun_eq_iff split: prod.splits sum.splits)

lemma wp_TxPacket_new [wp_simps]:
  "wp (TxPacket_new api x) Q E = (case x of None \<Rightarrow> E (Runtime_error ''Nullptr in tx_packet'')
     | Some m \<Rightarrow> Q ((rte_pktmbuf_reset api m)\<lparr>m_l2_len := 14, m_l3_len := 20, m_l4_len := 32,
         m_ol_flags := m_ol_flags (rte_pktmbuf_reset api m) OR RTE_MBUF_F_TX_flags api\<rparr>))"
  by (simp add: TxPacket_new_def wp_simps Let_def split: option.splits)

lemma world_update_id [simp]: "s\<lparr>world := world s\<rparr> = s"
  by simp

lemma loop_api_ok: "dpdk_ok loop_api lw_wire"
  by (auto simp: dpdk_ok_def tx_burst_ok_def rx_burst_ok_def pool_ok_def loop_api_def Let_def blank_mbuf_def
      split: list.splits)

lemma steady_api_ok: "dpdk_ok steady_api lw_wire"
  by (auto simp: dpdk_ok_def tx_burst_ok_def rx_burst_ok_def pool_ok_def steady_api_def loop_api_def Let_def blank_mbuf_def
      split: list.splits)

lemma steady_api_reliable [simp]: "dpdk_reliable steady_api"
  by (simp add: dpdk_reliable_def steady_api_def loop_api_def)

lemma take_drop_shift: "k \<le> length ms \<Longrightarrow> take (length ms - k) (drop k ms @ xs) = drop k ms"
  by simp

lemma tx_burst_wire:
  assumes "dpdk_ok api wire"
  shows "fst (rte_eth_tx_burst api port queue ms w) \<le> length ms"
    and "wire (snd (rte_eth_tx_burst api port queue ms w)) =
      wire w @ take (fst (rte_eth_tx_burst api port queue ms w)) ms"
  using assms unfolding dpdk_ok_def tx_burst_ok_def by (metis prod.collapse)+

lemma rx_burst_wire:
  assumes "dpdk_ok api wire"
  shows "length (fst (rte_eth_rx_burst api port queue n w)) \<le> n"
    and "wire (snd (rte_eth_rx_burst api port queue n w)) = wire w"
  using assms unfolding dpdk_ok_def rx_burst_ok_def by (metis prod.collapse)+

lemma pool_wire [simp]:
  assumes "dpdk_ok api wire"
  shows "wire (snd (rte_pktmbuf_alloc api w)) = wire w" and "wire (rte_pktmbuf_free api m w) = wire w"
    and "wire (snd (SyncRdtscClock_now api w)) = wire w" and "rte_pktmbuf_data_room_size api = 2176"
  using assms unfolding dpdk_ok_def pool_ok_def by (metis prod.collapse)+

lemma pool_alloc:
  assumes "dpdk_ok api wire" and "fst (rte_pktmbuf_alloc api w) = Some m"
  shows "length (m_data m) = 2048" and "length (m_data (rte_pktmbuf_reset api m)) = 2048"
    and "n \<le> 2048 \<Longrightarrow> rte_pktmbuf_append api n m = Some (set_lengths n m)"
  using assms unfolding dpdk_ok_def pool_ok_def by (metis prod.collapse)+

lemma wp_Device_flush_send_queue:
  assumes "dpdk_ok api wire"
  shows "wp (Device_flush_send_queue api) (\<lambda>_ t. \<exists>w k. t = s\<lparr>world := w, send_mbufs := drop k (send_mbufs s)\<rparr> \<and>
      k \<le> length (send_mbufs s) \<and> wire w = wire (world s) @ take k (send_mbufs s)) (\<lambda>_ _. False) s"
proof (cases "send_mbufs s = []")
  case True
  then show ?thesis
    by (auto simp: Device_flush_send_queue_def wp_simps intro!: exI [of _ "world s"] exI [of _ 0])
next
  case False
  then show ?thesis
    using tx_burst_wire [OF assms]
    by (auto simp: Device_flush_send_queue_def wp_simps take_drop_shift intro!: exI)
qed


lemma flush_conserves:
  assumes "dpdk_ok api wire"
  shows "wp (Device_flush_send_queue api) (\<lambda>_ t. Device_line wire t = Device_line wire s) (\<lambda>_ _. False) s"
  by (rule wp_mono [OF wp_Device_flush_send_queue [OF assms]]) (auto simp: Device_line_def)

lemma flush_if_full_conserves:
  assumes "dpdk_ok api wire"
  shows "wp (flush_if_full api) (\<lambda>_ t. Device_line wire t = Device_line wire s) (\<lambda>_ _. False) s"
  by (simp add: flush_if_full_def wp_simps flush_conserves [OF assms])

lemma enqueue_conserves:
  fixes s :: "('w, 'z) device_scheme"
  assumes "dpdk_ok api wire" and "n \<le> 2048"
  shows "wp (Device_enqueue_size api n)
     (\<lambda>v t. \<exists>m. Device_line wire t = Device_line wire s @ [m] \<and> m_pkt_len m = of_nat n \<and>
        length (m_data m) = 2048 \<and> send_mbufs t \<noteq> [] \<and> v = \<lparr>v_mem = m_data m, v_size = n\<rparr>) (\<lambda>_ t. Device_line wire t = Device_line wire s) s"
proof -
  have inner: "wp (bindM (alloc_mbuf api) (\<lambda>m. case rte_pktmbuf_append api n m of
       None \<Rightarrow> thenM (modify (\<lambda>s. s\<lparr>send_mbufs := send_mbufs s @ [m]\<rparr>)) (ret \<lparr>v_mem = [], v_size = n\<rparr>)
     | Some m' \<Rightarrow> thenM (modify (\<lambda>s. s\<lparr>send_mbufs := send_mbufs s @ [m']\<rparr>)) (ret \<lparr>v_mem = m_data m', v_size = n\<rparr>)))
     (\<lambda>v t. \<exists>m. Device_line wire t = Device_line wire s @ [m] \<and> m_pkt_len m = of_nat n \<and>
        length (m_data m) = 2048 \<and> send_mbufs t \<noteq> [] \<and> v = \<lparr>v_mem = m_data m, v_size = n\<rparr>) (\<lambda>_ t. Device_line wire t = Device_line wire s) s1"
    if "Device_line wire s1 = Device_line wire s" for s1
    using pool_alloc(1) [OF assms(1)] pool_alloc(3) [OF assms(1) _ assms(2)] assms(1) that
    by (auto simp: alloc_mbuf_def wp_simps set_lengths_def Device_line_def split: option.splits)
  show ?thesis
    unfolding Device_enqueue_size_def wp_thenM
    by (rule wp_mono [OF flush_if_full_conserves [OF assms(1)]], erule inner, simp)
qed

lemma send_calls_conserve:
  fixes s :: "('w, 'z) device_scheme"
  assumes "dpdk_ok api wire" and "list_all (\<lambda>n. n \<le> 2048) (enqueued_sizes cs)"
  shows "wp (send_calls api cs)
     (\<lambda>_ t. \<exists>new. Device_line wire t = Device_line wire s @ new \<and> map m_pkt_len new = map of_nat (enqueued_sizes cs))
     (\<lambda>_ t. \<exists>new. Device_line wire t = Device_line wire s @ new) s"
  using assms(2)
proof (induction cs arbitrary: s rule: enqueued_sizes.induct)
  case 1
  then show ?case by (simp add: wp_simps)
next
  case (2 n cs)
  then have n: "n \<le> 2048" and l: "list_all (\<lambda>n. n \<le> 2048) (enqueued_sizes cs)" by auto
  show ?case
    unfolding send_calls.simps call_device.simps wp_thenM wp_bindM wp_ret Sender_send_raw_size_def
    by (rule wp_mono [OF enqueue_conserves [OF assms(1) n]]) (auto intro!: wp_mono [OF "2.IH" [OF l]])
next
  case (3 cs)
  then have "list_all (\<lambda>n. n \<le> 2048) (enqueued_sizes cs)" by simp
  then show ?case
    unfolding send_calls.simps call_device.simps wp_thenM Sender_flush_def
    by (intro wp_mono [OF flush_conserves [OF assms(1)]]) (auto intro!: wp_mono [OF "3.IH"])
qed

lemma wp_Device_receive:
  assumes "dpdk_ok api wire" and "Device_inv s"
  shows "wp (Device_receive api) (\<lambda>r t. Device_inv t \<and> wire (world t) = wire (world s) \<and> send_mbufs t = send_mbufs s \<and>
      (if Device_pending s = []
       then (let (ms, w) = rte_eth_rx_burst api (dev_port_id s) (dev_queue_id s) kReceiveBurstSize (world s) in
         last_receive_time_point t = fst (SyncRdtscClock_now api w) \<and> world t = snd (SyncRdtscClock_now api w) \<and>
         (r = None \<and> ms = [] \<and> Device_pending t = [] \<or> (\<exists>m. r = Some m \<and> m # Device_pending t = ms)))
       else r = Some (hd (Device_pending s)) \<and> Device_pending t = tl (Device_pending s) \<and>
         world t = world s \<and> last_receive_time_point t = last_receive_time_point s)) (\<lambda>_ _. False) s"
proof (cases "current_recieve_mbuf_idx s = length (receive_mbufs s)")
  case True
  let ?b = "rte_eth_rx_burst api (dev_port_id s) (dev_queue_id s) kReceiveBurstSize (world s)"
  have "length (fst ?b) \<le> kReceiveBurstSize" "wire (snd ?b) = wire (world s)" using rx_burst_wire [OF assms(1)] by auto
  then show ?thesis
    using assms(1) True
    by (cases "fst ?b") (auto simp: Device_receive_def wp_simps Device_pending_def Device_inv_def split_beta Let_def)
next
  case False
  then have "current_recieve_mbuf_idx s < length (receive_mbufs s)" using assms(2) by (simp add: Device_inv_def)
  then show ?thesis
    using assms(2) False
    by (auto simp: Device_receive_def wp_simps Device_pending_def Device_inv_def hd_drop_conv_nth tl_drop drop_Suc)
qed


lemma clear_receive_queue_loop_returns:
  assumes "dpdk_ok api wire" and "rx_backlog api left" and "Device_inv s"
  shows "\<exists>n t. clear_receive_queue_loop api counter s = Some (Inr n, t) \<and> Device_inv t \<and> Device_pending t = [] \<and>
     counter + length (Device_pending s) \<le> n \<and> send_mbufs t = send_mbufs s"
  using assms(3)
proof (induction "(left (world s), length (Device_pending s))" arbitrary: s counter
    rule: wf_induct_rule [OF wf_lex_prod [OF wf_less_than wf_less_than]])
  case 1
  obtain r t where rt: "Device_receive api s = (r, t)" by (cases "Device_receive api s")
  note R = wp_Device_receive [OF assms(1) 1(2), unfolded wp_def rt]
  show ?case
  proof (cases r)
    case (Inl e)
    then show ?thesis using R by simp
  next
    case (Inr m)
    show ?thesis
    proof (cases m)
      case None
      then have "Device_pending s = []" "Device_pending t = []" using R Inr by (auto split: if_splits prod.splits)
      then show ?thesis
        using R rt Inr None by (subst clear_receive_queue_loop.simps) auto
    next
      case (Some p)
      let ?t = "t\<lparr>world := rte_pktmbuf_free api p (world t)\<rparr>"
      have inv: "Device_inv ?t" "Device_pending ?t = Device_pending t" "send_mbufs ?t = send_mbufs s"
        using R Inr by (auto simp: Device_inv_def Device_pending_def)
      have dec: "left (world ?t) < left (world s) \<or>
          left (world ?t) = left (world s) \<and> length (Device_pending t) < length (Device_pending s)"
        and len: "length (Device_pending s) \<le> Suc (length (Device_pending t))"
        using R Inr Some assms(2) unfolding rx_backlog_def
        by (auto split: if_splits prod.splits)
      have "\<exists>n u. clear_receive_queue_loop api (counter + 1) ?t = Some (Inr n, u) \<and> Device_inv u \<and> Device_pending u = [] \<and>
          counter + 1 + length (Device_pending ?t) \<le> n \<and> send_mbufs u = send_mbufs ?t"
        using dec inv by (intro 1(1)) auto
      then show ?thesis
        using rt Inr Some inv len by (subst clear_receive_queue_loop.simps) auto
    qed
  qed
qed


section \<open>Properties\<close>

text \<open>
  C15: the send queue loses, duplicates and reorders nothing. Under the documented behaviour of the
  transmit burst, after any sequence of \<^verbatim>\<open>send_raw(size)\<close> and \<^verbatim>\<open>flush\<close> calls, however few packets each
  burst accepts, the packets on the wire followed by the packets still queued are what they were before,
  followed by the new packets in call order with the sizes asked for; a call that throws keeps this too.
\<close>

theorem Device_send_queue_conserves:
  assumes "dpdk_ok api wire" and "list_all (\<lambda>n. n \<le> 2048) (enqueued_sizes cs)"
  shows "wp (send_calls api cs)
     (\<lambda>_ t. \<exists>new. Device_line wire t = Device_line wire s @ new \<and> map m_pkt_len new = map of_nat (enqueued_sizes cs))
     (\<lambda>_ t. \<exists>new. Device_line wire t = Device_line wire s @ new) s"
  by (rule send_calls_conserve [OF assms])

theorem Device_send_queue_conserves_witness:
  "wp (send_calls loop_api [Enqueue 42, Enqueue 60, Flush])
     (\<lambda>_ t. \<exists>new. lw_wire (world t) @ send_mbufs t = new \<and> map m_pkt_len new = [42, 60]) (\<lambda>_ _. True)
     (loop_device [] 1)"
  using Device_send_queue_conserves [OF loop_api_ok, of "[Enqueue 42, Enqueue 60, Flush]" "loop_device [] 1"]
  by (auto simp: Device_line_def loop_device_def elim!: wp_mono)

text \<open>
  C25: \<^verbatim>\<open>Device::receive\<close> hands out the packets of a burst one by one in order, asks the card for the next
  burst only when the last one is used up, takes the receive time only then, and returns nothing exactly
  when that burst is empty; it keeps the index inside the burst.
\<close>

theorem Device_receive_in_order:
  assumes "dpdk_ok api wire" and "Device_inv s"
  shows "wp (Device_receive api) (\<lambda>r t. Device_inv t \<and> wire (world t) = wire (world s) \<and> send_mbufs t = send_mbufs s \<and>
      (if Device_pending s = []
       then (let (ms, w) = rte_eth_rx_burst api (dev_port_id s) (dev_queue_id s) kReceiveBurstSize (world s) in
         last_receive_time_point t = fst (SyncRdtscClock_now api w) \<and> world t = snd (SyncRdtscClock_now api w) \<and>
         (r = None \<and> ms = [] \<and> Device_pending t = [] \<or> (\<exists>m. r = Some m \<and> m # Device_pending t = ms)))
       else r = Some (hd (Device_pending s)) \<and> Device_pending t = tl (Device_pending s) \<and>
         world t = world s \<and> last_receive_time_point t = last_receive_time_point s)) (\<lambda>_ _. False) s"
  by (rule wp_Device_receive [OF assms])

theorem Device_receive_in_order_witness:
  "wp (Device_receive loop_api) (\<lambda>r t. r = Some (blank_mbuf\<lparr>m_pkt_len := 60\<rparr>) \<and> Device_pending t = [blank_mbuf])
     (\<lambda>_ _. False) (loop_device [[blank_mbuf\<lparr>m_pkt_len := 60\<rparr>, blank_mbuf]] 1)"
  by (rule wp_mono [OF Device_receive_in_order [OF loop_api_ok]])
     (auto simp: Device_inv_def loop_device_def loop_api_def Device_pending_def kReceiveBurstSize_def)

text \<open>
  C17: \<^verbatim>\<open>clear_receive_queue\<close> returns when the card's backlog is finite: it has then handed out (and freed)
  everything pending and everything the card still held, and it leaves the send queue alone.
\<close>

theorem Device_clear_receive_queue_returns:
  assumes "dpdk_ok api wire" and "rx_backlog api left" and "Device_inv s"
  shows "\<exists>n t. Device_clear_receive_queue api s = Some (Inr n, t) \<and> Device_inv t \<and> Device_pending t = [] \<and>
     length (Device_pending s) \<le> n \<and> send_mbufs t = send_mbufs s"
  using clear_receive_queue_loop_returns [OF assms, of 0] by (simp add: Device_clear_receive_queue_def)

theorem Device_clear_receive_queue_returns_witness:
  "\<exists>n t. Device_clear_receive_queue loop_api (loop_device [[blank_mbuf], [blank_mbuf]] 1) = Some (Inr n, t) \<and>
     Device_pending t = []"
proof -
  have "rx_backlog loop_api (\<lambda>w. length (lw_bursts w))"
    by (auto simp: rx_backlog_def loop_api_def split: list.splits)
  from Device_clear_receive_queue_returns [OF loop_api_ok this, of "loop_device [[blank_mbuf], [blank_mbuf]] 1"]
  show ?thesis by (auto simp: Device_inv_def loop_device_def)
qed

text \<open>
  The send queue flushes only when it holds exactly \<^verbatim>\<open>kSendBurstSize\<close> packets. Once a burst has
  accepted nothing and the queue has grown past that size, \<^verbatim>\<open>send_raw(size)\<close> no longer transmits: it only
  appends, until somebody calls \<^verbatim>\<open>flush\<close>.
\<close>

lemma Device_overfull_queue_not_flushed:
  assumes "kSendBurstSize < length (send_mbufs s)" and "rte_pktmbuf_alloc api (world s) = (Some m, w)"
    and "rte_pktmbuf_append api n m = Some m'"
  shows "Device_enqueue_size api n s =
     (Inr \<lparr>v_mem = m_data m', v_size = n\<rparr>, s\<lparr>world := w, send_mbufs := send_mbufs s @ [m']\<rparr>)"
  using assms
  by (simp add: Device_enqueue_size_def flush_if_full_def alloc_mbuf_def prog_defs world_call_def)

lemma Device_overfull_queue_not_flushed_witness:
  "length (send_mbufs (snd (Device_enqueue_size loop_api 42 ((loop_device [] 9)\<lparr>send_mbufs := replicate 33 blank_mbuf\<rparr>)))) = 34"
  using Device_overfull_queue_not_flushed
    [of "(loop_device [] 9)\<lparr>send_mbufs := replicate 33 blank_mbuf\<rparr>" loop_api blank_mbuf _ 42 "set_lengths 42 blank_mbuf"]
  by (simp add: kSendBurstSize_def loop_api_def)

end
