(* ===== verification/Tcp_Client.thy ===== *)
theory Tcp_Client
  imports Tcp_Packet Device Streams
begin

text \<open>
  The TCP client of src/src/network/tcp/client.h and client.cpp: its state, the send path, the handling
  of received segments, connect and reset. The client sends through a \<open>Sender\<close>, a pointer to the device,
  so its state extends the state of the device. The random numbers the constructor draws are its
  arguments. A \<open>send_buffer\<close> holds a view into the memory of its own packet; the memory of the packet is
  the view's when the buffer is handed to the device.
\<close>

datatype client_state = Offline | Connecting | Connected

record 'w tcp_client = "'w device" +
  peer_window_scale :: byte
  unacknowledged_bytes :: u32
  send_wnd :: u32
  last_ack_number :: seq_number
  cl_seq :: seq_number
  cl_ack :: seq_number
  cl_ip_id :: u16
  cl_state :: client_state
  cl_connection :: connection

record send_buffer =
  sb_tcp :: packet_view
  sb_tx :: mbuf

definition kWindowSize :: u32 where "kWindowSize = 65535"

definition Client_new :: "connection \<Rightarrow> u32 \<Rightarrow> u16 \<Rightarrow> 'w device \<Rightarrow> 'w tcp_client" where
  "Client_new connection random_seq random_ip_id dev = device.extend dev
     (tcp_client.fields 0 0 kWindowSize (SeqNumber random_seq) (SeqNumber random_seq) (SeqNumber 0) random_ip_id
        Offline connection)"

text \<open>Code that owns a packet until it moves it away: an exception frees the packet.\<close>

definition free_on_throw ::
    "'w dpdk_api \<Rightarrow> mbuf \<Rightarrow> (('w, 'z) device_scheme, 'a) prog \<Rightarrow> (('w, 'z) device_scheme, 'a) prog" where
  "free_on_throw api m body = (\<lambda>s. case body s of
     (Inl e, t) \<Rightarrow> (Inl e, t\<lparr>world := rte_pktmbuf_free api m (world t)\<rparr>) | (Inr a, t) \<Rightarrow> (Inr a, t))"

definition Client_get_send_buffer ::
    "'w dpdk_api \<Rightarrow> flags \<Rightarrow> bool \<Rightarrow> (('w, 'z) tcp_client_scheme, send_buffer) prog" where
  "Client_get_send_buffer api flags include_options =
     bindM (Sender_get_send_buffer api) (\<lambda>tx. free_on_throw api tx (
     bindM (gets (\<lambda>s. (cl_connection s, cl_seq s, cl_ack s))) (\<lambda>(connection, seq, ack).
     bindM (Tcp_init connection flags seq ack include_options (TxPacket_view api tx)) (\<lambda>tcp.
     bindM (gets cl_ip_id) (\<lambda>ip_id.
     bindM (IP_header tcp) (\<lambda>h.
     bindM (IP_store_header (h\<lparr>ip_id_field := BE ip_id\<rparr>) tcp) (\<lambda>tcp'.
     ret \<lparr>sb_tcp = tcp', sb_tx = tx\<rparr>)))))))"

definition Client_send :: "'w dpdk_api \<Rightarrow> send_buffer \<Rightarrow> nat \<Rightarrow> (('w, 'z) tcp_client_scheme, unit) prog" where
  "Client_send api packet payload_len =
     bindM (free_on_throw api (sb_tx packet) (
       bindM (gets (\<lambda>s. add64 (unat (unacknowledged_bytes s)) payload_len \<le> unat (send_wnd s))) (\<lambda>fits.
       thenM (require fits ''window is full'')
       (bindM (Tcp_resize_payload payload_len (sb_tcp packet)) (\<lambda>tcp1.
        bindM (Tcp_update_checksum (rte_ipv4_udptcp_cksum api) tcp1) (\<lambda>tcp2.
        IP_update_checksum (rte_ipv4_cksum api) tcp2)))))) (\<lambda>tcp.
     thenM (modify (\<lambda>s. s\<lparr>cl_ip_id := cl_ip_id s + 1, cl_seq := SeqNumber_add (cl_seq s) (of_nat payload_len),
       unacknowledged_bytes := unacknowledged_bytes s + of_nat payload_len\<rparr>))
     (Sender_send_raw api ((sb_tx packet)\<lparr>m_data := v_mem tcp\<rparr>) (v_size (Eth_raw_bytes tcp))))"

text \<open>The steps of \<^verbatim>\<open>process_packet\<close> after its checks, in the order of the code.\<close>

definition Client_update_window :: "tcp_header \<Rightarrow> (('w, 'z) tcp_client_scheme, unit) prog" where
  "Client_update_window hdr = bindM (gets peer_window_scale) (\<lambda>scale.
     thenM (defined_if (unat scale < 32) ''shift by the width or more'')
     (let peer_rwnd = push_bit (unat scale) (ucast (be_value (tcp_window hdr)) :: u32) in
      modify (\<lambda>s. if 0 < peer_rwnd then s\<lparr>send_wnd := peer_rwnd\<rparr> else s)))"

definition Client_process_ack :: "seq_number \<Rightarrow> (('w, 'z) tcp_client_scheme, unit) prog" where
  "Client_process_ack received_ack =
     bindM (gets last_ack_number) (\<lambda>last_ack.
     thenM (require (SeqNumber_le last_ack received_ack) ''ack is not expected to decrease'')
     (let bytes_acked = SeqNumber_minus received_ack last_ack in
      bindM (gets unacknowledged_bytes) (\<lambda>unacknowledged.
      thenM (require (bytes_acked \<le> unacknowledged) ''Unexpected bytes got acknowledged'')
      (modify (\<lambda>s. s\<lparr>unacknowledged_bytes := unacknowledged - bytes_acked, last_ack_number := received_ack\<rparr>)))))"

definition Client_finish_handshake ::
    "'w dpdk_api \<Rightarrow> packet_view \<Rightarrow> seq_number \<Rightarrow> seq_number \<Rightarrow> (('w, 'z) tcp_client_scheme, unit) prog" where
  "Client_finish_handshake api tcp_packet received_seq received_ack =
     thenM (modify (\<lambda>s. s\<lparr>cl_state := Connected, cl_ack := SeqNumber_add received_seq 1,
       cl_seq := SeqNumber_add (cl_seq s) 1, last_ack_number := received_ack\<rparr>))
     (bindM (Tcp_parse_options tcp_packet) (\<lambda>window_scale.
      thenM (modify (\<lambda>s. case window_scale of None \<Rightarrow> s | Some x \<Rightarrow> s\<lparr>peer_window_scale := x\<rparr>))
      (bindM (Client_get_send_buffer api Flags_ACK False) (\<lambda>packet. Client_send api packet 0))))"

definition Client_process_data ::
    "'w dpdk_api \<Rightarrow> packet_view \<Rightarrow> seq_number \<Rightarrow> (('w, 'z) tcp_client_scheme, unit) prog" where
  "Client_process_data api tcp_packet received_seq =
     bindM (gets cl_state) (\<lambda>st.
     if st \<noteq> Connected then ret () else
     bindM (Tcp_payload tcp_packet) (\<lambda>payload.
     if v_size payload = 0 then ret () else
     thenM (modify (\<lambda>s. s\<lparr>cl_ack := SeqNumber_add received_seq (of_nat (v_size payload))\<rparr>))
     (bindM (Client_get_send_buffer api Flags_ACK False) (\<lambda>packet. Client_send api packet 0))))"

definition Client_accept_segment ::
    "'w dpdk_api \<Rightarrow> packet_view \<Rightarrow> tcp_header \<Rightarrow> (('w, 'z) tcp_client_scheme, unit) prog" where
  "Client_accept_segment api tcp_packet hdr =
     (let received_seq = SeqNumber (be_value (tcp_seq hdr)); received_ack = SeqNumber (be_value (tcp_ack hdr)) in
      thenM (Client_update_window hdr)
      (thenM (Client_process_ack received_ack)
      (bindM (gets cl_state) (\<lambda>st.
       if st = Connecting \<and> tcp_flags hdr = Flags_SYN_ACK
       then Client_finish_handshake api tcp_packet received_seq received_ack
       else Client_process_data api tcp_packet received_seq))))"

definition Client_process_packet :: "'w dpdk_api \<Rightarrow> packet_view \<Rightarrow> (('w, 'z) tcp_client_scheme, unit) prog" where
  "Client_process_packet api tcp_packet =
     bindM (Tcp_is_valid tcp_packet) (\<lambda>valid.
     thenM (require valid ''Tcp packet is not valid'')
     (bindM (Tcp_header tcp_packet) (\<lambda>hdr.
     thenM (require (\<not> has_flag (tcp_flags hdr) Flags_RST) ''rst received'')
     (let received_seq = SeqNumber (be_value (tcp_seq hdr)) in
      bindM (gets cl_ack) (\<lambda>ack.
      if SeqNumber_less received_seq ack \<and> \<not> SeqNumber_eq ack (SeqNumber 0) then ret ()
      else thenM (require (SeqNumber_eq received_seq ack \<or> SeqNumber_eq ack (SeqNumber 0)) ''Misses are not supported'')
        (Client_accept_segment api tcp_packet hdr))))))"

definition Client_connect :: "'w dpdk_api \<Rightarrow> (('w, 'z) tcp_client_scheme, unit) prog" where
  "Client_connect api = bindM (Sender_get_send_buffer api) (\<lambda>packet. owning api packet (
     thenM (modify (\<lambda>s. s\<lparr>cl_state := Connecting\<rparr>))
     (thenM (bindM (Client_get_send_buffer api Flags_SYN True) (\<lambda>p. Client_send api p 0))
     (modify (\<lambda>s. s\<lparr>unacknowledged_bytes := 1\<rparr>)))))"

definition Client_send_rst :: "'w dpdk_api \<Rightarrow> (('w, 'z) tcp_client_scheme, unit) prog" where
  "Client_send_rst api = bindM (Sender_get_send_buffer api) (\<lambda>packet. owning api packet (
     thenM (bindM (Client_get_send_buffer api Flags_RST False) (\<lambda>p. Client_send api p 0))
     (modify (\<lambda>s. s\<lparr>cl_state := Offline\<rparr>))))"

definition Client_destroy :: "'w dpdk_api \<Rightarrow> (('w, 'z) tcp_client_scheme, unit) prog" where
  "Client_destroy api = bindM (gets cl_state) (\<lambda>st. if st = Connected then Client_send_rst api else ret ())"

text \<open>
  \<^verbatim>\<open>payload_write_stream()\<close> of the packet in a send buffer, and the packet with what was written through it.
\<close>

definition Tcp_payload_write_stream :: "packet_view \<Rightarrow> ('s, write_stream) prog" where
  "Tcp_payload_write_stream v = bindM (Tcp_payload v) (\<lambda>p. ret (WriteStream_new (v_mem p) (v_size p)))"

definition sb_written :: "write_stream \<Rightarrow> send_buffer \<Rightarrow> send_buffer" where
  "sb_written ws sb = sb\<lparr>sb_tcp := (sb_tcp sb)\<lparr>v_mem :=
     take (length (v_mem (sb_tcp sb)) - length (ws_mem ws)) (v_mem (sb_tcp sb)) @ ws_mem ws\<rparr>\<rparr>"

section \<open>Invariant and specification of the frames\<close>

text \<open>
  What is sent and not acknowledged is the distance from the last acknowledged number to the next one to
  send; while the connection is being set up the SYN counts as one byte that \<open>cl_seq\<close> has not passed yet.
  \<open>lost\<close> counts the requests that were not accounted for because \<^verbatim>\<open>connect\<close> threw after it had changed the state.
\<close>

definition Client_inv :: "u32 \<Rightarrow> ('w, 'z) tcp_client_scheme \<Rightarrow> bool" where
  "Client_inv lost s \<longleftrightarrow> seq_value (last_ack_number s) + unacknowledged_bytes s + lost =
     seq_value (cl_seq s) + (if cl_state s = Connecting then 1 else 0)"

text \<open>The packet a send buffer of the client puts on the wire.\<close>

definition client_frame ::
    "'w dpdk_api \<Rightarrow> ('w, 'z) tcp_client_scheme \<Rightarrow> flags \<Rightarrow> bool \<Rightarrow> bytes \<Rightarrow> mbuf \<Rightarrow> bool" where
  "client_frame api s flags opt payload m \<longleftrightarrow>
     (let n = 34 + tcp_header_length opt + length payload; v = \<lparr>v_mem = m_data m, v_size = n\<rparr> in
      tcp_frame (cl_connection s) flags (cl_seq s) (cl_ack s) opt v \<and>
      unat (be_value (ip_total_length (ip_hdr v))) = n - 14 \<and> be_value (ip_id_field (ip_hdr v)) = cl_ip_id s \<and>
      chunk (34 + tcp_header_length opt) (length payload) (m_data m) = payload \<and>
      checksums_ok (rte_ipv4_cksum api) (rte_ipv4_udptcp_cksum api) v \<and>
      unat (m_pkt_len m) = n \<and> unat (m_data_len m) = n \<and> n \<le> length (m_data m))"

text \<open>A send buffer as \<^verbatim>\<open>get_send_buffer\<close> hands it out, with any payload written into it since.\<close>

definition open_buffer :: "('w, 'z) tcp_client_scheme \<Rightarrow> flags \<Rightarrow> bool \<Rightarrow> send_buffer \<Rightarrow> bool" where
  "open_buffer s flags opt sb \<longleftrightarrow> tcp_frame (cl_connection s) flags (cl_seq s) (cl_ack s) opt (sb_tcp sb) \<and>
     length (v_mem (sb_tcp sb)) = 2048 \<and> ip_id_field (ip_hdr (sb_tcp sb)) = BE (cl_ip_id s) \<and>
     unat (be_value (ip_total_length (ip_hdr (sb_tcp sb)))) = 2162 \<and>
     ip_check (ip_hdr (sb_tcp sb)) = BE 0 \<and> tcp_checksum (tcp_hdr (sb_tcp sb)) = BE 0"

text \<open>
  The steps a client goes through: connecting a client that is offline and has nothing outstanding, processing any
  packet, taking send buffers, sending any buffer in any state, and resetting a connected client, as its destructor does.
  Every step may throw and leaves the state it left; the number says whether it was a \<^verbatim>\<open>connect\<close> that threw when the
  state was \<^verbatim>\<open>Connecting\<close> already.
\<close>

inductive tcp_step :: "'w dpdk_api \<Rightarrow> ('w, 'z) tcp_client_scheme \<Rightarrow> nat \<Rightarrow> ('w, 'z) tcp_client_scheme \<Rightarrow> bool"
  for api :: "'w dpdk_api" where
  Connect: "cl_state s = Offline \<Longrightarrow> unacknowledged_bytes s = 0 \<Longrightarrow> Client_connect api s = (Inr (), t) \<Longrightarrow> tcp_step api s 0 t"
| Connect_throws: "cl_state s = Offline \<Longrightarrow> unacknowledged_bytes s = 0 \<Longrightarrow> Client_connect api s = (Inl e, t) \<Longrightarrow>
    tcp_step api s (if cl_state t = Connecting then 1 else 0) t"
| Process: "Client_process_packet api v s = (r, t) \<Longrightarrow> tcp_step api s 0 t"
| Send: "Client_send api sb n s = (r, t) \<Longrightarrow> tcp_step api s 0 t"
| Buffer: "Client_get_send_buffer api flags opt s = (r, t) \<Longrightarrow> tcp_step api s 0 t"
| Reset: "cl_state s = Connected \<Longrightarrow> Client_send_rst api s = (r, t) \<Longrightarrow> tcp_step api s 0 t"

inductive tcp_reachable :: "'w dpdk_api \<Rightarrow> ('w, 'z) tcp_client_scheme \<Rightarrow> nat \<Rightarrow> ('w, 'z) tcp_client_scheme \<Rightarrow> bool"
  for api :: "'w dpdk_api" and s0 :: "('w, 'z) tcp_client_scheme" where
  start: "tcp_reachable api s0 0 s0"
| step: "tcp_reachable api s0 n s \<Longrightarrow> tcp_step api s k t \<Longrightarrow> tcp_reachable api s0 (n + k) t"

text \<open>The size \<^verbatim>\<open>payload()\<close> of a received packet states.\<close>

definition tcp_payload_size :: "packet_view \<Rightarrow> nat" where
  "tcp_payload_size v = sub64 (sub64 (unat (be_value (ip_total_length (ip_hdr v)))) (IpHeader_size (ip_hdr v)))
     (tcp_data_offset (tcp_hdr v))"

text \<open>A concrete client and a concrete segment, for the witnesses.\<close>

definition demo_client :: "client_state \<Rightarrow> u32 \<Rightarrow> loop_world tcp_client" where
  "demo_client st ack = (Client_new demo_connection 7 9 (loop_device [] 1))\<lparr>cl_state := st, cl_ack := SeqNumber ack\<rparr>"

definition demo_header :: "flags \<Rightarrow> u32 \<Rightarrow> u32 \<Rightarrow> tcp_header" where
  "demo_header flags seq ack = \<lparr>tcp_src_port = Port 443, tcp_dst_port = Port 40000, tcp_seq = BE seq, tcp_ack = BE ack,
     tcp_off_res = tcp_off_res_of 5 0, tcp_flags = flags, tcp_window = BE 60000, tcp_checksum = BE 0, tcp_urg_ptr = BE 0\<rparr>"

definition demo_segment :: "flags \<Rightarrow> u32 \<Rightarrow> u32 \<Rightarrow> bytes \<Rightarrow> packet_view" where
  "demo_segment flags seq ack payload =
     \<lparr>v_mem = enc_eth (Eth_init_header demo_session) @
        enc_ip (IP_init_header demo_session IpProtocol_Tcp (40 + length payload)) @ enc_tcp (demo_header flags seq ack) @ payload,
      v_size = 54 + length payload\<rparr>"

text \<open>What a send changes of the client, apart from the device.\<close>

definition after_send :: "nat \<Rightarrow> ('w, 'z) tcp_client_scheme \<Rightarrow> ('w, 'z) tcp_client_scheme" where
  "after_send n s = s\<lparr>cl_ip_id := cl_ip_id s + 1, cl_seq := SeqNumber_add (cl_seq s) (of_nat n),
     unacknowledged_bytes := unacknowledged_bytes s + of_nat n\<rparr>"

text \<open>Two states with the same TCP connection.\<close>

definition same_segment_state :: "('w, 'z) tcp_client_scheme \<Rightarrow> ('w, 'z) tcp_client_scheme \<Rightarrow> bool" where
  "same_segment_state s t \<longleftrightarrow> cl_connection s = cl_connection t \<and> cl_seq s = cl_seq t \<and> cl_ack s = cl_ack t \<and>
     cl_ip_id s = cl_ip_id t \<and> cl_state s = cl_state t \<and> unacknowledged_bytes s = unacknowledged_bytes t \<and>
     last_ack_number s = last_ack_number t \<and> send_wnd s = send_wnd t \<and> peer_window_scale s = peer_window_scale t"

text \<open>The peer's window has room for so many bytes more.\<close>

definition room :: "('w, 'z) tcp_client_scheme \<Rightarrow> nat \<Rightarrow> bool" where
  "room s n \<longleftrightarrow> unat (unacknowledged_bytes s) + n \<le> unat (send_wnd s)"

text \<open>
  The bookkeeping of an accepted header: when it passes, and the state it leaves. The option bytes of a packet, as
  \<^verbatim>\<open>parse_options\<close> reads them.
\<close>

definition ack_accepted :: "('w, 'z) tcp_client_scheme \<Rightarrow> tcp_header \<Rightarrow> bool" where
  "ack_accepted s hdr \<longleftrightarrow> (let received_ack = SeqNumber (be_value (tcp_ack hdr)) in
     unat (peer_window_scale s) < 32 \<and> SeqNumber_le (last_ack_number s) received_ack \<and>
     SeqNumber_minus received_ack (last_ack_number s) \<le> unacknowledged_bytes s)"

definition acked_state :: "('w, 'z) tcp_client_scheme \<Rightarrow> tcp_header \<Rightarrow> ('w, 'z) tcp_client_scheme" where
  "acked_state s hdr = (let received_ack = SeqNumber (be_value (tcp_ack hdr));
       wnd = push_bit (unat (peer_window_scale s)) (ucast (be_value (tcp_window hdr)) :: u32) in
     s\<lparr>send_wnd := (if 0 < wnd then wnd else send_wnd s),
       unacknowledged_bytes := unacknowledged_bytes s - SeqNumber_minus received_ack (last_ack_number s),
       last_ack_number := received_ack\<rparr>)"

definition tcp_options :: "packet_view \<Rightarrow> error + byte option" where
  "tcp_options v = parse_options_loop (drop 20 (drop (tcp_off v) (v_mem v))) (sub64 (tcp_data_offset (tcp_hdr v)) 20) 0 None"

text \<open>
  The state whose numbers the acknowledgement of a segment carries: of a SYN-ACK while connecting, of data otherwise.
\<close>

definition acking :: "('w, 'z) tcp_client_scheme \<Rightarrow> packet_view \<Rightarrow> ('w, 'z) tcp_client_scheme" where
  "acking s v = (let received_seq = SeqNumber (be_value (tcp_seq (tcp_hdr v))); u = acked_state s (tcp_hdr v) in
     if cl_state s = Connecting
     then u\<lparr>cl_state := Connected, cl_ack := SeqNumber_add received_seq 1, cl_seq := SeqNumber_add (cl_seq s) 1,
       peer_window_scale := (case tcp_options v of Inr (Some x) \<Rightarrow> x | _ \<Rightarrow> peer_window_scale s)\<rparr>
     else u\<lparr>cl_ack := SeqNumber_add received_seq (of_nat (tcp_payload_size v))\<rparr>)"

text \<open>
  A segment that gives the client no reason to throw: it acknowledges only what is outstanding, the window it announces
  has room for a full frame, and the options of a SYN-ACK are well-formed.
\<close>

definition acceptable :: "('w, 'z) tcp_client_scheme \<Rightarrow> packet_view \<Rightarrow> bool" where
  "acceptable s v \<longleftrightarrow> ack_accepted s (tcp_hdr v) \<and> room (acked_state s (tcp_hdr v)) 1994 \<and>
     (cl_state s = Connecting \<longrightarrow> (case tcp_options v of Inl _ \<Rightarrow> False | Inr _ \<Rightarrow> True))"

section \<open>The accounting of the send window\<close>

lemma wp_free_on_throw [wp_simps]:
  "wp (free_on_throw api m body) Q E =
     wp body Q (\<lambda>e t. E e (t\<lparr>world := rte_pktmbuf_free api m (world t)\<rparr>))"
  by (auto simp: wp_def free_on_throw_def fun_eq_iff split: prod.splits sum.splits)


lemma reader_lift_result [reader_intros]: "reader (lift_result r)"
  by (cases r) (simp_all add: lift_result_def reader_intros)

lemma packet_readers [reader_intros]:
  "reader (load off n mem)" "reader (store off bs mem)" "reader (IP_header v)" "reader (IP_store_header h v)"
  "reader (IP_payload v)" "reader (IP_is_valid v)" "reader (IP_init sess p v)" "reader (IP_resize_payload n v)"
  "reader (IP_update_checksum ck4 v)" "reader (Tcp_header v)" "reader (Tcp_store off bs v)"
  "reader (Tcp_resize_payload n v)" "reader (Tcp_update_checksum ck v)" "reader (Tcp_init c f q a b v)"
  "reader (Tcp_is_valid v)" "reader (Tcp_payload v)" "reader (Tcp_parse_options v)"
  unfolding load_def store_def IP_header_def IP_store_header_def IP_payload_def IP_is_valid_def IP_init_def
    Eth_init_def IP_resize_payload_def IP_update_checksum_def Tcp_header_def Tcp_store_def Tcp_resize_payload_def
    Tcp_update_checksum_def Tcp_calc_checksum_def Tcp_init_def Tcp_is_valid_def Tcp_payload_def
    Tcp_parse_options_def
  by (intro reader_intros)+

lemma wp_get_send_buffer_frame:
  "wp (Client_get_send_buffer api flags opt) (\<lambda>_ t. t\<lparr>world := world s\<rparr> = s) (\<lambda>_ t. t\<lparr>world := world s\<rparr> = s) s"
  unfolding Client_get_send_buffer_def Sender_get_send_buffer_def Device_get_send_buffer_def
  by (simp add: wp_simps split: option.splits) (auto intro!: wp_reader packet_readers simp: wp_simps)

lemma wp_send_frame:
  "wp (Client_send api p n)
     (\<lambda>_ t. t\<lparr>world := world s\<rparr> = after_send n s \<and> add64 (unat (unacknowledged_bytes s)) n \<le> unat (send_wnd s))
     (\<lambda>_ t. t\<lparr>world := world s\<rparr> = s \<or>
        t\<lparr>world := world s\<rparr> = after_send n s \<and> add64 (unat (unacknowledged_bytes s)) n \<le> unat (send_wnd s)) s"
  unfolding Client_send_def Sender_send_raw_def Device_enqueue_packet_def
  by (simp add: wp_bindM wp_thenM wp_free_on_throw wp_gets wp_require wp_modify wp_world_call)
     (auto intro!: wp_reader packet_readers simp: after_send_def wp_simps)


lemma after_send_world: "after_send n (s\<lparr>world := w\<rparr>) = (after_send n s)\<lparr>world := w\<rparr>"
  by (simp add: after_send_def)

lemma Client_inv_world [simp]: "Client_inv lost (s\<lparr>world := w\<rparr>) = Client_inv lost s"
  by (simp add: Client_inv_def)

lemma Client_inv_after_send: "Client_inv lost s \<Longrightarrow> Client_inv lost (after_send n s)"
  by (auto simp: Client_inv_def after_send_def SeqNumber_add_def algebra_simps)

lemma Client_inv_same: "t\<lparr>world := w\<rparr> = s \<Longrightarrow> Client_inv lost s \<Longrightarrow> Client_inv lost t"
  by (metis Client_inv_world)

lemma same_client:
  assumes "t\<lparr>world := w\<rparr> = s"
  shows "unacknowledged_bytes t = unacknowledged_bytes s" "send_wnd t = send_wnd s" "cl_state t = cl_state s"
    "cl_ack t = cl_ack s" "cl_seq t = cl_seq s" "cl_connection t = cl_connection s"
  using assms by auto

text \<open>A send buffer that is filled and sent at once: what a call of \<^verbatim>\<open>send(get_send_buffer(..), n)\<close> leaves.\<close>

lemma wp_send_new:
  "wp (Client_get_send_buffer api f opt) (\<lambda>p. wp (Client_send api p n)
       (\<lambda>_ t. t\<lparr>world := world s\<rparr> = after_send n s)
       (\<lambda>_ t. t\<lparr>world := world s\<rparr> = s \<or> t\<lparr>world := world s\<rparr> = after_send n s))
     (\<lambda>_ t. t\<lparr>world := world s\<rparr> = s) s"
proof (rule wp_mono [OF wp_get_send_buffer_frame])
  fix p and t assume t: "t\<lparr>world := world s\<rparr> = s"
  have u: "u\<lparr>world := world s\<rparr> = after_send n s" if "u\<lparr>world := world t\<rparr> = after_send n t" for u
  proof -
    have "u\<lparr>world := world s\<rparr> = (u\<lparr>world := world t\<rparr>)\<lparr>world := world s\<rparr>" by simp
    also have "\<dots> = after_send n s" unfolding that after_send_world [symmetric] t ..
    finally show ?thesis .
  qed
  have v: "u\<lparr>world := world s\<rparr> = s" if "u\<lparr>world := world t\<rparr> = t" for u
  proof -
    have "u\<lparr>world := world s\<rparr> = (u\<lparr>world := world t\<rparr>)\<lparr>world := world s\<rparr>" by simp
    also have "\<dots> = s" unfolding that t ..
    finally show ?thesis .
  qed
  show "wp (Client_send api p n) (\<lambda>_ t. t\<lparr>world := world s\<rparr> = after_send n s)
       (\<lambda>_ t. t\<lparr>world := world s\<rparr> = s \<or> t\<lparr>world := world s\<rparr> = after_send n s) t"
    by (rule wp_mono [OF wp_send_frame]) (auto dest: u v)
qed

lemma wp_send_new_inv:
  assumes "Client_inv lost s"
  shows "wp (Client_get_send_buffer api f opt) (\<lambda>p. wp (Client_send api p 0) (\<lambda>_. Client_inv lost) (\<lambda>_. Client_inv lost))
     (\<lambda>_. Client_inv lost) s"
  by (rule wp_mono [OF wp_send_new], erule wp_mono)
     (use assms in \<open>auto intro: Client_inv_same Client_inv_after_send\<close>)

lemma wp_update_window_inv:
  "Client_inv lost s \<Longrightarrow> wp (Client_update_window hdr) (\<lambda>_. Client_inv lost) (\<lambda>_. Client_inv lost) s"
  by (simp add: Client_update_window_def Let_def wp_simps) (simp add: Client_inv_def)

lemma wp_process_ack_inv:
  "Client_inv lost s \<Longrightarrow> wp (Client_process_ack a) (\<lambda>_. Client_inv lost) (\<lambda>_. Client_inv lost) s"
  by (simp add: Client_process_ack_def Let_def wp_simps)
     (auto simp: Client_inv_def SeqNumber_minus_def algebra_simps)

lemma wp_finish_handshake_inv:
  assumes "Client_inv lost s" and "cl_state s = Connecting" and "last_ack_number s = received_ack"
  shows "wp (Client_finish_handshake api v received_seq received_ack) (\<lambda>_. Client_inv lost) (\<lambda>_. Client_inv lost) s"
proof -
  let ?s1 = "s\<lparr>cl_state := Connected, cl_ack := SeqNumber_add received_seq 1,
       cl_seq := SeqNumber_add (cl_seq s) 1, last_ack_number := received_ack\<rparr>"
  have "Client_inv lost ?s1" using assms by (simp add: Client_inv_def SeqNumber_add_def)
  then show ?thesis
    unfolding Client_finish_handshake_def wp_bindM wp_thenM wp_modify
    by (intro wp_reader packet_readers wp_send_new_inv) (auto simp: Client_inv_def split: option.splits)
qed

lemma wp_process_data_inv:
  assumes "Client_inv lost s"
  shows "wp (Client_process_data api v received_seq) (\<lambda>_. Client_inv lost) (\<lambda>_. Client_inv lost) s"
  using assms
  by (auto simp: Client_process_data_def wp_simps intro!: wp_reader packet_readers wp_send_new_inv)
     (simp add: Client_inv_def)

lemma wp_accept_segment_inv:
  assumes "Client_inv lost s"
  shows "wp (Client_accept_segment api v hdr) (\<lambda>_. Client_inv lost) (\<lambda>_. Client_inv lost) s"
proof -
  have ack: "wp (Client_process_ack a) (\<lambda>_ t. Client_inv lost t \<and> last_ack_number t = a) (\<lambda>_. Client_inv lost) t"
    if "Client_inv lost t" for a and t :: "('a, 'b) tcp_client_scheme"
    using wp_process_ack_inv [OF that, of a] by (simp add: Client_process_ack_def Let_def wp_simps)
  show ?thesis
    unfolding Client_accept_segment_def Let_def wp_thenM wp_bindM wp_gets
    by (rule wp_mono [OF wp_update_window_inv [OF assms]], erule wp_mono [OF ack])
       (auto intro: wp_finish_handshake_inv wp_process_data_inv)
qed

lemma wp_process_packet_inv:
  assumes "Client_inv lost s"
  shows "wp (Client_process_packet api v) (\<lambda>_. Client_inv lost) (\<lambda>_. Client_inv lost) s"
  unfolding Client_process_packet_def Let_def wp_bindM
  by (rule wp_reader [OF packet_readers(15)]) (auto simp: wp_simps wp_accept_segment_inv assms)


section \<open>The frames the client sends\<close>

lemma wp_get_send_buffer_open:
  assumes "dpdk_ok api wire"
  shows "wp (Client_get_send_buffer api flags opt)
     (\<lambda>sb t. t\<lparr>world := world s\<rparr> = s \<and> wire (world t) = wire (world s) \<and> open_buffer s flags opt sb)
     (\<lambda>_ t. t\<lparr>world := world s\<rparr> = s \<and> wire (world t) = wire (world s) \<and> \<not> dpdk_reliable api) s"
proof (cases "fst (rte_pktmbuf_alloc api (world s))")
  case None
  then have "\<not> dpdk_reliable api" by (auto simp: dpdk_reliable_def)
  with None show ?thesis
    using assms unfolding Client_get_send_buffer_def Sender_get_send_buffer_def Device_get_send_buffer_def
    by (simp add: wp_simps)
next
  case (Some m)
  define tx where "tx = (rte_pktmbuf_reset api m)\<lparr>m_l2_len := 14, m_l3_len := 20, m_l4_len := 32,
     m_ol_flags := m_ol_flags (rte_pktmbuf_reset api m) OR RTE_MBUF_F_TX_flags api\<rparr>"
  let ?v = "TxPacket_view api tx" and ?w = "snd (rte_pktmbuf_alloc api (world s))"
  have v: "length (v_mem ?v) = 2048" "v_size ?v = 2176"
    using pool_alloc [OF assms Some] assms by (simp_all add: TxPacket_view_def tx_def)
  have i: "wp (Tcp_init (cl_connection s) flags (cl_seq s) (cl_ack s) opt ?v)
    (\<lambda>v' s'. s' = s\<lparr>world := ?w\<rparr> \<and> length (v_mem v') = 2048 \<and>
      tcp_frame (cl_connection s) flags (cl_seq s) (cl_ack s) opt v' \<and>
      unat (be_value (ip_total_length (ip_hdr v'))) = 2162 \<and>
      ip_check (ip_hdr v') = BE 0 \<and> tcp_checksum (tcp_hdr v') = BE 0) (\<lambda>_ _. False) (s\<lparr>world := ?w\<rparr>)"
    by (rule wp_mono [OF wp_Tcp_init]) (auto simp: v tcp_header_length_def)
  have o: "open_buffer s flags opt \<lparr>sb_tcp = v'\<lparr>v_mem := poke 14 (enc_ip (ip_hdr v'\<lparr>ip_id_field := BE (cl_ip_id s)\<rparr>)) (v_mem v')\<rparr>, sb_tx = tx\<rparr>"
    if "length (v_mem v') = 2048" "tcp_frame (cl_connection s) flags (cl_seq s) (cl_ack s) opt v'"
      "unat (be_value (ip_total_length (ip_hdr v'))) = 2162" "ip_check (ip_hdr v') = BE 0" "tcp_checksum (tcp_hdr v') = BE 0" for v'
  proof -
    have "tcp_frame (cl_connection s) flags (cl_seq s) (cl_ack s) opt
        (v'\<lparr>v_mem := poke 14 (enc_ip (ip_hdr v'\<lparr>ip_id_field := BE (cl_ip_id s)\<rparr>)) (v_mem v')\<rparr>)"
      using that(2) by (intro tcp_frame_ip_stored) (auto simp: tcp_frame_def)
    then show ?thesis using that by (simp add: open_buffer_def tcp_frame_def)
  qed
  show ?thesis
    using assms Some unfolding Client_get_send_buffer_def Sender_get_send_buffer_def Device_get_send_buffer_def
    by (simp add: wp_simps flip: tx_def) (rule wp_mono [OF i], auto simp: o)
qed

lemma wp_send_open:
  assumes "dpdk_ok api wire" and "open_buffer s flags opt sb"
    and "chunk (34 + tcp_header_length opt) (length p) (v_mem (sb_tcp sb)) = p" and "34 + tcp_header_length opt + length p \<le> 2048"
  shows "wp (Client_send api sb (length p))
     (\<lambda>_ t. t\<lparr>world := world s\<rparr> = after_send (length p) s \<and>
        unat (unacknowledged_bytes s) + length p \<le> unat (send_wnd s) \<and>
        (\<exists>m. wire (world t) = wire (world s) @ [m] \<and> client_frame api s flags opt p m))
     (\<lambda>_ t. wire (world t) = wire (world s) \<and> (room s (length p) \<longrightarrow> \<not> dpdk_reliable api)) s"
proof -
  let ?n = "34 + tcp_header_length opt + length p"
  have frame: "tcp_frame (cl_connection s) flags (cl_seq s) (cl_ack s) opt (sb_tcp sb)" "length (v_mem (sb_tcp sb)) = 2048"
    "ip_id_field (ip_hdr (sb_tcp sb)) = BE (cl_ip_id s)" "ip_check (ip_hdr (sb_tcp sb)) = BE 0"
    "tcp_checksum (tcp_hdr (sb_tcp sb)) = BE 0"
    using assms(2) by (simp_all add: open_buffer_def)
  have "unat (unacknowledged_bytes s) < 2 ^ 32" using unsigned_less [of "unacknowledged_bytes s", where 'a = nat] by simp
  then have un: "add64 (unat (unacknowledged_bytes s)) (length p) = unat (unacknowledged_bytes s) + length p"
    using assms(4) by simp
  have f: "client_frame api s flags opt p (set_lengths (v_size v) ((sb_tx sb)\<lparr>m_data := v_mem v\<rparr>))"
    if "tcp_frame (cl_connection s) flags (cl_seq s) (cl_ack s) opt v" "v_size v = ?n"
      "unat (be_value (ip_total_length (ip_hdr v))) = 20 + tcp_header_length opt + length p"
      "ip_id_field (ip_hdr v) = BE (cl_ip_id s)" "length (v_mem v) = 2048"
      "drop 54 (v_mem v) = drop 54 (v_mem (sb_tcp sb))" "checksums_ok (rte_ipv4_cksum api) (rte_ipv4_udptcp_cksum api) v" for v
  proof -
    have hl: "34 + tcp_header_length opt = 54 + (if opt then 12 else 0)" by (simp add: tcp_header_length_def)
    have "drop (34 + tcp_header_length opt) (v_mem v) = drop (34 + tcp_header_length opt) (v_mem (sb_tcp sb))"
      unfolding hl using arg_cong [OF that(6), of "drop (if opt then 12 else 0)"] by (simp add: add.commute)
    then have "chunk (34 + tcp_header_length opt) (length p) (v_mem v) = p" using assms(3) by (simp add: chunk_def)
    moreover have ve: "\<lparr>v_mem = v_mem v, v_size = ?n\<rparr> = v" using that(2) by simp
    ultimately show ?thesis
      using that assms(4) by (simp add: client_frame_def set_lengths_def Let_def ve del: of_nat_add)
  qed
  have send: "wp (thenM (modify (\<lambda>s. s\<lparr>cl_ip_id := cl_ip_id s + 1, cl_seq := SeqNumber_add (cl_seq s) (of_nat (length p)),
       unacknowledged_bytes := unacknowledged_bytes s + of_nat (length p)\<rparr>))
     (Sender_send_raw api ((sb_tx sb)\<lparr>m_data := v_mem v\<rparr>) (v_size (Eth_raw_bytes v))))
     (\<lambda>_ t. t\<lparr>world := world s\<rparr> = after_send (length p) s \<and>
        (\<exists>m. wire (world t) = wire (world s) @ [m] \<and> client_frame api s flags opt p m))
     (\<lambda>_ t. wire (world t) = wire (world s) \<and> \<not> dpdk_reliable api) s"
    if "client_frame api s flags opt p (set_lengths (v_size v) ((sb_tx sb)\<lparr>m_data := v_mem v\<rparr>))" for v
    using that tx_burst_wire [OF assms(1), of _ _ "[set_lengths (v_size v) ((sb_tx sb)\<lparr>m_data := v_mem v\<rparr>)]"]
    by (auto simp: dpdk_reliable_def Sender_send_raw_def Device_enqueue_packet_def Eth_raw_bytes_def wp_simps after_send_def le_Suc_eq)
  have n: "20 + tcp_header_length opt + length p < 65536" using assms(4) by simp
  show ?thesis
    unfolding Client_send_def
    apply (subst wp_bindM, subst wp_free_on_throw, subst wp_bindM, subst wp_gets, subst wp_thenM, subst wp_require)
    using assms(1) un
    by (auto intro!: wp_mono [OF wp_Tcp_seal [where E = \<open>\<lambda>_ _. False\<close>, OF frame(1) n frame(5,4)]] wp_mono [OF send] f simp: frame room_def)
qed


lemma client_frame_world [simp]: "client_frame api (s\<lparr>world := w\<rparr>) = client_frame api s"
  by (simp add: client_frame_def fun_eq_iff Let_def)

lemma open_buffer_world [simp]: "open_buffer (s\<lparr>world := w\<rparr>) = open_buffer s"
  by (simp add: open_buffer_def fun_eq_iff)

lemma wp_send_new_open:
  assumes "dpdk_ok api wire"
  shows "wp (Client_get_send_buffer api f opt) (\<lambda>sb. wp (Client_send api sb 0)
       (\<lambda>_ t. t\<lparr>world := world s\<rparr> = after_send 0 s \<and>
          (\<exists>m. wire (world t) = wire (world s) @ [m] \<and> client_frame api s f opt [] m))
       (\<lambda>_ t. wire (world t) = wire (world s) \<and> (room s 0 \<longrightarrow> \<not> dpdk_reliable api)))
     (\<lambda>_ t. wire (world t) = wire (world s) \<and> \<not> dpdk_reliable api) s"
proof -
  have send: "wp (Client_send api sb 0) (\<lambda>_ u. \<exists>m. wire (world u) = wire (world s) @ [m] \<and> client_frame api s f opt [] m)
       (\<lambda>_ u. wire (world u) = wire (world s) \<and> (room s 0 \<longrightarrow> \<not> dpdk_reliable api)) t"
    if t: "t\<lparr>world := world s\<rparr> = s" "wire (world t) = wire (world s)" and "open_buffer s f opt sb" for sb t
  proof -
    have "open_buffer t f opt sb" "client_frame api t = client_frame api s"
      using that(3) open_buffer_world [of "world s" t] client_frame_world [of api "world s" t] unfolding t(1) by simp_all
    moreover have "34 + tcp_header_length opt + 0 \<le> 2048" by (simp add: tcp_header_length_def)
    ultimately show ?thesis
      using t(2) wp_send_open [OF assms, of t f opt sb "[]"] same_client [OF t(1)] by (auto simp: room_def elim!: wp_mono)
  qed
  have "wp (Client_get_send_buffer api f opt) (\<lambda>sb. wp (Client_send api sb 0)
       (\<lambda>_ u. \<exists>m. wire (world u) = wire (world s) @ [m] \<and> client_frame api s f opt [] m)
       (\<lambda>_ u. wire (world u) = wire (world s) \<and> (room s 0 \<longrightarrow> \<not> dpdk_reliable api)))
     (\<lambda>_ t. wire (world t) = wire (world s) \<and> \<not> dpdk_reliable api) s"
    by (rule wp_mono [OF wp_get_send_buffer_open [OF assms]]) (auto intro: send)
  moreover note wp_send_new [of api f opt 0 s]
  ultimately show ?thesis
    by (auto simp: wp_def split: prod.splits sum.splits)
qed

lemma wp_step: "m s = (r, t) \<Longrightarrow> wp m (\<lambda>_. P) (\<lambda>_. P) s = P t"
  by (auto simp: wp_def split: sum.splits)

lemma wp_connect_inv:
  assumes "Client_inv lost s" and "cl_state s = Offline" and "unacknowledged_bytes s = 0"
  shows "wp (Client_connect api) (\<lambda>_. Client_inv lost) (\<lambda>_ t. Client_inv (lost + (if cl_state t = Connecting then 1 else 0)) t) s"
proof -
  have c: "Client_inv lost (t\<lparr>unacknowledged_bytes := 1\<rparr>)"
    if "t\<lparr>world := w\<rparr> = after_send 0 (s\<lparr>world := w, cl_state := Connecting\<rparr>)" for t w
  proof -
    have "(t\<lparr>unacknowledged_bytes := 1\<rparr>)\<lparr>world := w\<rparr> = (t\<lparr>world := w\<rparr>)\<lparr>unacknowledged_bytes := 1\<rparr>" by simp
    note e = this [unfolded that]
    show ?thesis
      using assms by (intro Client_inv_same [OF e]) (simp add: Client_inv_def after_send_def SeqNumber_add_def)
  qed
  have d: "cl_state t = Connecting \<and> Client_inv (lost + 1) t"
    if "t\<lparr>world := w\<rparr> = s\<lparr>world := w, cl_state := Connecting\<rparr> \<or> t\<lparr>world := w\<rparr> = after_send 0 (s\<lparr>world := w, cl_state := Connecting\<rparr>)" for t w
  proof -
    have "cl_state t = Connecting" using that by (elim disjE; drule_tac f = cl_state in arg_cong) (simp_all add: after_send_def)
    moreover have "Client_inv (lost + 1) t"
      using that assms by (elim disjE; elim Client_inv_same) (simp_all add: Client_inv_def after_send_def SeqNumber_add_def algebra_simps)
    ultimately show ?thesis by simp
  qed
  show ?thesis
    unfolding Client_connect_def Sender_get_send_buffer_def Device_get_send_buffer_def
    by (simp add: wp_simps assms(1,2) split: option.splits, clarify)
       (rule wp_mono [OF wp_send_new], erule wp_mono, auto dest: d [OF disjI1] d [OF disjI2] intro!: c)
qed

lemma wp_send_rst_inv:
  assumes "Client_inv lost s" and "cl_state s = Connected"
  shows "wp (Client_send_rst api) (\<lambda>_. Client_inv lost) (\<lambda>_. Client_inv lost) s"
proof -
  have c: "Client_inv lost (t\<lparr>cl_state := Offline\<rparr>)" "Client_inv lost t"
    if "t\<lparr>world := w\<rparr> = after_send 0 (s\<lparr>world := w\<rparr>)" for t w
  proof -
    have "(t\<lparr>cl_state := Offline\<rparr>)\<lparr>world := w\<rparr> = (t\<lparr>world := w\<rparr>)\<lparr>cl_state := Offline\<rparr>" by simp
    note e = this [unfolded that]
    show "Client_inv lost (t\<lparr>cl_state := Offline\<rparr>)"
      using assms by (intro Client_inv_same [OF e]) (simp add: Client_inv_def after_send_def SeqNumber_add_def)
    show "Client_inv lost t"
      using assms by (intro Client_inv_same [OF that]) (simp add: Client_inv_def after_send_def SeqNumber_add_def)
  qed
  have d: "Client_inv lost t" if "t\<lparr>world := w\<rparr> = s\<lparr>world := w\<rparr>" for t w
    using assms by (intro Client_inv_same [OF that]) simp
  show ?thesis
    unfolding Client_send_rst_def Sender_get_send_buffer_def Device_get_send_buffer_def
    using assms(1)
    by (simp add: wp_simps split: option.splits, clarify)
       (rule wp_mono [OF wp_send_new], erule wp_mono, auto intro: c d)
qed

lemma tcp_step_inv:
  assumes "tcp_step api s k t" and "Client_inv lost s"
  shows "Client_inv (lost + of_nat k) t"
  using assms(1)
proof (cases rule: tcp_step.cases)
  case Connect
  then show ?thesis using wp_connect_inv [OF assms(2), of api] by (simp add: wp_def)
next
  case (Connect_throws e)
  then show ?thesis using wp_connect_inv [OF assms(2), of api] by (auto simp: wp_def)
next
  case (Process v r)
  then show ?thesis using wp_process_packet_inv [OF assms(2), of api v] by (simp add: wp_step)
next
  case (Send sb n r)
  have "wp (Client_send api sb n) (\<lambda>_. Client_inv lost) (\<lambda>_. Client_inv lost) s"
    by (intro wp_mono [OF wp_send_frame]) (use assms(2) in \<open>auto intro: Client_inv_same Client_inv_after_send\<close>)
  then show ?thesis using Send by (simp add: wp_step)
next
  case (Buffer flags opt r)
  have "wp (Client_get_send_buffer api flags opt) (\<lambda>_. Client_inv lost) (\<lambda>_. Client_inv lost) s"
    by (rule wp_mono [OF wp_get_send_buffer_frame]) (use assms(2) in \<open>auto intro: Client_inv_same\<close>)
  then show ?thesis using Buffer by (simp add: wp_step)
next
  case (Reset r)
  then show ?thesis using wp_send_rst_inv [OF assms(2), of api] by (simp add: wp_step)
qed

lemma tcp_reachable_inv: "tcp_reachable api s0 n s \<Longrightarrow> Client_inv 0 s0 \<Longrightarrow> Client_inv (of_nat n) s"
  by (induction rule: tcp_reachable.induct) (auto dest: tcp_step_inv)


section \<open>Writing the payload\<close>

lemma tcp_frame_prefix:
  assumes "tcp_frame c f q a opt v" and "take (34 + tcp_header_length opt) m = take (34 + tcp_header_length opt) (v_mem v)"
    and "length m = length (v_mem v)"
  shows "tcp_frame c f q a opt (v\<lparr>v_mem := m\<rparr>)" and "ip_hdr (v\<lparr>v_mem := m\<rparr>) = ip_hdr v"
    and "tcp_hdr (v\<lparr>v_mem := m\<rparr>) = tcp_hdr v"
proof -
  have c: "chunk i n m = chunk i n (v_mem v)" if "i + n \<le> 34 + tcp_header_length opt" for i n
  proof -
    have "chunk i n (take (34 + tcp_header_length opt) xs) = chunk i n xs" for xs :: bytes
      using that by (simp add: chunk_def drop_take min_def)
    then show ?thesis using assms(2) by metis
  qed
  have hl: "20 \<le> tcp_header_length opt" "opt \<Longrightarrow> tcp_header_length opt = 32" by (simp_all add: tcp_header_length_def)
  show ip: "ip_hdr (v\<lparr>v_mem := m\<rparr>) = ip_hdr v" using hl by (simp add: ip_hdr_def c)
  have off: "tcp_off (v\<lparr>v_mem := m\<rparr>) = 34" "tcp_off v = 34"
    using tcp_frame_off [OF assms(1)] ip by (simp_all add: tcp_off_def)
  show tcp: "tcp_hdr (v\<lparr>v_mem := m\<rparr>) = tcp_hdr v" using hl by (simp add: tcp_hdr_def c off)
  have "eth_hdr (v\<lparr>v_mem := m\<rparr>) = eth_hdr v" by (simp add: eth_hdr_def c)
  then show "tcp_frame c f q a opt (v\<lparr>v_mem := m\<rparr>)"
    using assms(1,3) ip tcp hl c [of 54 12] by (auto simp: tcp_frame_def)
qed

lemma open_buffer_written:
  assumes "open_buffer s f opt sb" and "length (ws_mem ws) = 2014 - tcp_header_length opt"
  shows "open_buffer s f opt (sb_written ws sb)"
    and "drop (34 + tcp_header_length opt) (v_mem (sb_tcp (sb_written ws sb))) = ws_mem ws"
proof -
  let ?v = "sb_tcp sb" and ?k = "34 + tcp_header_length opt"
  let ?m = "take ?k (v_mem ?v) @ ws_mem ws"
  have l: "length (v_mem ?v) = 2048" "tcp_header_length opt \<le> 32" using assms(1) by (simp_all add: open_buffer_def tcp_header_length_def)
  then have w: "sb_tcp (sb_written ws sb) = ?v\<lparr>v_mem := ?m\<rparr>" using assms(2) by (simp add: sb_written_def)
  have "tcp_frame (cl_connection s) f (cl_seq s) (cl_ack s) opt ?v" using assms(1) by (simp add: open_buffer_def)
  from tcp_frame_prefix [OF this, of ?m] l assms show "open_buffer s f opt (sb_written ws sb)"
    by (simp add: open_buffer_def w)
  show "drop ?k (v_mem (sb_tcp (sb_written ws sb))) = ws_mem ws" using l by (simp add: w)
qed

lemma wp_payload_write_stream:
  assumes "open_buffer s f opt sb"
  shows "wp (Tcp_payload_write_stream (sb_tcp sb)) Q E =
     Q (WriteStream_new (drop (34 + tcp_header_length opt) (v_mem (sb_tcp sb))) (2142 - tcp_header_length opt))"
proof -
  have "tcp_header_length opt \<le> 32" by (simp add: tcp_header_length_def)
  then show ?thesis
    using assms tcp_frame_off [of "cl_connection s" f "cl_seq s" "cl_ack s" opt "sb_tcp sb"]
    by (auto simp: Tcp_payload_write_stream_def Tcp_payload_def wp_simps open_buffer_def tcp_frame_def add.commute)
qed


lemma wp_push_payload:
  assumes "open_buffer s f opt sb"
  shows "wp (bindM (Tcp_payload_write_stream (sb_tcp sb)) (\<lambda>ws. run_local (WriteStream_push_bytes p) ws)) Q E t =
    (if 2142 - tcp_header_length opt < length p then E (Runtime_error ''Out of bounds'') t
     else if 2014 - tcp_header_length opt < length p then E (Undefined_behaviour ''write past the buffer'') t
     else Q \<lparr>ws_mem = poke 0 p (drop (34 + tcp_header_length opt) (v_mem (sb_tcp sb))),
             ws_cap = 2142 - tcp_header_length opt, write_it = length p\<rparr> t)"
  using assms
  by (auto simp: wp_payload_write_stream [OF assms] wp_simps WriteStream_push_bytes_def WriteStream_new_def open_buffer_def)

lemma wp_send_payload:
  assumes "dpdk_ok api wire" and "open_buffer s flags opt sb" and "34 + tcp_header_length opt + length p \<le> 2048"
  shows "wp (bindM (bindM (Tcp_payload_write_stream (sb_tcp sb)) (\<lambda>ws. run_local (WriteStream_push_bytes p) ws))
       (\<lambda>ws. Client_send api (sb_written ws sb) (WriteStream_size ws)))
     (\<lambda>_ t. t\<lparr>world := world s\<rparr> = after_send (length p) s \<and>
        unat (unacknowledged_bytes s) + length p \<le> unat (send_wnd s) \<and>
        (\<exists>m. wire (world t) = wire (world s) @ [m] \<and> client_frame api s flags opt p m))
     (\<lambda>_ t. wire (world t) = wire (world s)) s"
proof -
  let ?ws = "\<lparr>ws_mem = poke 0 p (drop (34 + tcp_header_length opt) (v_mem (sb_tcp sb))),
             ws_cap = 2142 - tcp_header_length opt, write_it = length p\<rparr>"
  have "length (v_mem (sb_tcp sb)) = 2048" using assms(2) by (simp add: open_buffer_def)
  then have l: "length (ws_mem ?ws) = 2014 - tcp_header_length opt" using assms(3) by simp
  note o = open_buffer_written [OF assms(2) l]
  have "chunk (34 + tcp_header_length opt) (length p) (v_mem (sb_tcp (sb_written ?ws sb))) = p"
    unfolding chunk_def o(2) by (simp add: poke_def)
  from wp_send_open [OF assms(1) o(1) this assms(3)] assms(3) show ?thesis
    by (subst wp_bindM, subst wp_push_payload [OF assms(2)]) (auto simp: WriteStream_size_def elim: wp_mono)
qed


section \<open>Received segments\<close>

lemma client_frame_cong:
  "cl_connection s = cl_connection t \<Longrightarrow> cl_seq s = cl_seq t \<Longrightarrow> cl_ack s = cl_ack t \<Longrightarrow> cl_ip_id s = cl_ip_id t \<Longrightarrow>
     client_frame api s = client_frame api t"
  by (simp add: client_frame_def fun_eq_iff Let_def)

lemma wp_Tcp_payload [wp_simps]:
  "wp (Tcp_payload v) Q E =
     (if 34 \<le> length (v_mem v) \<and> tcp_off v + 20 \<le> length (v_mem v)
      then Q \<lparr>v_mem = drop (tcp_off v + tcp_data_offset (tcp_hdr v)) (v_mem v), v_size = tcp_payload_size v\<rparr>
      else E (Undefined_behaviour ''read past the buffer''))"
  by (auto simp: Tcp_payload_def wp_simps tcp_payload_size_def add.commute)

lemma wp_Tcp_parse_options:
  "wp (Tcp_parse_options v) Q E s =
     (if 34 \<le> length (v_mem v) \<and> tcp_off v + 20 \<le> length (v_mem v)
      then case tcp_options v of Inl e \<Rightarrow> E e s | Inr r \<Rightarrow> Q r s
      else E (Undefined_behaviour ''read past the buffer'') s)"
  by (auto simp: Tcp_parse_options_def tcp_options_def wp_simps add.commute lift_result_def split: sum.splits)

text \<open>The bookkeeping before the handshake or the data: only the window and the acknowledgement state change.\<close>

lemma wp_window_and_ack:
  assumes "ack_accepted s hdr \<Longrightarrow> Q () (acked_state s hdr)"
    and "\<And>e t. \<not> ack_accepted s hdr \<Longrightarrow> world t = world s \<Longrightarrow> E e t"
  shows "wp (Client_update_window hdr) (\<lambda>_. wp (Client_process_ack (SeqNumber (be_value (tcp_ack hdr)))) Q E) E s"
  using assms
  by (auto simp: Client_update_window_def Client_process_ack_def Let_def wp_simps ack_accepted_def acked_state_def)

lemma same_segment_sent: "t\<lparr>world := w\<rparr> = after_send n s \<Longrightarrow> same_segment_state t (after_send n s)"
proof -
  assume "t\<lparr>world := w\<rparr> = after_send n s"
  then have "same_segment_state (t\<lparr>world := w\<rparr>) (after_send n s)" by (simp only: same_segment_state_def simp_thms)
  then show ?thesis by (simp add: same_segment_state_def)
qed

text \<open>The acknowledgement of a segment: one packet, or an error for which there is a reason.\<close>

lemma wp_ack_reply:
  assumes "dpdk_ok api wire"
  shows "wp (Client_get_send_buffer api Flags_ACK False) (\<lambda>sb. wp (Client_send api sb 0)
       (\<lambda>_ t. same_segment_state t (after_send 0 s) \<and> (\<exists>m. wire (world t) = wire (world s) @ [m] \<and> client_frame api s Flags_ACK False [] m))
       (\<lambda>_ t. wire (world t) = wire (world s) \<and> (room s 0 \<longrightarrow> \<not> dpdk_reliable api)))
     (\<lambda>_ t. wire (world t) = wire (world s) \<and> \<not> dpdk_reliable api) s"
  by (rule wp_mono [OF wp_send_new_open [OF assms]], erule wp_mono) (auto dest: same_segment_sent)

definition segment_acknowledged ::
    "'w dpdk_api \<Rightarrow> ('w \<Rightarrow> mbuf list) \<Rightarrow> ('w, 'z) tcp_client_scheme \<Rightarrow> packet_view \<Rightarrow> ('w, 'z) tcp_client_scheme \<Rightarrow> bool" where
  "segment_acknowledged api wire s v t \<longleftrightarrow> same_segment_state t (after_send 0 (acking s v)) \<and>
     (\<exists>m. wire (world t) = wire (world s) @ [m] \<and> client_frame api (acking s v) Flags_ACK False [] m)"

lemma wp_accept_segment:
  assumes "dpdk_ok api wire" and "34 \<le> length (v_mem v)" and "tcp_off v + 20 \<le> length (v_mem v)"
    and "cl_state s = Connecting \<and> tcp_flags (tcp_hdr v) = Flags_SYN_ACK \<or> cl_state s = Connected \<and> tcp_payload_size v \<noteq> 0"
  shows "wp (Client_accept_segment api v (tcp_hdr v)) (\<lambda>_ t. segment_acknowledged api wire s v t)
     (\<lambda>_ t. wire (world t) = wire (world s) \<and> (acceptable s v \<longrightarrow> \<not> dpdk_reliable api)) s"
proof -
  have w: "world (acked_state s hdr) = world s" "cl_state (acked_state s hdr) = cl_state s" for hdr
    by (simp_all add: acked_state_def Let_def)
  have r: "room (acked_state s (tcp_hdr v)) 1994 \<Longrightarrow> room (acking s v) 0" by (simp add: room_def acking_def Let_def)
  have a: "world (acking s v) = world s" by (simp add: acking_def Let_def w)
  have bad: "cl_state s = Connecting \<Longrightarrow> tcp_options v = Inl e \<Longrightarrow> \<not> acceptable s v" for e by (simp add: acceptable_def)
  have reply: "wp (Client_get_send_buffer api Flags_ACK False) (\<lambda>sb. wp (Client_send api sb 0)
      (\<lambda>_ t. segment_acknowledged api wire s v t)
      (\<lambda>_ t. wire (world t) = wire (world s) \<and> (acceptable s v \<longrightarrow> \<not> dpdk_reliable api)))
    (\<lambda>_ t. wire (world t) = wire (world s) \<and> (acceptable s v \<longrightarrow> \<not> dpdk_reliable api)) u" if "u = acking s v" for u
    unfolding that
    by (rule wp_mono [OF wp_ack_reply [OF assms(1)]]; (erule wp_mono)?)
       (use a r in \<open>auto simp: segment_acknowledged_def acceptable_def\<close>)
  show ?thesis
    unfolding Client_accept_segment_def Let_def wp_thenM wp_bindM wp_gets
  proof (rule wp_window_and_ack, goal_cases)
    case 1
    show ?case
      unfolding w Client_finish_handshake_def Client_process_data_def
      using assms(2-4)
      by (auto simp: wp_simps wp_Tcp_parse_options w bad split: sum.splits option.splits intro!: reply)
         (auto simp: acking_def acked_state_def Let_def)
  qed (simp add: acceptable_def)
qed

text \<open>A segment that passes the checks of \<^verbatim>\<open>process_packet\<close>.\<close>

lemma wp_process_packet_accepted:
  assumes "IP_is_valid v s = (Inr True, s)" and "\<not> has_flag (tcp_flags (tcp_hdr v)) Flags_RST"
    and "SeqNumber (be_value (tcp_seq (tcp_hdr v))) = cl_ack s \<or> cl_ack s = SeqNumber 0"
  shows "wp (Client_process_packet api v) Q E s =
     (if 34 \<le> length (v_mem v) \<and> tcp_off v + 20 \<le> length (v_mem v)
      then wp (Client_accept_segment api v (tcp_hdr v)) Q E s else E (Undefined_behaviour ''read past the buffer'') s)"
proof -
  have "Tcp_is_valid v s = (Inr True, s)" using assms(1) by (simp add: Tcp_is_valid_def)
  moreover have "\<not> SeqNumber_less a a" for a by (simp add: SeqNumber_less_def SeqNumber_compare_def)
  ultimately show ?thesis
    using assms(2,3)
    by (auto simp: Client_process_packet_def Let_def wp_simps wp_def [of "Tcp_is_valid v"])
qed

lemma demo_segment_headers [simp]:
  "ip_hdr (demo_segment flags seq ack p) = IP_init_header demo_session IpProtocol_Tcp (40 + length p)"
  "tcp_hdr (demo_segment flags seq ack p) = demo_header flags seq ack"
  "tcp_off (demo_segment flags seq ack p) = 34" "length (v_mem (demo_segment flags seq ack p)) = 54 + length p"
  "length p < 1000 \<Longrightarrow> IP_is_valid (demo_segment flags seq ack p) s = (Inr True, s)"
  "length p < 1000 \<Longrightarrow> tcp_payload_size (demo_segment flags seq ack p) = length p"
proof -
  let ?v = "demo_segment flags seq ack p"
  show i: "ip_hdr ?v = IP_init_header demo_session IpProtocol_Tcp (40 + length p)"
    by (simp add: ip_hdr_def demo_segment_def chunk_def ip_hdr_mem.dec_enc del: of_nat_add)
  then show o: "tcp_off ?v = 34" by (simp add: tcp_off_def)
  then show t: "tcp_hdr ?v = demo_header flags seq ack"
    by (simp add: tcp_hdr_def o) (simp add: demo_segment_def chunk_def tcp_mem.dec_enc del: of_nat_add)
  show l: "length (v_mem ?v) = 54 + length p" by (simp add: demo_segment_def)
  assume p: "length p < 1000"
  have "wp (IP_is_valid ?v) (\<lambda>b t. b \<and> t = s) (\<lambda>_ _. False) s"
    using p by (simp add: IP_is_valid_def wp_simps Let_def i l del: of_nat_add) (simp add: demo_segment_def)
  then show "IP_is_valid ?v s = (Inr True, s)" by (auto simp: wp_def split: prod.splits sum.splits)
  show "tcp_payload_size ?v = length p"
    using p by (simp add: tcp_payload_size_def i t demo_header_def tcp_data_offset_def data_offset_scaled_def del: of_nat_add)
qed

lemma demo_header_simps [simp]:
  "tcp_flags (demo_header flags seq ack) = flags" "tcp_seq (demo_header flags seq ack) = BE seq"
  "tcp_ack (demo_header flags seq ack) = BE ack"
  by (simp_all add: demo_header_def)

lemma demo_client_simps [simp]:
  "cl_state (demo_client st ack) = st" "cl_ack (demo_client st ack) = SeqNumber ack"
  "lw_wire (world (demo_client st ack)) = []"
  by (simp_all add: demo_client_def Client_new_def device.defs tcp_client.defs loop_device_def)

text \<open>What \<^verbatim>\<open>connect\<close> leaves: the request on the wire and the client waiting for its answer.\<close>

lemma wp_connect:
  assumes "dpdk_ok api wire"
  shows "wp (Client_connect api) (\<lambda>_ t. (\<exists>w. t = (after_send 0 s)\<lparr>cl_state := Connecting, unacknowledged_bytes := 1, world := w\<rparr>) \<and>
       (\<exists>m. wire (world t) = wire (world s) @ [m] \<and> client_frame api s Flags_SYN True [] m))
     (\<lambda>_ t. wire (world t) = wire (world s) \<and> (room s 0 \<longrightarrow> \<not> dpdk_reliable api)) s"
proof -
  have d: "fst (rte_pktmbuf_alloc api w) = None \<Longrightarrow> \<not> dpdk_reliable api" for w by (auto simp: dpdk_reliable_def)
  note free = pool_wire(2) [OF assms]
  have f: "client_frame api (s\<lparr>world := w, cl_state := x\<rparr>) = client_frame api s" for w x by (rule client_frame_cong) simp_all
  have e: "t\<lparr>unacknowledged_bytes := 1, world := v\<rparr> = (after_send 0 s)\<lparr>cl_state := Connecting, unacknowledged_bytes := 1, world := v\<rparr>"
    if t: "t\<lparr>world := w\<rparr> = after_send 0 (s\<lparr>world := w, cl_state := Connecting\<rparr>)" for t w v
  proof -
    have "t = t\<lparr>world := w, world := world t\<rparr>" by simp
    then obtain y where y: "t = (after_send 0 (s\<lparr>world := w, cl_state := Connecting\<rparr>))\<lparr>world := y\<rparr>" unfolding t by blast
    show ?thesis unfolding y by (simp add: after_send_def)
  qed
  show ?thesis
    unfolding Client_connect_def Sender_get_send_buffer_def Device_get_send_buffer_def
    by (simp add: wp_simps free d pool_wire(1) [OF assms] split: option.splits, clarify)
       (rule wp_mono [OF wp_send_new_open [OF assms]], erule wp_mono, use e in \<open>auto simp: f free room_def pool_wire(1) [OF assms]\<close>)
qed

section \<open>What the TCP client leaves alone\<close>

text \<open>
  The contract of a part of the state of whatever is built on the TCP client, that sending leaves alone: it does not
  depend on the world, nor on the fields the TCP client changes when it sends.
\<close>

locale send_frame_condition =
  fixes part :: "('w, 'z) tcp_client_scheme \<Rightarrow> 'b"
  assumes world_kept: "part (s\<lparr>world := w\<rparr>) = part s"
    and unacknowledged_bytes_kept: "part (s\<lparr>unacknowledged_bytes := v1\<rparr>) = part s"
    and cl_seq_kept: "part (s\<lparr>cl_seq := v4\<rparr>) = part s"
    and cl_ip_id_kept: "part (s\<lparr>cl_ip_id := v6\<rparr>) = part s"
begin

lemmas send_field_kept [simp] = world_kept unacknowledged_bytes_kept cl_seq_kept cl_ip_id_kept

lemma keeps_world_call: "keeps part (world_call f)"
  by (auto simp: keeps_def world_call_def split: prod.splits)

lemma keeps_free_on_throw: "keeps part m \<Longrightarrow> keeps part (free_on_throw api x m)"
  by (auto simp: keeps_def free_on_throw_def split: prod.splits sum.splits) (metis snd_conv)+

lemma keeps_packet: "reader m \<Longrightarrow> keeps part m"
  by (rule keeps_reader)

lemmas steps = keeps_world_call keeps_free_on_throw keeps_intros packet_readers [THEN keeps_packet]

lemma keeps_get_send_buffer: "keeps part (Client_get_send_buffer api flags opt)"
  unfolding Client_get_send_buffer_def Sender_get_send_buffer_def Device_get_send_buffer_def TxPacket_new_def
  by (intro steps; simp)

lemma keeps_send: "keeps part (Client_send api sb n)"
  unfolding Client_send_def Sender_send_raw_def Device_enqueue_packet_def
  by (intro steps; simp)

end

text \<open>The same for a part that also survives the processing of a received packet.\<close>

locale tcp_frame_condition = send_frame_condition part
  for part :: "('w, 'z) tcp_client_scheme \<Rightarrow> 'b" +
  assumes peer_window_scale_kept: "part (s\<lparr>peer_window_scale := v0\<rparr>) = part s"
    and send_wnd_kept: "part (s\<lparr>send_wnd := v2\<rparr>) = part s"
    and last_ack_number_kept: "part (s\<lparr>last_ack_number := v3\<rparr>) = part s"
    and cl_ack_kept: "part (s\<lparr>cl_ack := v5\<rparr>) = part s"
    and cl_state_kept: "part (s\<lparr>cl_state := v7\<rparr>) = part s"
begin

lemmas tcp_field_kept [simp] = peer_window_scale_kept send_wnd_kept last_ack_number_kept cl_ack_kept cl_state_kept

lemma keeps_process_packet: "keeps part (Client_process_packet api v)"
  unfolding Client_process_packet_def Client_accept_segment_def Client_update_window_def Client_process_ack_def
    Client_finish_handshake_def Client_process_data_def Let_def
  by (intro steps keeps_get_send_buffer keeps_send; simp split: option.splits)

end

interpretation above_tcp: tcp_frame_condition tcp_client.more
  by unfold_locales simp_all

section \<open>Properties\<close>

text \<open>
  C5: the accounting of the send window. In every state a client can reach from its construction, by connecting while
  it is offline with nothing outstanding, processing any packets (valid or not), sending anything in any state and
  resetting while connected, and whatever exceptions those threw, the unacknowledged byte count is exactly the distance
  from the last acknowledged sequence number to the next one to send, plus one for the SYN while the connection is being
  set up, less one for every \<^verbatim>\<open>connect\<close> that threw after it had entered the state \<^verbatim>\<open>Connecting\<close>.
\<close>

theorem Client_accounting_reachable:
  assumes "tcp_reachable api (Client_new c q i dev) n s"
  shows "seq_value (last_ack_number s) + unacknowledged_bytes s + of_nat n =
    seq_value (cl_seq s) + (if cl_state s = Connecting then 1 else 0)"
proof -
  have "Client_inv 0 (Client_new c q i dev)" by (simp add: Client_inv_def Client_new_def device.defs tcp_client.defs)
  from tcp_reachable_inv [OF assms this] show ?thesis by (simp add: Client_inv_def)
qed

theorem Client_accounting_reachable_witness:
  "let s = snd (Client_process_packet loop_api (demo_segment Flags_ACK 5 7 [1, 2]) (Client_new demo_connection 7 9 (loop_device [] 1)))
   in seq_value (last_ack_number s) + unacknowledged_bytes s = seq_value (cl_seq s) + (if cl_state s = Connecting then 1 else 0)"
proof -
  let ?s = "snd (Client_process_packet loop_api (demo_segment Flags_ACK 5 7 [1, 2]) (Client_new demo_connection 7 9 (loop_device [] 1)))"
  have "tcp_reachable loop_api (Client_new demo_connection 7 9 (loop_device [] 1)) (0 + 0) ?s"
    by (rule tcp_reachable.step [OF tcp_reachable.start], rule Process, rule prod.collapse [symmetric])
  from Client_accounting_reachable [OF this] show ?thesis by (simp add: Let_def)
qed

text \<open>
  C6: taking a send buffer, writing a payload that fits the buffer into it and sending it either puts exactly
  one packet on the wire, with the connection's addresses and ports, the current sequence and
  acknowledgement numbers, the given flags and payload, agreeing length fields, a fresh identification and
  correct checksums, and then advances the sequence number and the unacknowledged count by the payload,
  which fitted the peer's window; or it throws and puts nothing on the wire.
\<close>

theorem Client_send_frame:
  assumes "dpdk_ok api wire" and "34 + tcp_header_length opt + length p \<le> 2048"
  shows "wp (bindM (Client_get_send_buffer api flags opt) (\<lambda>sb.
       bindM (bindM (Tcp_payload_write_stream (sb_tcp sb)) (\<lambda>ws. run_local (WriteStream_push_bytes p) ws))
         (\<lambda>ws. Client_send api (sb_written ws sb) (WriteStream_size ws))))
     (\<lambda>_ t. t\<lparr>world := world s\<rparr> = after_send (length p) s \<and>
        unat (unacknowledged_bytes s) + length p \<le> unat (send_wnd s) \<and>
        (\<exists>m. wire (world t) = wire (world s) @ [m] \<and> client_frame api s flags opt p m))
     (\<lambda>_ t. wire (world t) = wire (world s)) s"
proof -
  have "wp (bindM (bindM (Tcp_payload_write_stream (sb_tcp sb)) (\<lambda>ws. run_local (WriteStream_push_bytes p) ws))
         (\<lambda>ws. Client_send api (sb_written ws sb) (WriteStream_size ws)))
     (\<lambda>_ u. u\<lparr>world := world s\<rparr> = after_send (length p) s \<and>
        unat (unacknowledged_bytes s) + length p \<le> unat (send_wnd s) \<and>
        (\<exists>m. wire (world u) = wire (world s) @ [m] \<and> client_frame api s flags opt p m))
     (\<lambda>_ u. wire (world u) = wire (world s)) t"
    if t: "t\<lparr>world := world s\<rparr> = s" "wire (world t) = wire (world s)" and b: "open_buffer s flags opt sb" for sb t
  proof -
    have same: "open_buffer t flags opt sb" "client_frame api t = client_frame api s"
      using b open_buffer_world [of "world s" t] client_frame_world [of api "world s" t] unfolding t(1) by simp_all
    have u: "u\<lparr>world := world s\<rparr> = after_send (length p) s" if "u\<lparr>world := world t\<rparr> = after_send (length p) t" for u
      using arg_cong [OF that, of "world_update (\<lambda>_. world s)"] t(1) by (simp flip: after_send_world)
    show ?thesis
      by (rule wp_mono [OF wp_send_payload [OF assms(1) same(1) assms(2)]]) (auto simp: same same_client [OF t(1)] t(2) dest: u)
  qed
  then show ?thesis
    by (subst wp_bindM) (rule wp_mono [OF wp_get_send_buffer_open [OF assms(1)]], auto)
qed


theorem Client_send_frame_witness:
  "wp (bindM (Client_get_send_buffer loop_api Flags_PSH_ACK False) (\<lambda>sb.
       bindM (bindM (Tcp_payload_write_stream (sb_tcp sb)) (\<lambda>ws. run_local (WriteStream_push_bytes [1, 2, 3]) ws))
         (\<lambda>ws. Client_send loop_api (sb_written ws sb) (WriteStream_size ws))))
     (\<lambda>_ t. \<exists>m. lw_wire (world t) = [m] \<and> client_frame loop_api (demo_client Connected 5) Flags_PSH_ACK False [1, 2, 3] m)
     (\<lambda>_ t. lw_wire (world t) = []) (demo_client Connected 5)"
  by (rule wp_mono [OF Client_send_frame [OF loop_api_ok]]) (auto simp: tcp_header_length_def)

text \<open>
  A SYN-ACK that is accepted while connecting completes the handshake: the client is connected, it
  expects the byte after the peer's SYN, its own SYN is counted, and the one packet it sends is an ACK
  with these numbers. An in-order segment with payload on a connected client advances the expected sequence number by
  exactly the payload size and is answered by one ACK that carries the new number. If anything is thrown on the way,
  nothing is sent, and the segment or the card gave a reason.
\<close>

lemma wp_handshake_completes:
  assumes "dpdk_ok api wire" and "cl_state s = Connecting" and "cl_ack s = SeqNumber 0" and "34 \<le> length (v_mem v)"
    and "tcp_off v + 20 \<le> length (v_mem v)" and "IP_is_valid v s = (Inr True, s)" and "tcp_flags (tcp_hdr v) = Flags_SYN_ACK"
  shows "wp (Client_process_packet api v) (\<lambda>_ t. segment_acknowledged api wire s v t)
     (\<lambda>_ t. wire (world t) = wire (world s) \<and> (acceptable s v \<longrightarrow> \<not> dpdk_reliable api)) s"
proof -
  have "\<not> has_flag (tcp_flags (tcp_hdr v)) Flags_RST" by (simp add: assms(7) has_flag_def Flags_defs)
  then show ?thesis using wp_accept_segment [OF assms(1,4,5)] assms by (subst wp_process_packet_accepted) auto
qed

lemma wp_process_segment:
  assumes "dpdk_ok api wire" and "cl_state s = Connected" and "34 \<le> length (v_mem v)" and "tcp_off v + 20 \<le> length (v_mem v)"
    and "SeqNumber (be_value (tcp_seq (tcp_hdr v))) = cl_ack s \<or> cl_ack s = SeqNumber 0"
    and "IP_is_valid v s = (Inr True, s)" and "\<not> has_flag (tcp_flags (tcp_hdr v)) Flags_RST" and "tcp_payload_size v \<noteq> 0"
  shows "wp (Client_process_packet api v) (\<lambda>_ t. segment_acknowledged api wire s v t)
     (\<lambda>_ t. wire (world t) = wire (world s) \<and> (acceptable s v \<longrightarrow> \<not> dpdk_reliable api)) s"
  using wp_accept_segment [OF assms(1,3,4)] assms by (subst wp_process_packet_accepted) auto

text \<open>A segment without payload changes the acknowledgement state only, and nothing is sent.\<close>

lemma process_bare_ack:
  assumes "cl_state s = Connected" and "34 \<le> length (v_mem v)" and "tcp_off v + 20 \<le> length (v_mem v)"
    and "SeqNumber (be_value (tcp_seq (tcp_hdr v))) = cl_ack s"
    and "IP_is_valid v s = (Inr True, s)" and "\<not> has_flag (tcp_flags (tcp_hdr v)) Flags_RST" and "tcp_payload_size v = 0"
  shows "wp (Client_process_packet api v) (\<lambda>_ t. t = acked_state s (tcp_hdr v))
     (\<lambda>_ t. world t = world s \<and> \<not> acceptable s v) s"
proof -
  have w: "cl_state (acked_state s hdr) = cl_state s" for hdr by (simp add: acked_state_def Let_def)
  have "wp (Client_accept_segment api v (tcp_hdr v)) (\<lambda>_ t. t = acked_state s (tcp_hdr v)) (\<lambda>_ t. world t = world s \<and> \<not> acceptable s v) s"
    unfolding Client_accept_segment_def Client_process_data_def Let_def wp_thenM wp_bindM wp_gets
    by (rule wp_window_and_ack) (use assms(1-3,7) in \<open>simp_all add: w wp_simps acceptable_def\<close>)
  then show ?thesis using assms by (subst wp_process_packet_accepted) auto
qed

lemma process_out_of_order:
  assumes "34 \<le> tcp_off v" and "tcp_off v + 20 \<le> length (v_mem v)" and "IP_is_valid v s = (Inr True, s)"
    and "\<not> has_flag (tcp_flags (tcp_hdr v)) Flags_RST" and "cl_ack s \<noteq> SeqNumber 0"
    and "SeqNumber (be_value (tcp_seq (tcp_hdr v))) \<noteq> cl_ack s"
  shows "Client_process_packet api v s =
     (if SeqNumber_less (SeqNumber (be_value (tcp_seq (tcp_hdr v)))) (cl_ack s) then (Inr (), s)
      else (Inl (Runtime_error ''Misses are not supported''), s))"
proof -
  let ?old = "SeqNumber_less (SeqNumber (be_value (tcp_seq (tcp_hdr v)))) (cl_ack s)"
  have "Tcp_is_valid v s = (Inr True, s)" using assms(3) by (simp add: Tcp_is_valid_def)
  then have "wp (Client_process_packet api v) (\<lambda>_ t. ?old \<and> t = s)
     (\<lambda>e t. \<not> ?old \<and> e = Runtime_error ''Misses are not supported'' \<and> t = s) s"
    using assms by (auto simp: Client_process_packet_def Let_def wp_simps wp_def [of "Tcp_is_valid v"])
  then show ?thesis by (auto simp: wp_def split: prod.splits sum.splits)
qed

text \<open>
  C7: once data has been received, a valid segment that starts before the expected byte is ignored without
  any change, and one that starts after it is refused with an error, also without any change.
\<close>

theorem Client_out_of_order_segments:
  assumes "34 \<le> tcp_off v" and "tcp_off v + 20 \<le> length (v_mem v)" and "IP_is_valid v s = (Inr True, s)"
    and "\<not> has_flag (tcp_flags (tcp_hdr v)) Flags_RST" and "cl_ack s \<noteq> SeqNumber 0"
    and "SeqNumber (be_value (tcp_seq (tcp_hdr v))) \<noteq> cl_ack s"
  shows "Client_process_packet api v s =
     (if SeqNumber_less (SeqNumber (be_value (tcp_seq (tcp_hdr v)))) (cl_ack s) then (Inr (), s)
      else (Inl (Runtime_error ''Misses are not supported''), s))"
  using assms by (rule process_out_of_order)

theorem Client_out_of_order_segments_witness:
  "Client_process_packet loop_api (demo_segment Flags_ACK 90 7 [1]) (demo_client Connected 100) =
     (Inr (), demo_client Connected 100)"
  using Client_out_of_order_segments [of "demo_segment Flags_ACK 90 7 [1]" "demo_client Connected 100" loop_api]
  by (simp add: has_flag_def Flags_defs SeqNumber_less_def SeqNumber_compare_def sint_neg_iff)

text \<open>
  The expected sequence number zero doubles as the mark of a client that has received nothing. A
  connected client whose expected number has wrapped around to exactly zero therefore accepts a segment
  at any sequence number, old or far ahead, and acknowledges from there.
\<close>

lemma Client_ack_zero_accepts_anything:
  assumes "dpdk_ok api wire" and "cl_state s = Connected" and "cl_ack s = SeqNumber 0" and "34 \<le> length (v_mem v)"
    and "tcp_off v + 20 \<le> length (v_mem v)"
    and "IP_is_valid v s = (Inr True, s)" and "\<not> has_flag (tcp_flags (tcp_hdr v)) Flags_RST" and "tcp_payload_size v \<noteq> 0"
  shows "wp (Client_process_packet api v)
     (\<lambda>_ t. cl_ack t = SeqNumber_add (SeqNumber (be_value (tcp_seq (tcp_hdr v)))) (of_nat (tcp_payload_size v)) \<and>
        (\<exists>m. wire (world t) = wire (world s) @ [m] \<and> client_frame api (s\<lparr>cl_ack := cl_ack t\<rparr>) Flags_ACK False [] m))
     (\<lambda>_ t. wire (world t) = wire (world s)) s"
  by (rule wp_mono [OF wp_process_segment [OF assms(1,2,4,5) _ assms(6-8)]])
     (use assms(2,3) in \<open>auto simp: segment_acknowledged_def same_segment_state_def after_send_def acking_def acked_state_def Let_def
        elim!: client_frame_cong [THEN fun_cong, THEN fun_cong, THEN fun_cong, THEN fun_cong, THEN iffD1, rotated -1]\<close>)

lemma Client_ack_zero_accepts_anything_witness:
  "wp (Client_process_packet loop_api (demo_segment Flags_ACK 5000 7 [1]))
     (\<lambda>_ t. cl_ack t = SeqNumber 5001) (\<lambda>_ t. lw_wire (world t) = []) (demo_client Connected 0)"
  by (rule wp_mono [OF Client_ack_zero_accepts_anything [OF loop_api_ok]])
     (auto simp: SeqNumber_add_def has_flag_def Flags_defs)

text \<open>
  The window scale of the peer is taken from its option as it is. After an option of 32 or more, the
  next accepted segment shifts by at least the width, which is undefined.
\<close>

lemma Client_window_scale_unchecked:
  assumes "34 \<le> tcp_off v" and "tcp_off v + 20 \<le> length (v_mem v)" and "IP_is_valid v s = (Inr True, s)"
    and "\<not> has_flag (tcp_flags (tcp_hdr v)) Flags_RST" and "SeqNumber (be_value (tcp_seq (tcp_hdr v))) = cl_ack s"
    and "32 \<le> unat (peer_window_scale s)"
  shows "Client_process_packet api v s = (Inl (Undefined_behaviour ''shift by the width or more''), s)"
proof -
  have "wp (Client_process_packet api v) (\<lambda>_ _. False) (\<lambda>e t. e = Undefined_behaviour ''shift by the width or more'' \<and> t = s) s"
    using assms by (subst wp_process_packet_accepted)
      (auto simp: Client_accept_segment_def Client_update_window_def Let_def wp_simps)
  then show ?thesis by (auto simp: wp_def split: prod.splits sum.splits)
qed

lemma Client_window_scale_unchecked_witness:
  "fst (Client_process_packet loop_api (demo_segment Flags_ACK 100 7 []) ((demo_client Connected 100)\<lparr>peer_window_scale := 40\<rparr>)) =
     Inl (Undefined_behaviour ''shift by the width or more'')"
  using Client_window_scale_unchecked
    [of "demo_segment Flags_ACK 100 7 []" "(demo_client Connected 100)\<lparr>peer_window_scale := 40\<rparr>" loop_api]
  by (simp add: has_flag_def Flags_defs)

text \<open>
  The room a send buffer states includes the head room in front of its data. A payload of up to 128 bytes
  more than the buffer holds therefore passes the check of the write stream and is written past the buffer.
\<close>

lemma Client_payload_overrun:
  assumes "open_buffer s f opt sb" and "2014 - tcp_header_length opt < length p" and "length p \<le> 2142 - tcp_header_length opt"
  shows "bindM (Tcp_payload_write_stream (sb_tcp sb)) (\<lambda>ws. run_local (WriteStream_push_bytes p) ws) t =
    (Inl (Undefined_behaviour ''write past the buffer''), t)"
proof -
  have "wp (bindM (Tcp_payload_write_stream (sb_tcp sb)) (\<lambda>ws. run_local (WriteStream_push_bytes p) ws))
     (\<lambda>_ _. False) (\<lambda>e u. e = Undefined_behaviour ''write past the buffer'' \<and> u = t) t"
    using assms by (subst wp_push_payload [OF assms(1)]) auto
  then show ?thesis by (auto simp: wp_def split: prod.splits sum.splits)
qed

lemma Client_payload_overrun_witness:
  "wp (Client_get_send_buffer loop_api Flags_ACK False) (\<lambda>sb t.
     fst (bindM (Tcp_payload_write_stream (sb_tcp sb)) (\<lambda>ws. run_local (WriteStream_push_bytes (replicate 2000 0)) ws) ()) =
       Inl (Undefined_behaviour ''write past the buffer'')) (\<lambda>_ _. True) (demo_client Connected 5)"
proof (rule wp_mono [OF wp_get_send_buffer_open [OF loop_api_ok]])
  fix sb and t :: "loop_world tcp_client"
  assume "t\<lparr>world := world (demo_client Connected 5)\<rparr> = demo_client Connected 5 \<and>
    lw_wire (world t) = lw_wire (world (demo_client Connected 5)) \<and> open_buffer (demo_client Connected 5) Flags_ACK False sb"
  then show "fst (bindM (Tcp_payload_write_stream (sb_tcp sb)) (\<lambda>ws. run_local (WriteStream_push_bytes (replicate 2000 0)) ws) ()) =
       Inl (Undefined_behaviour ''write past the buffer'')"
    using Client_payload_overrun [of "demo_client Connected 5" Flags_ACK False sb "replicate 2000 0" "()"]
    by (simp add: tcp_header_length_def)
qed simp

end
