(* ===== verification/Tls_Client.thy ===== *)
theory Tls_Client
  imports Tls_Model Tcp_Client
begin

text \<open>
  The TLS 1.2 client, src/src/network/tls12: \<open>Client\<close> (client.h, client.cpp), the wrappers of the
  cryptographic library (openssl.h, openssl.cpp) and the handshake hash and randoms (type.h, type.cpp).
  The library itself is the parameter \<open>ssl_api\<close>: its random source and the success of its calls depend on
  the world, the primitives are functions. \<open>ssl_ok\<close> names what the code relies on of it.

  The client owns a TCP client, so its state extends the TCP client's. A view into the stream or into a
  packet is the list of its bytes; what the code writes through a view is stored back at its offset.
  \<^verbatim>\<open>receive\<close> calls itself while records are left; one pass is \<open>Tls_receive_pass\<close> and the recursion is a
  partial function whose value is \<open>None\<close> when it does not end.
\<close>

section \<open>The cryptographic library\<close>

record 'w ssl_api =
  RAND_bytes :: "nat \<Rightarrow> 'w \<Rightarrow> bytes option \<times> 'w"
  evp_call :: "string \<Rightarrow> 'w \<Rightarrow> bool \<times> 'w"
  EVP_sha256 :: "bytes \<Rightarrow> bytes"
  TLS1_PRF :: "bytes \<Rightarrow> bytes \<Rightarrow> nat \<Rightarrow> bytes"
  X25519_keygen :: "'w \<Rightarrow> bytes \<times> 'w"
  X25519_public :: "bytes \<Rightarrow> bytes"
  X25519_derive :: "bytes \<Rightarrow> bytes \<Rightarrow> bytes"
  gcm_ctr :: "bytes \<Rightarrow> bytes \<Rightarrow> bytes \<Rightarrow> bytes"
  gcm_tag :: "bytes \<Rightarrow> bytes \<Rightarrow> bytes \<Rightarrow> bytes \<Rightarrow> bytes"

text \<open>An \<^verbatim>\<open>EVP_CIPHER_CTX\<close>: the key, and the nonce, additional data and input since the last init.\<close>

record evp_ctx =
  ec_key :: bytes
  ec_iv :: bytes
  ec_aad :: bytes
  ec_in :: bytes

section \<open>The state\<close>

datatype handshake_state =
    ClientHelloToSend | ServerHello | ServerCertificate | ServerKeyExchange | ServerHelloDone
  | ClientKeyExchange | ClientFinished | ServerFinished

record 'w tls_client = "'w tcp_client" +
  tls_send_buffer :: stream
  tls_stream :: stream
  tls_random_server :: bytes
  tls_random_client :: bytes
  server_eph_pubkey :: bytes
  master_secret :: bytes
  handshake_hash :: bytes
  enc_ctx :: "evp_ctx option"
  dec_ctx :: "evp_ctx option"
  client_write_key :: bytes
  server_write_key :: bytes
  client_write_iv :: bytes
  server_write_iv :: bytes
  write_sequence_number :: u64
  read_sequence_number :: u64
  iv_server_write_iv :: bytes
  iv_explicit_iv :: bytes
  sni_hostname :: bytes
  hs_state :: handshake_state

definition Tls_new :: "bytes \<Rightarrow> 'w tcp_client \<Rightarrow> 'w tls_client" where
  "Tls_new hostname tcp = tcp_client.extend tcp
     (tls_client.fields (Stream_new 20600) (Stream_new 20600) (replicate 32 0) (replicate 32 0) (replicate 2048 0)
       (replicate 48 0) [] None None (replicate 16 0) (replicate 16 0) (replicate 4 0) (replicate 4 0) 0 0
       (replicate 4 0) (replicate 8 0) hostname ClientHelloToSend)"

definition on_stream :: "(stream, 'a) prog \<Rightarrow> (('w, 'z) tls_client_scheme, 'a) prog" where
  "on_stream = zoom tls_stream tls_stream_update"

definition on_send_buffer :: "(stream, 'a) prog \<Rightarrow> (('w, 'z) tls_client_scheme, 'a) prog" where
  "on_send_buffer = zoom tls_send_buffer tls_send_buffer_update"

section \<open>Wrappers of the library\<close>

text \<open>\<^verbatim>\<open>REQUIRE(call(..), message)\<close>.\<close>

definition evp :: "'w ssl_api \<Rightarrow> string \<Rightarrow> string \<Rightarrow> (('w, 'z) device_scheme, unit) prog" where
  "evp ssl name msg = bindM (world_call (evp_call ssl name)) (\<lambda>ok. require ok msg)"

definition tls_prf :: "'w ssl_api \<Rightarrow> bytes \<Rightarrow> string \<Rightarrow> bytes \<Rightarrow> nat \<Rightarrow> (('w, 'z) device_scheme, bytes) prog" where
  "tls_prf ssl secret label seed outlen =
     thenM (evp ssl ''EVP_PKEY_CTX_new_id'' ''nullptr'')
     (thenM (evp ssl ''EVP_PKEY_derive_init'' ''Failed to initialize PRF derivation'')
     (thenM (evp ssl ''EVP_PKEY_CTX_set_tls1_prf_md'' ''Failed to set PRF digest'')
     (thenM (evp ssl ''EVP_PKEY_CTX_set1_tls1_prf_secret'' ''Failed to set PRF secret'')
     (thenM (evp ssl ''EVP_PKEY_CTX_add1_tls1_prf_seed'' ''Failed to add PRF label'')
     (thenM (evp ssl ''EVP_PKEY_CTX_add1_tls1_prf_seed'' ''Failed to add PRF seed'')
     (thenM (evp ssl ''EVP_PKEY_derive'' ''Failed to derive key material'')
     (ret (TLS1_PRF ssl secret (string_bytes label @ seed) outlen))))))))"

definition generate_x25519_key :: "'w ssl_api \<Rightarrow> (('w, 'z) device_scheme, bytes) prog" where
  "generate_x25519_key ssl =
     thenM (evp ssl ''EVP_PKEY_CTX_new_id'' ''nullptr'')
     (thenM (evp ssl ''EVP_PKEY_keygen_init'' ''EVP_PKEY_keygen_init failed'')
     (thenM (evp ssl ''EVP_PKEY_keygen'' ''EVP_PKEY_keygen failed'')
     (world_call (X25519_keygen ssl))))"

text \<open>The constructor of \<^verbatim>\<open>EncryptContext\<close>, and its operations on the client's encryption context.\<close>

definition EncryptContext_new :: "'w ssl_api \<Rightarrow> bytes \<Rightarrow> (('w, 'z) device_scheme, evp_ctx) prog" where
  "EncryptContext_new ssl key = thenM (evp ssl ''EVP_CIPHER_CTX_new'' ''nullptr'')
     (thenM (evp ssl ''EVP_EncryptInit_ex'' '''') (ret \<lparr>ec_key = key, ec_iv = [], ec_aad = [], ec_in = []\<rparr>))"

definition enc_context :: "(('w, 'z) tls_client_scheme, evp_ctx) prog" where
  "enc_context = bindM (gets enc_ctx) (\<lambda>c. case c of
     None \<Rightarrow> throw (Undefined_behaviour ''empty optional'') | Some ctx \<Rightarrow> ret ctx)"

definition EncryptContext_init :: "'w ssl_api \<Rightarrow> bytes \<Rightarrow> (('w, 'z) tls_client_scheme, unit) prog" where
  "EncryptContext_init ssl nonce = bindM enc_context (\<lambda>c. thenM (evp ssl ''EVP_EncryptInit_ex'' '''')
     (modify (\<lambda>s. s\<lparr>enc_ctx := Some (c\<lparr>ec_iv := nonce, ec_aad := [], ec_in := []\<rparr>)\<rparr>)))"

definition EncryptContext_update_aad :: "'w ssl_api \<Rightarrow> bytes \<Rightarrow> (('w, 'z) tls_client_scheme, unit) prog" where
  "EncryptContext_update_aad ssl bs = bindM enc_context (\<lambda>c. thenM (evp ssl ''EVP_EncryptUpdate'' '''')
     (modify (\<lambda>s. s\<lparr>enc_ctx := Some (c\<lparr>ec_aad := ec_aad c @ bs\<rparr>)\<rparr>)))"

definition EncryptContext_update :: "'w ssl_api \<Rightarrow> bytes \<Rightarrow> (('w, 'z) tls_client_scheme, bytes) prog" where
  "EncryptContext_update ssl bs = bindM enc_context (\<lambda>c. thenM (evp ssl ''EVP_EncryptUpdate'' '''')
     (thenM (modify (\<lambda>s. s\<lparr>enc_ctx := Some (c\<lparr>ec_in := ec_in c @ bs\<rparr>)\<rparr>))
     (ret (drop (length (ec_in c)) (gcm_ctr ssl (ec_key c) (ec_iv c) (ec_in c @ bs))))))"

text \<open>A stream mode writes nothing in \<^verbatim>\<open>EVP_EncryptFinal_ex\<close>.\<close>

definition EncryptContext_final_ex :: "'w ssl_api \<Rightarrow> (('w, 'z) tls_client_scheme, bytes) prog" where
  "EncryptContext_final_ex ssl = thenM (evp ssl ''EVP_EncryptFinal_ex'' '''') (ret [])"

definition EncryptContext_append_gcm_tag :: "'w ssl_api \<Rightarrow> (('w, 'z) tls_client_scheme, bytes) prog" where
  "EncryptContext_append_gcm_tag ssl = bindM enc_context (\<lambda>c. thenM (evp ssl ''EVP_CIPHER_CTX_ctrl'' '''')
     (ret (gcm_tag ssl (ec_key c) (ec_iv c) (ec_aad c) (gcm_ctr ssl (ec_key c) (ec_iv c) (ec_in c)))))"

text \<open>\<^verbatim>\<open>HandshakeHash\<close>: the digest context is the sequence of bytes fed to it.\<close>

definition HandshakeHash_update :: "bytes \<Rightarrow> (('w, 'z) tls_client_scheme, unit) prog" where
  "HandshakeHash_update bs = modify (\<lambda>s. s\<lparr>handshake_hash := handshake_hash s @ bs\<rparr>)"

definition HandshakeHash_finalize :: "'w ssl_api \<Rightarrow> (('w, 'z) tls_client_scheme, bytes) prog" where
  "HandshakeHash_finalize ssl = gets (\<lambda>s. EVP_sha256 ssl (handshake_hash s))"

definition TLSRandom_generate :: "'w ssl_api \<Rightarrow> (('w, 'z) tls_client_scheme, unit) prog" where
  "TLSRandom_generate ssl = bindM (world_call (RAND_bytes ssl 32)) (\<lambda>r. case r of
     None \<Rightarrow> throw (Runtime_error ''rand failed'') | Some v \<Rightarrow> modify (\<lambda>s. s\<lparr>tls_random_client := v\<rparr>))"

definition Tls_ctor :: "'w dpdk_api \<Rightarrow> 'w ssl_api \<Rightarrow> (('w, 'z) tls_client_scheme, unit) prog" where
  "Tls_ctor api ssl = thenM (TLSRandom_generate ssl) (Client_connect api)"

section \<open>Encryption\<close>

text \<open>
  The bytes \<^verbatim>\<open>encrypt(view, type)\<close> leaves from \<^verbatim>\<open>view.data()\<close> on; their number is the length it returns.
\<close>

definition make_aad :: "u64 \<Rightarrow> byte \<Rightarrow> nat \<Rightarrow> bytes" where
  "make_aad seq content_type sz = enc_aad \<lparr>aad_sequence_number = BE seq, aad_content_type = content_type,
     aad_version = kTls12, aad_size = BE (of_nat sz)\<rparr>"

definition Tls_encrypt :: "'w ssl_api \<Rightarrow> bytes \<Rightarrow> byte \<Rightarrow> (('w, 'z) tls_client_scheme, bytes) prog" where
  "Tls_encrypt ssl view content_type =
     bindM (gets (\<lambda>s. (client_write_iv s, write_sequence_number s))) (\<lambda>(fixed, seq).
     thenM (EncryptContext_init ssl (enc_nonce \<lparr>no_fixed_iv = fixed, no_explicit_iv = BE seq\<rparr>))
     (thenM (EncryptContext_update_aad ssl (make_aad seq content_type (length view)))
     (bindM (EncryptContext_update ssl view) (\<lambda>out.
      bindM (EncryptContext_final_ex ssl) (\<lambda>last.
      bindM (EncryptContext_append_gcm_tag ssl) (\<lambda>tag.
      thenM (modify (\<lambda>s. s\<lparr>write_sequence_number := write_sequence_number s + 1\<rparr>))
      (ret (out @ last @ tag))))))))"

definition Tls_decrypt :: "'w ssl_api \<Rightarrow> bytes \<Rightarrow> (('w, 'z) tls_client_scheme, bytes) prog" where
  "Tls_decrypt ssl bs =
     thenM (require (length bs > kGcmTagSize) ''Ciphertext too small'')
     (bindM (gets dec_ctx) (\<lambda>c. case c of None \<Rightarrow> throw (Undefined_behaviour ''empty optional'') | Some ctx \<Rightarrow>
      thenM (evp ssl ''EVP_DecryptInit_ex'' ''Failed to set IV in decryption context'')
      (bindM (gets (\<lambda>s. iv_server_write_iv s @ iv_explicit_iv s)) (\<lambda>iv.
      thenM (modify (\<lambda>s. s\<lparr>dec_ctx := Some (ctx\<lparr>ec_iv := iv, ec_aad := [], ec_in := []\<rparr>)\<rparr>))
      (bindM (gets read_sequence_number) (\<lambda>seq.
      thenM (modify (\<lambda>s. s\<lparr>read_sequence_number := seq + 1\<rparr>))
      (let aad = make_aad seq ContentType_ApplicationData (length bs) in
      thenM (evp ssl ''EVP_DecryptUpdate'' ''Error: Failed to set AAD'')
      (thenM (modify (\<lambda>s. s\<lparr>dec_ctx := Some (ctx\<lparr>ec_iv := iv, ec_aad := aad, ec_in := []\<rparr>)\<rparr>))
      (thenM (evp ssl ''EVP_DecryptUpdate'' ''Error: Decryption failed'')
      (thenM (modify (\<lambda>s. s\<lparr>dec_ctx := Some (ctx\<lparr>ec_iv := iv, ec_aad := aad, ec_in := bs\<rparr>)\<rparr>))
      (ret (take (length bs - kGcmTagSize) (gcm_ctr ssl (ec_key ctx) iv bs)))))))))))))"

section \<open>Sending\<close>

text \<open>An assignment to a field of an object in the packet, at its offset in the payload.\<close>

definition assign_field :: "nat \<Rightarrow> bytes \<Rightarrow> write_stream \<Rightarrow> ('s, write_stream) prog" where
  "assign_field off bs = run_local (WriteStream_assign off bs)"

definition push_field :: "bytes \<Rightarrow> write_stream \<Rightarrow> ('s, write_stream) prog" where
  "push_field bs = run_local (WriteStream_push_bytes bs)"

text \<open>
  The sending functions have one shape: get a send buffer, fill its payload, send it. The packet is freed
  when the filling throws.
\<close>

definition send_filled ::
    "'w dpdk_api \<Rightarrow> (write_stream \<Rightarrow> (('w, 'z) tcp_client_scheme, write_stream \<times> nat) prog) \<Rightarrow>
       (('w, 'z) tcp_client_scheme, unit) prog" where
  "send_filled api fill =
     bindM (Client_get_send_buffer api Flags_PSH_ACK False) (\<lambda>packet.
     bindM (free_on_throw api (sb_tx packet) (bindM (Tcp_payload_write_stream (sb_tcp packet)) fill)) (\<lambda>(ws, n).
     Client_send api (sb_written ws packet) n))"

definition fill_flush :: "'w ssl_api \<Rightarrow> write_stream \<Rightarrow> (('w, 'z) tls_client_scheme, write_stream \<times> nat) prog" where
  "fill_flush ssl ws0 =
     bindM (push_field (enc_tls_record_struct kApplicationDataTlsRecord) ws0) (\<lambda>ws1.
     bindM (gets write_sequence_number) (\<lambda>seq.
     bindM (assign_field 5 (be_mem (BE seq)) ws1) (\<lambda>ws2.
     bindM (gets (\<lambda>s. Stream_size (tls_send_buffer s))) (\<lambda>sz.
     bindM (on_send_buffer (Stream_pop sz)) (\<lambda>to_send.
     thenM (require (to_send \<noteq> None) '''')
     (bindM (opt_value to_send) (\<lambda>bs.
     bindM (push_field bs ws2) (\<lambda>ws3.
     bindM (Tls_encrypt ssl (chunk 13 (length bs) (ws_mem ws3)) ContentType_ApplicationData) (\<lambda>out.
     bindM (assign_field 13 out ws3) (\<lambda>ws4.
     let encrypted_len = 8 + length out in
     bindM (assign_field 3 (be_mem (BE (of_nat encrypted_len) :: 16 be)) ws4) (\<lambda>ws5.
     ret (ws5, 5 + encrypted_len))))))))))))"

definition Tls_flush :: "'w dpdk_api \<Rightarrow> 'w ssl_api \<Rightarrow> (('w, 'z) tls_client_scheme, unit) prog" where
  "Tls_flush api ssl = send_filled api (fill_flush ssl)"

definition fill_client_hello ::
    "'w ssl_api \<Rightarrow> write_stream \<Rightarrow> (('w, 'z) tls_client_scheme, write_stream \<times> nat) prog" where
  "fill_client_hello ssl ws0 =
     thenM (TLSRandom_generate ssl)
     (bindM (push_field (enc_client_hello kClientHelloMessage) ws0) (\<lambda>ws1.
     bindM (gets tls_random_client) (\<lambda>random.
     bindM (assign_field 11 random ws1) (\<lambda>ws2.
     let prev_size = WriteStream_size ws2 in
     bindM (gets sni_hostname) (\<lambda>host.
     bindM (push_field (enc_sni_extension (make_sni_extensions (length host))) ws2) (\<lambda>ws3.
     bindM (push_field host ws3) (\<lambda>ws4.
     bindM (push_field kDefaultExtensions ws4) (\<lambda>ws5.
     bindM (assign_field 50 (be_mem (BE (of_nat (WriteStream_size ws5 - prev_size)) :: 16 be)) ws5) (\<lambda>ws6.
     let tls_size = (of_nat (WriteStream_size ws6 - 5) :: u16) in
     bindM (assign_field 3 (be_mem (BE tls_size)) ws6) (\<lambda>ws7.
     bindM (assign_field 6 (UInt24_mem (UInt24 (of_nat (sub64 (unat tls_size) 4)))) ws7) (\<lambda>ws8.
     thenM (HandshakeHash_update (chunk 5 (WriteStream_size ws8 - 5) (ws_mem ws8)))
     (ret (ws8, WriteStream_size ws8)))))))))))))"

definition send_client_hello :: "'w dpdk_api \<Rightarrow> 'w ssl_api \<Rightarrow> (('w, 'z) tls_client_scheme, unit) prog" where
  "send_client_hello api ssl = send_filled api (fill_client_hello ssl)"

definition fill_client_certificate :: "write_stream \<Rightarrow> (('w, 'z) tls_client_scheme, write_stream \<times> nat) prog" where
  "fill_client_certificate ws0 =
     bindM (push_field (enc_certificate_message kCertificateHandshakeMessage) ws0) (\<lambda>ws1.
     thenM (HandshakeHash_update (chunk 5 7 (ws_mem ws1))) (ret (ws1, WriteStream_size ws1)))"

definition send_client_certificate :: "'w dpdk_api \<Rightarrow> (('w, 'z) tls_client_scheme, unit) prog" where
  "send_client_certificate api = send_filled api fill_client_certificate"

text \<open>
  \<^verbatim>\<open>send_client_key_exchange_and_finished\<close> in the order of the code: the ephemeral key and the shared
  secret, the key schedule, the change of cipher and the encrypted Finished message.
\<close>

definition derive_shared_secret :: "'w ssl_api \<Rightarrow> bytes \<Rightarrow> (('w, 'z) tls_client_scheme, bytes) prog" where
  "derive_shared_secret ssl client_eph_key =
     bindM (gets (\<lambda>s. take 32 (server_eph_pubkey s))) (\<lambda>server_pub.
     thenM (evp ssl ''EVP_PKEY_new_raw_public_key'' ''Failed to extract public key from certificate'')
     (thenM (evp ssl ''EVP_PKEY_CTX_new'' ''nullptr'')
     (thenM (evp ssl ''EVP_PKEY_derive_init'' ''EVP_PKEY_derive_init failed'')
     (thenM (evp ssl ''EVP_PKEY_derive_set_peer'' ''EVP_PKEY_derive_set_peer failed'')
     (thenM (evp ssl ''EVP_PKEY_derive'' ''EVP_PKEY_derive failed'')
     (let shared_secret = X25519_derive ssl client_eph_key server_pub in
      thenM (require (length shared_secret = 32) ''X25519 derived secret size != 32'')
      (ret shared_secret)))))))"

text \<open>
  The two \<^verbatim>\<open>prf\<close> calls that fill the master secret and the keys, and the two cipher contexts. \<^verbatim>\<open>emplace\<close> empties the optional
  before it constructs the new context, so a constructor that throws leaves it empty.
\<close>

definition derive_keys :: "'w ssl_api \<Rightarrow> bytes \<Rightarrow> (('w, 'z) tls_client_scheme, unit) prog" where
  "derive_keys ssl shared_secret =
     bindM (HandshakeHash_finalize ssl) (\<lambda>hash.
     bindM (tls_prf ssl shared_secret ''extended master secret'' hash 48) (\<lambda>master.
     thenM (modify (\<lambda>s. s\<lparr>master_secret := master\<rparr>))
     (bindM (gets (\<lambda>s. tls_random_server s @ tls_random_client s)) (\<lambda>randoms.
      bindM (tls_prf ssl master ''key expansion'' randoms 40) (\<lambda>keys.
      thenM (modify (\<lambda>s. s\<lparr>client_write_key := chunk 0 16 keys, server_write_key := chunk 16 16 keys,
        client_write_iv := chunk 32 4 keys, server_write_iv := chunk 36 4 keys\<rparr>))
      (thenM (modify (\<lambda>s. s\<lparr>enc_ctx := None\<rparr>))
      (bindM (EncryptContext_new ssl (chunk 0 16 keys)) (\<lambda>enc.
      thenM (modify (\<lambda>s. s\<lparr>enc_ctx := Some enc, dec_ctx := None\<rparr>))
      (bindM (EncryptContext_new ssl (chunk 16 16 keys)) (\<lambda>dec.
      modify (\<lambda>s. s\<lparr>dec_ctx := Some dec, iv_server_write_iv := server_write_iv s\<rparr>)))))))))))"

definition fill_key_exchange_and_finished ::
    "'w ssl_api \<Rightarrow> write_stream \<Rightarrow> (('w, 'z) tls_client_scheme, write_stream \<times> nat) prog" where
  "fill_key_exchange_and_finished ssl ws0 =
     bindM (push_field (enc_key_exchange_message kX25519KeyExchangeMessage) ws0) (\<lambda>ws1.
     bindM (generate_x25519_key ssl) (\<lambda>client_eph_key.
     thenM (evp ssl ''EVP_PKEY_get_raw_public_key'' ''Failed to get raw client ephemeral public key'')
     (bindM (assign_field 10 (X25519_public ssl client_eph_key) ws1) (\<lambda>ws2.
     thenM (require (length (X25519_public ssl client_eph_key) = X25519KeySize) '''')
     (bindM (derive_shared_secret ssl client_eph_key) (\<lambda>shared_secret.
     thenM (HandshakeHash_update (chunk 5 37 (ws_mem ws2)))
     (thenM (derive_keys ssl shared_secret)
     (bindM (HandshakeHash_finalize ssl) (\<lambda>hash.
     bindM (gets master_secret) (\<lambda>master.
     bindM (tls_prf ssl master ''client finished'' hash 12) (\<lambda>verify_data.
     bindM (push_field (enc_change_cipher_spec kChangeCipherSpecRecord) ws2) (\<lambda>ws3.
     bindM (push_field (enc_finished_full kFinishedHandshakeFullMessage) ws3) (\<lambda>ws4.
     bindM (assign_field 65 verify_data ws4) (\<lambda>ws5.
     bindM (gets write_sequence_number) (\<lambda>seq.
     bindM (assign_field 53 (be_mem (BE seq)) ws5) (\<lambda>ws6.
     bindM (Tls_encrypt ssl (chunk 61 16 (ws_mem ws6)) ContentType_Handshake) (\<lambda>out.
     bindM (assign_field 61 out ws6) (\<lambda>ws7.
     let encrypted_size = 8 + length out in
     bindM (assign_field 51 (be_mem (BE (of_nat encrypted_size) :: 16 be)) ws7) (\<lambda>ws8.
     bindM (run_local (WriteStream_reserve (sub64 encrypted_size 24)) ws8) (\<lambda>ws9.
     ret (ws9, WriteStream_size ws9)))))))))))))))))))))"

definition send_client_key_exchange_and_finished ::
    "'w dpdk_api \<Rightarrow> 'w ssl_api \<Rightarrow> (('w, 'z) tls_client_scheme, unit) prog" where
  "send_client_key_exchange_and_finished api ssl = send_filled api (fill_key_exchange_and_finished ssl)"

section \<open>The server's flights\<close>

definition process_server_hello :: "(('w, 'z) tls_client_scheme, bool) prog" where
  "process_server_hello =
     assign_or_return (on_stream (Stream_pop_obj dec_record_header sizeof_record_header)) False (\<lambda>header.
     let record_size = unat (be_value (rh_size header)) in
     assign_or_return (on_stream (Stream_peek record_size)) False (\<lambda>_.
     bindM (on_stream read_transaction) (\<lambda>r0.
     assign_or_return (ret (ByteViewStream_pop_obj dec_server_hello sizeof_server_hello r0)) False (\<lambda>(hello, r1).
     assign_or_return (ret (ByteViewStream_pop (unat (sh_session_id_size hello)) r1)) False (\<lambda>(_, r2).
     assign_or_return (ret (ByteViewStream_pop_obj dec_cipher_and_compression sizeof_cipher_and_compression r2)) False (\<lambda>(cipher_comp, r3).
     thenM (require (be_value (cc_cipher_suite cipher_comp) = CipherSuite_ECDHE_RSA_WITH_AES_128_GCM_SHA256) '''')
     (thenM (require (cc_compression_method cipher_comp = 0) ''Unexpected compression method'')
     (bindM (on_stream (Stream_pop record_size)) (\<lambda>p.
      bindM (opt_value p) (\<lambda>message.
      thenM (HandshakeHash_update message)
      (thenM (modify (\<lambda>s. s\<lparr>tls_random_server := sh_server_random hello\<rparr>)) (ret True))))))))))))"

definition process_server_certificate :: "(('w, 'z) tls_client_scheme, unit) prog" where
  "process_server_certificate =
     assign_or_return (on_stream (Stream_pop_obj dec_record_header sizeof_record_header)) () (\<lambda>header.
     assign_or_return (on_stream (Stream_peek_obj dec_handshake_header sizeof_handshake_header)) () (\<lambda>handshake.
     thenM (require (hh_type handshake = HandshakeType_Certificate) '''')
     (bindM (on_stream (Stream_pop (unat (be_value (rh_size header))))) (\<lambda>p.
      bindM (opt_value p) (\<lambda>in_tls_payload.
      thenM (HandshakeHash_update in_tls_payload)
      (modify (\<lambda>s. s\<lparr>hs_state := ServerKeyExchange\<rparr>)))))))"

definition process_server_key_exchange :: "(('w, 'z) tls_client_scheme, bool) prog" where
  "process_server_key_exchange =
     assign_or_return (on_stream (Stream_pop_obj dec_record_header sizeof_record_header)) False (\<lambda>_.
     bindM (on_stream read_transaction) (\<lambda>r0.
     assign_or_return (ret (ByteViewStream_pop_obj dec_handshake_header sizeof_handshake_header r0)) False (\<lambda>(header, r1).
     thenM (require (hh_type header = HandshakeType_ServerKeyExchange) ''Expected handshake type'')
     (assign_or_return (ret (ByteViewStream_pop_obj dec_server_key_exchange sizeof_server_key_exchange r1)) False (\<lambda>(params, r2).
     thenM (require (ke_curve_type params = CurveType_NamedCurve) ''Expected curve type'')
     (thenM (require (be_value (ke_named_curve params) = Group_Curve25519) ''Unexpected curve'')
     (assign_or_return (ret (ByteViewStream_pop (unat (ke_pubkey_size params)) r2)) False (\<lambda>(pubkey_data, r3).
     assign_or_return (ret (ByteViewStream_pop_obj dec_signature_info sizeof_signature_info r3)) False (\<lambda>(sig_info, r4).
     assign_or_return (ret (ByteViewStream_pop (unat (be_value (si_size sig_info))) r4)) False (\<lambda>(_, r5).
     thenM (modify (\<lambda>s. s\<lparr>server_eph_pubkey := poke 0 pubkey_data (server_eph_pubkey s)\<rparr>))
     (bindM (on_stream (commit r5)) (\<lambda>message.
      thenM (HandshakeHash_update message) (ret True)))))))))))))"

definition process_server_hello_done :: "(('w, 'z) tls_client_scheme, bool) prog" where
  "process_server_hello_done =
     assign_or_return (on_stream (Stream_pop_obj dec_record_header sizeof_record_header)) False (\<lambda>_.
     bindM (on_stream read_transaction) (\<lambda>r0.
     assign_or_return (ret (ByteViewStream_pop_obj dec_handshake_header sizeof_handshake_header r0)) False (\<lambda>(header, r1).
     thenM (require (hh_type header = HandshakeType_ServerHelloDone) ''Unexpected hanshake type'')
     (assign_or_return (ret (ByteViewStream_pop (unat (UInt24_value (hh_size header))) r1)) False (\<lambda>(_, r2).
     bindM (on_stream (commit r2)) (\<lambda>message.
     thenM (HandshakeHash_update message) (ret True)))))))"

definition process_server_finished :: "(('w, 'z) tls_client_scheme, bool) prog" where
  "process_server_finished =
     bindM (on_stream read_transaction) (\<lambda>r0.
     assign_or_return (ret (ByteViewStream_pop_obj dec_record_header sizeof_record_header r0)) False (\<lambda>(tls_header, r1).
     thenM (require (rh_content_type tls_header = ContentType_ChangeCipher) ''unexpected message'')
     (assign_or_return (ret (ByteViewStream_pop (unat (be_value (rh_size tls_header))) r1)) False (\<lambda>(change_cipher_input, r2).
     thenM (defined_if (change_cipher_input \<noteq> []) ''index out of range'')
     (thenM (require (change_cipher_input ! 0 = 1) ''Incorrect ChangeCipher message'')
     (assign_or_return (ret (ByteViewStream_pop_obj dec_record_header sizeof_record_header r2)) False (\<lambda>(tls_header2, r3).
     thenM (require (rh_content_type tls_header2 = ContentType_Handshake) ''unexpected message'')
     (assign_or_return (ret (ByteViewStream_pop (unat (be_value (rh_size tls_header2))) r3)) False (\<lambda>(_, r4).
     thenM (on_stream (commit r4)) (ret True))))))))))"

definition process_handshake :: "'w dpdk_api \<Rightarrow> 'w ssl_api \<Rightarrow> (('w, 'z) tls_client_scheme, unit) prog" where
  "process_handshake api ssl = bindM (gets hs_state) (\<lambda>st. case st of
     ServerHello \<Rightarrow> bindM process_server_hello (\<lambda>ok. thenM (require ok '''')
       (modify (\<lambda>s. s\<lparr>hs_state := ServerCertificate\<rparr>)))
   | ServerCertificate \<Rightarrow> process_server_certificate
   | ServerKeyExchange \<Rightarrow> bindM process_server_key_exchange (\<lambda>ok.
       if ok then modify (\<lambda>s. s\<lparr>hs_state := ServerHelloDone\<rparr>) else ret ())
   | ServerHelloDone \<Rightarrow> bindM process_server_hello_done (\<lambda>ok.
       if ok then thenM (send_client_key_exchange_and_finished api ssl)
         (modify (\<lambda>s. s\<lparr>hs_state := ClientFinished\<rparr>)) else ret ())
   | ClientFinished \<Rightarrow> bindM process_server_finished (\<lambda>ok.
       if ok then modify (\<lambda>s. s\<lparr>hs_state := ServerFinished\<rparr>) else ret ())
   | _ \<Rightarrow> throw (Runtime_error ''Unexpected flow''))"

section \<open>Receiving\<close>

definition Tls_append_payload :: "packet_view \<Rightarrow> (('w, 'z) tls_client_scheme, unit) prog" where
  "Tls_append_payload tcp_packet =
     thenM (on_stream Stream_shift)
     (bindM (Tcp_payload tcp_packet) (\<lambda>payload.
      bindM (gets (\<lambda>s. available_suffix_bytes (tls_stream s))) (\<lambda>avail.
      thenM (require (avail \<ge> v_size payload) ''Not enough space'')
      (thenM (defined_if (v_size payload \<le> length (v_mem payload)) ''read past the buffer'')
      (on_stream (Stream_push_bytes (take (v_size payload) (v_mem payload))))))))"

definition Tls_process_packet :: "'w dpdk_api \<Rightarrow> packet_view \<Rightarrow> (('w, 'z) tls_client_scheme, unit) prog" where
  "Tls_process_packet api tcp_packet = thenM (Client_process_packet api tcp_packet) (Tls_append_payload tcp_packet)"

text \<open>One pass of \<^verbatim>\<open>receive\<close>: it returns a value or calls itself.\<close>

datatype 'a pass = Return 'a | Recurse

definition receive_application_data ::
    "'w ssl_api \<Rightarrow> record_header \<Rightarrow> (('w, 'z) tls_client_scheme, bytes option) prog" where
  "receive_application_data ssl header =
     bindM (on_stream (Stream_pop_obj dec_record_header sizeof_record_header)) (\<lambda>popped.
     thenM (require (popped \<noteq> None) '''')
     (thenM (require (rh_content_type header = ContentType_ApplicationData) ''Expected application data after handshake'')
     (assign_or_return (on_stream (Stream_pop kExplicitIvSize)) None (\<lambda>explicit_iv.
      thenM (modify (\<lambda>s. s\<lparr>iv_explicit_iv := explicit_iv\<rparr>))
      (assign_or_return (on_stream (Stream_pop (sub64 (unat (be_value (rh_size header))) 8))) None (\<lambda>ciphertext.
       bindM (Tls_decrypt ssl ciphertext) (\<lambda>plain. ret (Some plain))))))))"

definition Tls_receive_pass ::
    "'w dpdk_api \<Rightarrow> 'w ssl_api \<Rightarrow> (('w, 'z) tls_client_scheme, bytes option pass) prog" where
  "Tls_receive_pass api ssl =
     bindM (gets (\<lambda>s. hs_state s = ClientHelloToSend \<and> Stream_empty (tls_stream s))) (\<lambda>first.
     if first then
       thenM (send_client_hello api ssl) (thenM (modify (\<lambda>s. s\<lparr>hs_state := ServerHello\<rparr>)) (ret (Return None)))
     else
     assign_or_return (on_stream (Stream_peek_obj dec_record_header sizeof_record_header)) (Return None) (\<lambda>header.
     thenM (require (rh_version header = kTls12) ''wrong protocol'')
     (assign_or_return (on_stream (Stream_peek (sizeof_record_header + unat (be_value (rh_size header))))) (Return None) (\<lambda>_.
      bindM (gets hs_state) (\<lambda>st.
      if st \<noteq> ServerFinished then
        thenM (process_handshake api ssl)
        (bindM (gets (\<lambda>s. Stream_size (tls_stream s))) (\<lambda>n.
         if n \<ge> sizeof_record_header then ret Recurse else ret (Return None)))
      else bindM (receive_application_data ssl header) (\<lambda>r. ret (Return r)))))))"

partial_function (option) Tls_receive ::
    "'w dpdk_api \<Rightarrow> 'w ssl_api \<Rightarrow> ('w, 'z) tls_client_scheme \<Rightarrow>
       ((error + bytes option) \<times> ('w, 'z) tls_client_scheme) option" where
  "Tls_receive api ssl s = (case Tls_receive_pass api ssl s of
     (Inl e, t) \<Rightarrow> Some (Inl e, t)
   | (Inr (Return r), t) \<Rightarrow> Some (Inr r, t)
   | (Inr Recurse, t) \<Rightarrow> Tls_receive api ssl t)"

definition is_handshake_complete :: "('w, 'z) tls_client_scheme \<Rightarrow> bool" where
  "is_handshake_complete s \<longleftrightarrow> hs_state s = ServerFinished"

section \<open>Specifications\<close>

text \<open>What the client relies on of the cryptographic library: sizes, that counter mode works byte by byte and is
  its own inverse, and that the library puts nothing on the wire.\<close>

definition ssl_ok :: "'w ssl_api \<Rightarrow> ('w \<Rightarrow> mbuf list) \<Rightarrow> bool" where
  "ssl_ok ssl wire \<longleftrightarrow>
     (\<forall>n w bs. fst (RAND_bytes ssl n w) = Some bs \<longrightarrow> length bs = n) \<and>
     (\<forall>n w. wire (snd (RAND_bytes ssl n w)) = wire w) \<and> (\<forall>c w. wire (snd (evp_call ssl c w)) = wire w) \<and>
     (\<forall>w. wire (snd (X25519_keygen ssl w)) = wire w) \<and> (\<forall>k. length (X25519_public ssl k) = 32) \<and>
     (\<forall>k l n. length (TLS1_PRF ssl k l n) = n) \<and> (\<forall>k iv d. length (gcm_ctr ssl k iv d) = length d) \<and>
     (\<forall>k iv d. gcm_ctr ssl k iv (gcm_ctr ssl k iv d) = d) \<and>
     (\<forall>k iv d n. gcm_ctr ssl k iv (take n d) = take n (gcm_ctr ssl k iv d)) \<and>
     (\<forall>k iv a d. length (gcm_tag ssl k iv a d) = 16)"

text \<open>A library none of whose checked calls fails.\<close>

definition evp_reliable :: "'w ssl_api \<Rightarrow> bool" where
  "evp_reliable ssl \<longleftrightarrow> (\<forall>name w. fst (evp_call ssl name w))"

text \<open>The same for all of it: there are random bytes, and a shared secret has its size.\<close>

definition ssl_reliable :: "'w ssl_api \<Rightarrow> bool" where
  "ssl_reliable ssl \<longleftrightarrow> evp_reliable ssl \<and> (\<forall>n w. fst (RAND_bytes ssl n w) \<noteq> None) \<and> (\<forall>k p. length (X25519_derive ssl k p) = 32)"

text \<open>The ciphertext and tag of a message under a sequence number.\<close>

definition gcm_nonce :: "bytes \<Rightarrow> u64 \<Rightarrow> bytes" where
  "gcm_nonce fixed seq = enc_nonce \<lparr>no_fixed_iv = fixed, no_explicit_iv = BE seq\<rparr>"

definition gcm_seal :: "'w ssl_api \<Rightarrow> bytes \<Rightarrow> bytes \<Rightarrow> u64 \<Rightarrow> byte \<Rightarrow> bytes \<Rightarrow> bytes" where
  "gcm_seal ssl key fixed seq content_type data =
     (let c = gcm_ctr ssl key (gcm_nonce fixed seq) data in
      c @ gcm_tag ssl key (gcm_nonce fixed seq) (make_aad seq content_type (length data)) c)"

text \<open>A protected record: the explicit nonce and the sealed message.\<close>

definition sealed_record :: "'w ssl_api \<Rightarrow> bytes \<Rightarrow> bytes \<Rightarrow> u64 \<Rightarrow> byte \<Rightarrow> bytes \<Rightarrow> bytes" where
  "sealed_record ssl key fixed seq content_type data =
     tls_record content_type (be_mem (BE seq) @ gcm_seal ssl key fixed seq content_type data)"

text \<open>Total correctness of a receive: it ends, with a value or an error.\<close>

definition returns :: "((error + 'a) \<times> 's) option \<Rightarrow> ('a \<Rightarrow> 's \<Rightarrow> bool) \<Rightarrow> (error \<Rightarrow> 's \<Rightarrow> bool) \<Rightarrow> bool" where
  "returns m Q E \<longleftrightarrow> (case m of None \<Rightarrow> False | Some (Inl e, t) \<Rightarrow> E e t | Some (Inr a, t) \<Rightarrow> Q a t)"

section \<open>Lemmas of the wrappers\<close>

lemma ssl_ok_sizes:
  assumes "ssl_ok ssl wire"
  shows "length (X25519_public ssl k) = 32" "length (TLS1_PRF ssl k l n) = n" "length (gcm_ctr ssl k iv d) = length d"
    "gcm_ctr ssl k iv (gcm_ctr ssl k iv d) = d" "gcm_ctr ssl k iv (take m d) = take m (gcm_ctr ssl k iv d)"
    "length (gcm_tag ssl k iv a d) = 16" "length (gcm_seal ssl k f q ct d) = length d + 16"
  using assms by (simp_all add: ssl_ok_def gcm_seal_def Let_def)

lemma wp_evp:
  assumes "ssl_ok ssl wire" and "\<And>w. wire w = wire (world s) \<Longrightarrow> Q () (s\<lparr>world := w\<rparr>)"
    and "\<And>w. wire w = wire (world s) \<Longrightarrow> \<not> evp_reliable ssl \<Longrightarrow> E (Runtime_error msg) (s\<lparr>world := w\<rparr>)"
  shows "wp (evp ssl name msg) Q E s"
proof -
  have "wire (snd (evp_call ssl name (world s))) = wire (world s)" using assms(1) by (simp add: ssl_ok_def)
  moreover have "\<not> fst (evp_call ssl name (world s)) \<Longrightarrow> \<not> evp_reliable ssl" by (auto simp: evp_reliable_def)
  ultimately show ?thesis using assms(2,3) by (simp add: evp_def wp_simps)
qed

lemma wp_tls_prf:
  assumes "ssl_ok ssl wire"
    and "\<And>w. wire w = wire (world s) \<Longrightarrow> Q (TLS1_PRF ssl secret (string_bytes label @ seed) n) (s\<lparr>world := w\<rparr>)"
    and "\<And>w e. wire w = wire (world s) \<Longrightarrow> \<not> evp_reliable ssl \<Longrightarrow> E e (s\<lparr>world := w\<rparr>)"
  shows "wp (tls_prf ssl secret label seed n) Q E s"
  unfolding tls_prf_def wp_thenM wp_ret
  by (intro wp_evp [OF assms(1)]) (auto intro: assms(2,3))

lemma wp_generate_x25519_key:
  assumes "ssl_ok ssl wire" and "\<And>w k. wire w = wire (world s) \<Longrightarrow> Q k (s\<lparr>world := w\<rparr>)"
    and "\<And>w e. wire w = wire (world s) \<Longrightarrow> \<not> evp_reliable ssl \<Longrightarrow> E e (s\<lparr>world := w\<rparr>)"
  shows "wp (generate_x25519_key ssl) Q E s"
proof -
  have "wire (snd (X25519_keygen ssl w)) = wire w" for w using assms(1) by (simp add: ssl_ok_def)
  then show ?thesis
    unfolding generate_x25519_key_def wp_thenM
    by (intro wp_evp [OF assms(1)]) (auto simp: wp_world_call intro: assms(2,3))
qed

text \<open>Changes of the world commute with changes of the fields of the TLS client.\<close>

lemma world_inward:
  fixes s :: "('w, 'z) tls_client_scheme"
  shows "s\<lparr>tls_send_buffer := x0, world := w\<rparr> = s\<lparr>world := w, tls_send_buffer := x0\<rparr>"
    "s\<lparr>tls_stream := x1, world := w\<rparr> = s\<lparr>world := w, tls_stream := x1\<rparr>"
    "s\<lparr>tls_random_client := x2, world := w\<rparr> = s\<lparr>world := w, tls_random_client := x2\<rparr>"
    "s\<lparr>handshake_hash := x3, world := w\<rparr> = s\<lparr>world := w, handshake_hash := x3\<rparr>"
    "s\<lparr>master_secret := x4, world := w\<rparr> = s\<lparr>world := w, master_secret := x4\<rparr>"
    "s\<lparr>enc_ctx := x5, world := w\<rparr> = s\<lparr>world := w, enc_ctx := x5\<rparr>"
    "s\<lparr>dec_ctx := x6, world := w\<rparr> = s\<lparr>world := w, dec_ctx := x6\<rparr>"
    "s\<lparr>write_sequence_number := x7, world := w\<rparr> = s\<lparr>world := w, write_sequence_number := x7\<rparr>"
    "s\<lparr>read_sequence_number := x8, world := w\<rparr> = s\<lparr>world := w, read_sequence_number := x8\<rparr>"
    "s\<lparr>iv_explicit_iv := x9, world := w\<rparr> = s\<lparr>world := w, iv_explicit_iv := x9\<rparr>"
    "s\<lparr>server_eph_pubkey := x10, world := w\<rparr> = s\<lparr>world := w, server_eph_pubkey := x10\<rparr>"
    "s\<lparr>hs_state := x11, world := w\<rparr> = s\<lparr>world := w, hs_state := x11\<rparr>"
    "s\<lparr>client_write_key := x12, world := w\<rparr> = s\<lparr>world := w, client_write_key := x12\<rparr>"
    "s\<lparr>server_write_key := x13, world := w\<rparr> = s\<lparr>world := w, server_write_key := x13\<rparr>"
    "s\<lparr>client_write_iv := x14, world := w\<rparr> = s\<lparr>world := w, client_write_iv := x14\<rparr>"
    "s\<lparr>server_write_iv := x15, world := w\<rparr> = s\<lparr>world := w, server_write_iv := x15\<rparr>"
    "s\<lparr>iv_server_write_iv := x16, world := w\<rparr> = s\<lparr>world := w, iv_server_write_iv := x16\<rparr>"
    "s\<lparr>tls_random_server := x17, world := w\<rparr> = s\<lparr>world := w, tls_random_server := x17\<rparr>"
  by simp_all

lemma wp_encrypt:
  assumes "ssl_ok ssl wire" and "enc_ctx s = Some c"
    and "\<And>w c'. wire w = wire (world s) \<Longrightarrow> ec_key c' = ec_key c \<Longrightarrow>
      Q (gcm_seal ssl (ec_key c) (client_write_iv s) (write_sequence_number s) ct view)
        (s\<lparr>world := w, enc_ctx := Some c', write_sequence_number := write_sequence_number s + 1\<rparr>)"
    and "\<And>w c' e. wire w = wire (world s) \<Longrightarrow> ec_key c' = ec_key c \<Longrightarrow> \<not> evp_reliable ssl \<Longrightarrow> E e (s\<lparr>world := w, enc_ctx := Some c'\<rparr>)"
  shows "wp (Tls_encrypt ssl view ct) Q E s"
proof -
  have "s\<lparr>world := w, enc_ctx := enc_ctx s\<rparr> = s\<lparr>world := w\<rparr>" for w by simp
  then have e: "E e (s\<lparr>world := w\<rparr>)" if "wire w = wire (world s)" "\<not> evp_reliable ssl" for e w
    using assms(4) [OF that(1) refl that(2), of e] by (simp only: assms(2))
  show ?thesis
    unfolding Tls_encrypt_def EncryptContext_init_def EncryptContext_update_aad_def EncryptContext_update_def
      EncryptContext_final_ex_def EncryptContext_append_gcm_tag_def enc_context_def
    apply (simp add: wp_simps assms(2))
    apply (intro wp_evp [OF assms(1)], simp_all add: wp_simps e)
    apply (intro wp_evp [OF assms(1)], simp_all add: wp_simps world_inward assms(4))
    apply (rule assms(3) [unfolded gcm_seal_def gcm_nonce_def Let_def]; simp)
    done
qed

section \<open>Sending a filled buffer\<close>

lemma open_buffer_cong: "same_segment_state s t \<Longrightarrow> open_buffer s f opt sb = open_buffer t f opt sb"
  by (simp add: same_segment_state_def open_buffer_def)

lemma same_segment_frame: "same_segment_state s t \<Longrightarrow> client_frame api s = client_frame api t"
  by (intro client_frame_cong) (simp_all add: same_segment_state_def)

lemma same_segment_world [simp]: "same_segment_state (s\<lparr>world := w\<rparr>) t = same_segment_state s t"
  by (simp add: same_segment_state_def)

lemma sent_state: "t\<lparr>world := w\<rparr> = after_send n s \<Longrightarrow> t = (after_send n s)\<lparr>world := world t\<rparr>"
proof -
  assume "t\<lparr>world := w\<rparr> = after_send n s"
  then have "t\<lparr>world := w\<rparr>\<lparr>world := world t\<rparr> = (after_send n s)\<lparr>world := world t\<rparr>" by (simp only:)
  then show ?thesis by simp
qed

text \<open>
  The rule for the sending functions: the filling leaves the TCP state alone and puts nothing on the wire;
  then one frame with the filled bytes goes out, or the call throws and nothing does.
\<close>

lemma wp_send_filled:
  fixes s :: "('w, 'z) tcp_client_scheme"
  assumes dpdk: "dpdk_ok api wire"
    and fill: "\<And>ws t. length (ws_mem ws) = 1994 \<Longrightarrow> ws_cap ws = 2122 \<Longrightarrow> write_it ws = 0 \<Longrightarrow>
      t\<lparr>world := world s\<rparr> = s \<Longrightarrow> wire (world t) = wire (world s) \<Longrightarrow>
      wp (fill ws) (\<lambda>r u. case r of (ws', n) \<Rightarrow> length (ws_mem ws') = 1994 \<and> n \<le> 1994 \<and> same_segment_state u s \<and>
          wire (world u) = wire (world s) \<and> P (take n (ws_mem ws')) u)
        (\<lambda>_ u. wire (world u) = wire (world s) \<and> \<not> reliable) t"
  shows "wp (send_filled api fill)
     (\<lambda>_ t. \<exists>u p m w. P p u \<and> t = (after_send (length p) u)\<lparr>world := w\<rparr> \<and> same_segment_state t (after_send (length p) s) \<and> length p \<le> 1994 \<and>
        wire w = wire (world s) @ [m] \<and> client_frame api s Flags_PSH_ACK False p m)
     (\<lambda>_ t. wire (world t) = wire (world s) \<and> (room s 1994 \<longrightarrow> dpdk_reliable api \<longrightarrow> \<not> reliable)) s"
proof -
  have hl: "tcp_header_length False = 20" by (simp add: tcp_header_length_def)
  have free: "wire (rte_pktmbuf_free api m w) = wire w" for m w using dpdk by simp
  have send: "wp (Client_send api (sb_written ws' sb) n)
     (\<lambda>_ t. \<exists>u p m w. P p u \<and> t = (after_send (length p) u)\<lparr>world := w\<rparr> \<and> same_segment_state t (after_send (length p) s) \<and> length p \<le> 1994 \<and>
        wire w = wire (world s) @ [m] \<and> client_frame api s Flags_PSH_ACK False p m)
     (\<lambda>_ t. wire (world t) = wire (world s) \<and> (room s 1994 \<longrightarrow> dpdk_reliable api \<longrightarrow> \<not> reliable)) u"
    if sb: "open_buffer s Flags_PSH_ACK False sb" and ws: "length (ws_mem ws') = 1994" "n \<le> 1994"
      and u: "same_segment_state u s" "wire (world u) = wire (world s)" and P: "P (take n (ws_mem ws')) u" for sb ws' n u
  proof -
    let ?p = "take n (ws_mem ws')"
    have o: "open_buffer u Flags_PSH_ACK False sb" using sb open_buffer_cong [OF u(1)] by simp
    have l: "length (ws_mem ws') = 2014 - tcp_header_length False" using ws by (simp add: hl)
    have p: "length ?p = n" using ws by simp
    note w = open_buffer_written [OF o l]
    have c: "chunk (34 + tcp_header_length False) (length ?p) (v_mem (sb_tcp (sb_written ws' sb))) = ?p"
      unfolding chunk_def w(2) p by simp
    have b: "34 + tcp_header_length False + length ?p \<le> 2048" using ws by (simp add: hl)
    show ?thesis
    proof (rule wp_mono [OF wp_send_open [OF dpdk w(1) c b, unfolded p]])
      fix t :: "('w, 'z) tcp_client_scheme"
      assume t: "t\<lparr>world := world u\<rparr> = after_send n u \<and> unat (unacknowledged_bytes u) + n \<le> unat (send_wnd u) \<and>
        (\<exists>m. wire (world t) = wire (world u) @ [m] \<and> client_frame api u Flags_PSH_ACK False ?p m)"
      then have "t = (after_send (length ?p) u)\<lparr>world := world t\<rparr>" unfolding p by (blast intro: sent_state)
      moreover have "same_segment_state t (after_send (length ?p) s)"
        using u(1) same_segment_sent [of "world u" t n u] t unfolding p by (simp add: same_segment_state_def after_send_def)
      ultimately show "\<exists>u p m w. P p u \<and> t = (after_send (length p) u)\<lparr>world := w\<rparr> \<and> same_segment_state t (after_send (length p) s) \<and> length p \<le> 1994 \<and>
        wire w = wire (world s) @ [m] \<and> client_frame api s Flags_PSH_ACK False p m"
        using same_segment_frame [OF u(1)] t P u(2) p ws(2) by metis
    qed (use u ws in \<open>auto simp: room_def same_segment_state_def\<close>)
  qed
  show ?thesis
    unfolding send_filled_def wp_bindM
  proof (rule wp_mono [OF wp_get_send_buffer_open [OF dpdk]], clarify)
    fix sb t
    assume t: "t\<lparr>world := world s\<rparr> = s" "wire (world t) = wire (world s)" "open_buffer s Flags_PSH_ACK False sb"
    have l: "length (v_mem (sb_tcp sb)) = 2048" using t(3) by (simp add: open_buffer_def)
    show "wp (free_on_throw api (sb_tx sb) (bindM (Tcp_payload_write_stream (sb_tcp sb)) fill))
      (\<lambda>a. wp (case a of (ws, n) \<Rightarrow> Client_send api (sb_written ws sb) n)
        (\<lambda>_ t. \<exists>u p m w. P p u \<and> t = (after_send (length p) u)\<lparr>world := w\<rparr> \<and> same_segment_state t (after_send (length p) s) \<and> length p \<le> 1994 \<and>
          wire w = wire (world s) @ [m] \<and> client_frame api s Flags_PSH_ACK False p m)
        (\<lambda>_ t. wire (world t) = wire (world s) \<and> (room s 1994 \<longrightarrow> dpdk_reliable api \<longrightarrow> \<not> reliable))) (\<lambda>_ t. wire (world t) = wire (world s) \<and> (room s 1994 \<longrightarrow> dpdk_reliable api \<longrightarrow> \<not> reliable)) t"
      unfolding wp_free_on_throw wp_bindM wp_payload_write_stream [OF t(3)]
      by (rule wp_mono [OF fill [OF _ _ _ t(1,2)]])
         (auto simp: l hl WriteStream_new_def free simp del: ex_simps intro!: send t(3))
  qed simp
qed

lemma wp_push_field [wp_simps]:
  "wp (push_field bs ws) Q E = (\<lambda>s.
     if ws_cap ws < write_it ws + length bs then E (Runtime_error ''Out of bounds'') s
     else if length (ws_mem ws) < write_it ws + length bs then E (Undefined_behaviour ''write past the buffer'') s
     else Q (ws\<lparr>ws_mem := poke (write_it ws) bs (ws_mem ws), write_it := write_it ws + length bs\<rparr>) s)"
  by (auto simp: push_field_def WriteStream_push_bytes_def wp_simps fun_eq_iff)

lemma wp_assign_field [wp_simps]:
  "wp (assign_field off bs ws) Q E = (\<lambda>s.
     if length (ws_mem ws) < off + length bs then E (Undefined_behaviour ''write past the buffer'') s
     else Q (ws\<lparr>ws_mem := poke off bs (ws_mem ws)\<rparr>) s)"
  by (auto simp: assign_field_def WriteStream_assign_def wp_simps fun_eq_iff)

section \<open>Flushing application data\<close>

lemma poke_prefix: "off + length bs \<le> length xs \<Longrightarrow> poke off bs (xs @ ys) = poke off bs xs @ ys"
  by (simp add: poke_def)

lemma poke_suffix: "poke (length xs) bs (xs @ ys) = xs @ poke 0 bs ys"
  by (simp add: poke_def)

lemma poke_middle: "off = length xs \<Longrightarrow> length bs = length ys \<Longrightarrow> poke off bs (xs @ ys @ zs) = xs @ bs @ zs"
  by (simp add: poke_def)

text \<open>The header of an application record as its fields, and the memory the stores of \<^verbatim>\<open>flush\<close> leave.\<close>

lemma flush_memory:
  assumes "length out = length data + 16" and "length data + 29 \<le> length mem"
  shows "take (13 + length out)
      (poke 3 (be_mem (BE (of_nat (8 + length out)) :: 16 be)) (poke 13 out (poke 13 data
        (poke 5 (be_mem (BE seq :: 64 be)) (poke 0 (enc_tls_record_struct kApplicationDataTlsRecord) mem))))) =
     tls_record ContentType_ApplicationData (be_mem (BE seq) @ out)"
    and "chunk 13 (length data) (poke 13 data
        (poke 5 (be_mem (BE seq :: 64 be)) (poke 0 (enc_tls_record_struct kApplicationDataTlsRecord) mem))) = data"
proof -
  let ?h = "[ContentType_ApplicationData, 3, 3]" and ?z = "be_mem (BE 0 :: 16 be)" and ?q = "be_mem (BE seq :: 64 be)"
  have k: "enc_tls_record_struct kApplicationDataTlsRecord = ?h @ ?z @ be_mem (BE 0 :: 64 be)"
    by (simp add: kApplicationDataTlsRecord_def kApplicationDataTlsRecordHeader_def enc_tls_record_struct_def
        enc_record_header_def kTls12_def)
  have "poke 0 (enc_tls_record_struct kApplicationDataTlsRecord) mem = (?h @ ?z) @ be_mem (BE 0 :: 64 be) @ drop 13 mem"
    unfolding k by (simp add: poke_def)
  then have 1: "poke 5 ?q (poke 0 (enc_tls_record_struct kApplicationDataTlsRecord) mem) = (?h @ ?z @ ?q) @ drop 13 mem"
    by (simp add: poke_def)
  have 2: "poke 13 out (poke 13 data ((?h @ ?z @ ?q) @ drop 13 mem)) = ?h @ ?z @ ?q @ out @ drop (29 + length data) mem"
    using assms poke_suffix [of "?h @ ?z @ ?q"] by (simp add: poke_def [of 0] add.commute)
  show "take (13 + length out)
      (poke 3 (be_mem (BE (of_nat (8 + length out)) :: 16 be)) (poke 13 out (poke 13 data
        (poke 5 ?q (poke 0 (enc_tls_record_struct kApplicationDataTlsRecord) mem))))) =
     tls_record ContentType_ApplicationData (?q @ out)"
    unfolding 1 2 by (subst poke_middle) (simp_all add: tls_record_def enc_record_header_def kTls12_def take_Cons')
  show "chunk 13 (length data) (poke 13 data (poke 5 ?q (poke 0 (enc_tls_record_struct kApplicationDataTlsRecord) mem))) = data"
    unfolding 1 using assms(2) by simp
qed

text \<open>What filling the buffer for a flush achieves: the payload and the state.\<close>

definition flushed ::
    "'w ssl_api \<Rightarrow> evp_ctx \<Rightarrow> ('w, 'z) tls_client_scheme \<Rightarrow> bytes \<Rightarrow> ('w, 'z) tls_client_scheme \<Rightarrow> bool" where
  "flushed ssl c s p u \<longleftrightarrow>
     p = sealed_record ssl (ec_key c) (client_write_iv s) (write_sequence_number s) ContentType_ApplicationData
       (Stream_contents (tls_send_buffer s)) \<and>
     Stream_inv (tls_send_buffer u) \<and> Stream_contents (tls_send_buffer u) = [] \<and>
     map_option ec_key (enc_ctx u) = Some (ec_key c) \<and> write_sequence_number u = write_sequence_number s + 1 \<and>
     client_write_iv u = client_write_iv s \<and> tls_stream u = tls_stream s \<and> hs_state u = hs_state s"

lemma wp_fill_application_record:
  assumes ssl: "ssl_ok ssl wire" and ctx: "enc_ctx s = Some c" and inv: "Stream_inv (tls_send_buffer s)"
    and data: "length (Stream_contents (tls_send_buffer s)) \<le> 1965"
    and ws: "length (ws_mem ws) = 1994" "ws_cap ws = 2122" "write_it ws = 0"
  shows "wp (fill_flush ssl ws) (\<lambda>r u. case r of (ws', n) \<Rightarrow> length (ws_mem ws') = 1994 \<and> n \<le> 1994 \<and>
       same_segment_state u s \<and> wire (world u) = wire (world s) \<and>
       flushed ssl c s (take n (ws_mem ws')) u)
     (\<lambda>_ u. wire (world u) = wire (world s) \<and> \<not> ssl_reliable ssl) s"
proof -
  define data where "data = Stream_contents (tls_send_buffer s)"
  define out where "out = gcm_seal ssl (ec_key c) (client_write_iv s) (write_sequence_number s) ContentType_ApplicationData data"
  have n: "Stream_size (tls_send_buffer s) = length data" using inv by (simp add: data_def)
  have l: "length out = length data + 16" "length data \<le> 1965"
    using data by (simp_all add: out_def data_def ssl_ok_sizes [OF ssl])
  have "length data + 29 \<le> length (ws_mem ws)" using l ws by simp
  note m = flush_memory [OF l(1) this, where seq = "write_sequence_number s"]
  show ?thesis
    unfolding fill_flush_def
    apply (simp add: wp_simps ws on_send_buffer_def n)
    apply (rule fifo.pop_wp [OF inv])
     apply (use l(2) in \<open>simp_all add: wp_simps ws flip: data_def\<close>)
    apply (rule wp_encrypt [OF ssl])
      apply (simp add: ctx)
     apply (use l ws m(1) in \<open>simp_all add: same_segment_state_def ssl_reliable_def flushed_def sealed_record_def world_inward flip: out_def data_def\<close>)
    done
qed

lemma same_but_world:
  fixes s t :: "('w, 'z) device_scheme"
  assumes "t\<lparr>world := world s\<rparr> = s" obtains w where "t = s\<lparr>world := w\<rparr>"
proof -
  have "t = (t\<lparr>world := world s\<rparr>)\<lparr>world := world t\<rparr>" by simp
  then show thesis using that unfolding assms by blast
qed

lemma wp_flush:
  assumes dpdk: "dpdk_ok api wire" and ssl: "ssl_ok ssl wire" and ctx: "enc_ctx s = Some c"
    and inv: "Stream_inv (tls_send_buffer s)" and data: "length (Stream_contents (tls_send_buffer s)) \<le> 1965"
  shows "wp (Tls_flush api ssl) (\<lambda>_ t. \<exists>p m. flushed ssl c s p t \<and> same_segment_state t (after_send (length p) s) \<and> length p \<le> 1994 \<and>
       wire (world t) = wire (world s) @ [m] \<and> client_frame api s Flags_PSH_ACK False p m)
     (\<lambda>_ t. wire (world t) = wire (world s) \<and> (room s 1994 \<longrightarrow> dpdk_reliable api \<longrightarrow> \<not> ssl_reliable ssl)) s"
  unfolding Tls_flush_def
proof (rule wp_mono [OF wp_send_filled [OF dpdk, where P = "flushed ssl c s" and reliable = "ssl_reliable ssl"]])
  fix ws :: write_stream and t
  assume ws: "length (ws_mem ws) = 1994" "ws_cap ws = 2122" "write_it ws = 0"
    and t: "t\<lparr>world := world s\<rparr> = s" "wire (world t) = wire (world s)"
  from t(1) obtain w where tw: "t = s\<lparr>world := w\<rparr>" by (rule same_but_world)
  show "wp (fill_flush ssl ws) (\<lambda>r u. case r of (ws', n) \<Rightarrow> length (ws_mem ws') = 1994 \<and> n \<le> 1994 \<and>
      same_segment_state u s \<and> wire (world u) = wire (world s) \<and> flushed ssl c s (take n (ws_mem ws')) u)
     (\<lambda>_ u. wire (world u) = wire (world s) \<and> \<not> ssl_reliable ssl) t"
    by (rule wp_mono [OF wp_fill_application_record [OF ssl _ _ _ ws, of t c]])
       (use ctx inv data t(2) in \<open>auto simp: tw same_segment_state_def flushed_def\<close>)
qed (auto simp: flushed_def after_send_def)

section \<open>Receiving application data\<close>

lemma receive_rule:
  assumes "wp (Tls_receive_pass api ssl) (\<lambda>r t. case r of Return x \<Rightarrow> Q x t | Recurse \<Rightarrow> returns (Tls_receive api ssl t) Q E) E s"
  shows "returns (Tls_receive api ssl s) Q E"
proof -
  obtain r t where rt: "Tls_receive_pass api ssl s = (r, t)" by fastforce
  have "returns (Tls_receive api ssl s) Q E = (case r of Inl e \<Rightarrow> E e t | Inr (Return x) \<Rightarrow> Q x t
     | Inr Recurse \<Rightarrow> returns (Tls_receive api ssl t) Q E)"
    by (subst Tls_receive.simps) (simp add: rt returns_def [of "Some _"] split: sum.split pass.split)
  with assms show ?thesis by (auto simp: wp_def rt split: sum.splits pass.splits)
qed

lemma returns_mono:
  assumes "returns m Q E" and "\<And>a t. Q a t \<Longrightarrow> Q' a t" and "\<And>e t. E e t \<Longrightarrow> E' e t"
  shows "returns m Q' E'"
  using assms by (auto simp: returns_def split: option.splits sum.splits)

lemma returns_value: "returns m (\<lambda>r t. r = a \<and> t = s) (\<lambda>_ _. False) \<Longrightarrow> m = Some (Inr a, s)"
  by (cases m; cases "fst (the m)") (auto simp: returns_def split: prod.splits)

lemma returns_error: "returns m (\<lambda>_ _. False) (\<lambda>e t. e = x \<and> t = s) \<Longrightarrow> m = Some (Inl x, s)"
  by (cases m; cases "fst (the m)") (auto simp: returns_def split: prod.splits)

lemma wp_on_stream:
  "wp (on_stream m) Q E = (\<lambda>s. wp m (\<lambda>a t. Q a (s\<lparr>tls_stream := t\<rparr>)) (\<lambda>e t. E e (s\<lparr>tls_stream := t\<rparr>)) (tls_stream s))"
  unfolding on_stream_def by (rule wp_zoom)

text \<open>The client's stream holds the given bytes.\<close>

definition pending :: "('w, 'z) tls_client_scheme \<Rightarrow> bytes \<Rightarrow> bool" where
  "pending s bs \<longleftrightarrow> Stream_inv (tls_stream s) \<and> Stream_contents (tls_stream s) = bs"

lemma wp_stream_pop:
  assumes "pending s bs" and "n \<le> length bs"
    and "\<And>st. pending (s\<lparr>tls_stream := st\<rparr>) (drop n bs) \<Longrightarrow> Q (Some (take n bs)) (s\<lparr>tls_stream := st\<rparr>)"
  shows "wp (on_stream (Stream_pop n)) Q E s"
  unfolding wp_on_stream using assms by (intro fifo.pop_wp) (auto simp: pending_def)

lemma wp_stream_pop_obj:
  assumes "pending s bs" and "n \<le> length bs"
    and "\<And>st. pending (s\<lparr>tls_stream := st\<rparr>) (drop n bs) \<Longrightarrow> Q (Some (dec (take n bs))) (s\<lparr>tls_stream := st\<rparr>)"
  shows "wp (on_stream (Stream_pop_obj dec n)) Q E s"
  unfolding wp_on_stream using assms by (intro wp_pop_obj_contents) (auto simp: pending_def)

lemma wp_stream_peek:
  "pending s bs \<Longrightarrow> wp (on_stream (Stream_peek n)) Q E s = Q (if n \<le> length bs then Some (take n bs) else None) s"
  by (auto simp: wp_on_stream pending_def wp_peek_contents)

lemma wp_stream_peek_obj:
  "pending s bs \<Longrightarrow> wp (on_stream (Stream_peek_obj dec n)) Q E s = Q (if n \<le> length bs then Some (dec (take n bs)) else None) s"
  by (auto simp: wp_on_stream pending_def wp_peek_obj_contents)

lemma pending_update [simp]:
  "pending (s\<lparr>world := w\<rparr>) bs = pending s bs" "pending (s\<lparr>iv_explicit_iv := x\<rparr>) bs = pending s bs"
  "pending (s\<lparr>dec_ctx := d\<rparr>) bs = pending s bs" "pending (s\<lparr>read_sequence_number := q\<rparr>) bs = pending s bs"
  "pending (s\<lparr>hs_state := h\<rparr>) bs = pending s bs" "pending (s\<lparr>handshake_hash := hh\<rparr>) bs = pending s bs"
  "pending (s\<lparr>tls_random_server := r\<rparr>) bs = pending s bs" "pending (s\<lparr>server_eph_pubkey := k\<rparr>) bs = pending s bs"
  by (simp_all add: pending_def)

lemma wp_decrypt:
  assumes ssl: "ssl_ok ssl wire" and ctx: "dec_ctx s = Some c" and len: "16 < length bs"
    and ok: "\<And>w c'. wire w = wire (world s) \<Longrightarrow> ec_key c' = ec_key c \<Longrightarrow>
      Q (take (length bs - 16) (gcm_ctr ssl (ec_key c) (iv_server_write_iv s @ iv_explicit_iv s) bs))
        (s\<lparr>world := w, dec_ctx := Some c', read_sequence_number := read_sequence_number s + 1\<rparr>)"
    and err: "\<And>w c' q e. wire w = wire (world s) \<Longrightarrow> ec_key c' = ec_key c \<Longrightarrow> \<not> evp_reliable ssl \<Longrightarrow>
      E e (s\<lparr>world := w, dec_ctx := Some c', read_sequence_number := q\<rparr>)"
  shows "wp (Tls_decrypt ssl bs) Q E s"
proof -
  have "s\<lparr>world := w, dec_ctx := dec_ctx s, read_sequence_number := read_sequence_number s\<rparr> = s\<lparr>world := w\<rparr>" for w by simp
  then have e: "E e (s\<lparr>world := w\<rparr>)" if "wire w = wire (world s)" "\<not> evp_reliable ssl" for e w
    using err [OF that(1) refl that(2), of e "read_sequence_number s"] by (simp only: ctx)
  have swap: "t\<lparr>read_sequence_number := q, dec_ctx := d\<rparr> = t\<lparr>dec_ctx := d, read_sequence_number := q\<rparr>"
    for t :: "('a, 'b) tls_client_scheme" and q d by simp
  have l: "length bs > kGcmTagSize" using len by (simp add: kGcmTagSize_def)
  show ?thesis
    unfolding Tls_decrypt_def Let_def
    apply (simp add: wp_simps ctx l)
    apply (intro wp_evp [OF ssl], simp_all add: wp_simps e)
      apply (simp_all add: world_inward swap err)
    apply (simp add: kGcmTagSize_def ok)
    done
qed

lemma wp_receive_application_data:
  assumes ssl: "ssl_ok ssl wire" and ctx: "dec_ctx s = Some c" and len: "16 < length body" "length body < 65528" "length nonce = 8"
    and p: "pending s (tls_record ContentType_ApplicationData (nonce @ body) @ rest)"
    and h: "header = \<lparr>rh_content_type = ContentType_ApplicationData, rh_version = kTls12, rh_size = BE (of_nat (8 + length body))\<rparr>"
  shows "wp (receive_application_data ssl header)
     (\<lambda>r t. r = Some (take (length body - 16) (gcm_ctr ssl (ec_key c) (iv_server_write_iv s @ nonce) body)) \<and> pending t rest \<and>
        wire (world t) = wire (world s) \<and> read_sequence_number t = read_sequence_number s + 1 \<and>
        hs_state t = hs_state s \<and> map_option ec_key (dec_ctx t) = Some (ec_key c) \<and> iv_server_write_iv t = iv_server_write_iv s \<and>
        cl_state t = cl_state s \<and> same_segment_state t s)
     (\<lambda>_ t. pending t rest \<and> wire (world t) = wire (world s) \<and> \<not> evp_reliable ssl \<and>
        cl_state t = cl_state s \<and> same_segment_state t s) s"
proof -
  have sz: "unat (be_value (rh_size header)) = 8 + length body"
    using len by (simp add: h del: of_nat_add)
  have s64: "sub64 (8 + length body) 8 = length body" using len by simp
  have ct: "rh_content_type header = ContentType_ApplicationData" by (simp add: h)
  show ?thesis
    unfolding receive_application_data_def
    apply (subst wp_bindM, rule wp_stream_pop_obj [OF p])
     apply (simp add: sizeof_record_header_def)
    apply (simp add: wp_simps sizeof_record_header_def kExplicitIvSize_def sz len ct)
    apply (rule wp_stream_pop, assumption)
     apply (simp_all add: wp_simps len)
    apply (rule wp_stream_pop [where bs = "body @ rest"])
      apply (simp_all add: wp_simps len s64)
    apply (rule wp_decrypt [OF ssl])
       apply (simp_all add: ctx len same_segment_state_def)
    done
qed

text \<open>A pass over a stream that starts with a complete record, and one over a stream that does not.\<close>

lemma wp_pass_record:
  assumes p: "pending s (tls_record ct body @ rest)" and len: "length body < 65536" and st: "hs_state s \<noteq> ClientHelloToSend"
  shows "wp (Tls_receive_pass api ssl) Q E s =
     (if hs_state s \<noteq> ServerFinished
      then wp (process_handshake api ssl) (\<lambda>_ t. if 5 \<le> Stream_size (tls_stream t) then Q Recurse t else Q (Return None) t) E s
      else wp (receive_application_data ssl
        \<lparr>rh_content_type = ct, rh_version = kTls12, rh_size = BE (of_nat (length body))\<rparr>) (\<lambda>r. Q (Return r)) E s)"
proof -
  have "sizeof_record_header + unat (be_value (BE (of_nat (length body)) :: 16 be)) \<le> length (tls_record ct body @ rest)"
    using len by (simp add: sizeof_record_header_def)
  then show ?thesis
    unfolding Tls_receive_pass_def using len
    by (simp add: wp_simps st wp_stream_peek_obj [OF p] wp_stream_peek [OF p])
       (simp add: sizeof_record_header_def wp_if wp_ret)
qed

definition incomplete_record :: "bytes \<Rightarrow> bool" where
  "incomplete_record bs \<longleftrightarrow> length bs < 5 \<or>
     rh_version (dec_record_header (take 5 bs)) = kTls12 \<and>
     length bs < 5 + unat (be_value (rh_size (dec_record_header (take 5 bs))))"

lemma wp_pass_incomplete:
  assumes p: "pending s bs" and "incomplete_record bs" and st: "hs_state s \<noteq> ClientHelloToSend"
  shows "wp (Tls_receive_pass api ssl) Q E s = Q (Return None) s"
  unfolding Tls_receive_pass_def using assms(2)
  by (auto simp: wp_simps st wp_stream_peek_obj [OF p] wp_stream_peek [OF p] incomplete_record_def sizeof_record_header_def)

lemma receive_application_record:
  assumes ssl: "ssl_ok ssl wire" and ctx: "dec_ctx s = Some c" and st: "hs_state s = ServerFinished"
    and len: "16 < length body" "length body < 65528" "length nonce = 8"
    and p: "pending s (tls_record ContentType_ApplicationData (nonce @ body) @ rest)"
  shows "returns (Tls_receive api ssl s)
     (\<lambda>r t. r = Some (take (length body - 16) (gcm_ctr ssl (ec_key c) (iv_server_write_iv s @ nonce) body)) \<and> pending t rest \<and>
        wire (world t) = wire (world s) \<and> read_sequence_number t = read_sequence_number s + 1 \<and>
        hs_state t = hs_state s \<and> map_option ec_key (dec_ctx t) = Some (ec_key c) \<and> iv_server_write_iv t = iv_server_write_iv s \<and>
        cl_state t = cl_state s \<and> same_segment_state t s)
     (\<lambda>_ t. pending t rest \<and> wire (world t) = wire (world s) \<and> \<not> evp_reliable ssl \<and>
        cl_state t = cl_state s \<and> same_segment_state t s)"
proof (rule receive_rule, subst wp_pass_record [OF p])
  show "if hs_state s \<noteq> ServerFinished then wp (process_handshake api ssl) A E s
     else wp (receive_application_data ssl \<lparr>rh_content_type = ContentType_ApplicationData, rh_version = kTls12,
        rh_size = BE (word_of_nat (length (nonce @ body)))\<rparr>)
      (\<lambda>r t. case Return r of Return x \<Rightarrow> (\<lambda>r t. r = Some (take (length body - 16) (gcm_ctr ssl (ec_key c) (iv_server_write_iv s @ nonce) body)) \<and> pending t rest \<and>
        wire (world t) = wire (world s) \<and> read_sequence_number t = read_sequence_number s + 1 \<and>
        hs_state t = hs_state s \<and> map_option ec_key (dec_ctx t) = Some (ec_key c) \<and> iv_server_write_iv t = iv_server_write_iv s \<and>
        cl_state t = cl_state s \<and> same_segment_state t s) x t
       | Recurse \<Rightarrow> B t)
      (\<lambda>_ t. pending t rest \<and> wire (world t) = wire (world s) \<and> \<not> evp_reliable ssl \<and>
        cl_state t = cl_state s \<and> same_segment_state t s) s" for A B E
    using wp_receive_application_data [OF ssl ctx len p, of "\<lparr>rh_content_type = ContentType_ApplicationData, rh_version = kTls12,
        rh_size = BE (word_of_nat (length (nonce @ body)))\<rparr>"] st len(3) by simp
qed (use len st in simp_all)

section \<open>The key exchange\<close>

definition master_secret_of :: "'w ssl_api \<Rightarrow> bytes \<Rightarrow> bytes \<Rightarrow> bytes" where
  "master_secret_of ssl shared transcript =
     TLS1_PRF ssl shared (string_bytes ''extended master secret'' @ EVP_sha256 ssl transcript) 48"

definition key_block :: "'w ssl_api \<Rightarrow> bytes \<Rightarrow> bytes \<Rightarrow> bytes \<Rightarrow> bytes" where
  "key_block ssl master server_random client_random =
     TLS1_PRF ssl master (string_bytes ''key expansion'' @ server_random @ client_random) 40"

definition client_finished :: "'w ssl_api \<Rightarrow> bytes \<Rightarrow> bytes \<Rightarrow> bytes" where
  "client_finished ssl master transcript =
     enc_finished_message \<lparr>fm_header = \<lparr>hh_type = HandshakeType_Finished, hh_size = UInt24 12\<rparr>,
       fm_verify_data = TLS1_PRF ssl master (string_bytes ''client finished'' @ EVP_sha256 ssl transcript) 12\<rparr>"

definition client_key_exchange :: "bytes \<Rightarrow> bytes" where
  "client_key_exchange pub =
     enc_handshake_header \<lparr>hh_type = HandshakeType_ClientKeyExchange, hh_size = UInt24 33\<rparr> @ [32] @ pub"

lemma wp_derive_shared_secret:
  assumes ssl: "ssl_ok ssl wire"
    and ok: "\<And>w. wire w = wire (world s) \<Longrightarrow> Q (X25519_derive ssl k (take 32 (server_eph_pubkey s))) (s\<lparr>world := w\<rparr>)"
    and err: "\<And>w e. wire w = wire (world s) \<Longrightarrow> \<not> ssl_reliable ssl \<Longrightarrow> E e (s\<lparr>world := w\<rparr>)"
  shows "wp (derive_shared_secret ssl k) Q E s"
  unfolding derive_shared_secret_def Let_def wp_bindM wp_thenM wp_gets wp_ret wp_require
  by (intro wp_evp [OF ssl]) (auto simp: ssl_reliable_def intro: ok err)

lemma wp_encrypt_context_new:
  assumes ssl: "ssl_ok ssl wire"
    and ok: "\<And>w. wire w = wire (world s) \<Longrightarrow> Q \<lparr>ec_key = key, ec_iv = [], ec_aad = [], ec_in = []\<rparr> (s\<lparr>world := w\<rparr>)"
    and err: "\<And>w e. wire w = wire (world s) \<Longrightarrow> \<not> evp_reliable ssl \<Longrightarrow> E e (s\<lparr>world := w\<rparr>)"
  shows "wp (EncryptContext_new ssl key) Q E s"
  unfolding EncryptContext_new_def wp_thenM wp_ret
  by (intro wp_evp [OF ssl]) (auto intro: ok err)

text \<open>The fields the key schedule fills; everything else stays as it was.\<close>

definition keys_installed :: "bytes \<Rightarrow> bytes \<Rightarrow> ('w, 'z) tls_client_scheme \<Rightarrow> ('w, 'z) tls_client_scheme" where
  "keys_installed master keys s = s\<lparr>master_secret := master, client_write_key := chunk 0 16 keys,
     server_write_key := chunk 16 16 keys, client_write_iv := chunk 32 4 keys, server_write_iv := chunk 36 4 keys,
     enc_ctx := Some \<lparr>ec_key = chunk 0 16 keys, ec_iv = [], ec_aad = [], ec_in = []\<rparr>,
     dec_ctx := Some \<lparr>ec_key = chunk 16 16 keys, ec_iv = [], ec_aad = [], ec_in = []\<rparr>,
     iv_server_write_iv := chunk 36 4 keys\<rparr>"

lemma keys_installed_fields [simp]:
  "world (keys_installed m k s) = world s" "handshake_hash (keys_installed m k s) = handshake_hash s"
  "master_secret (keys_installed m k s) = m" "client_write_iv (keys_installed m k s) = chunk 32 4 k"
  "iv_server_write_iv (keys_installed m k s) = chunk 36 4 k" "tls_stream (keys_installed m k s) = tls_stream s"
  "write_sequence_number (keys_installed m k s) = write_sequence_number s"
  "read_sequence_number (keys_installed m k s) = read_sequence_number s" "hs_state (keys_installed m k s) = hs_state s"
  "enc_ctx (keys_installed m k s) = Some \<lparr>ec_key = chunk 0 16 k, ec_iv = [], ec_aad = [], ec_in = []\<rparr>"
  "dec_ctx (keys_installed m k s) = Some \<lparr>ec_key = chunk 16 16 k, ec_iv = [], ec_aad = [], ec_in = []\<rparr>"
  "cl_connection (keys_installed m k s) = cl_connection s" "cl_seq (keys_installed m k s) = cl_seq s"
  "cl_ack (keys_installed m k s) = cl_ack s" "cl_ip_id (keys_installed m k s) = cl_ip_id s" "cl_state (keys_installed m k s) = cl_state s"
  "unacknowledged_bytes (keys_installed m k s) = unacknowledged_bytes s" "last_ack_number (keys_installed m k s) = last_ack_number s"
  "send_wnd (keys_installed m k s) = send_wnd s" "peer_window_scale (keys_installed m k s) = peer_window_scale s" "tls_random_client (keys_installed m k s) = tls_random_client s"
  by (simp_all add: keys_installed_def)

lemma wp_derive_keys:
  assumes ssl: "ssl_ok ssl wire"
    and ok: "\<And>w. wire w = wire (world s) \<Longrightarrow>
      Q () (keys_installed (master_secret_of ssl shared (handshake_hash s))
        (key_block ssl (master_secret_of ssl shared (handshake_hash s)) (tls_random_server s) (tls_random_client s)) (s\<lparr>world := w\<rparr>))"
    and err: "\<And>t e. wire (world t) = wire (world s) \<Longrightarrow> \<not> evp_reliable ssl \<Longrightarrow> E e t"
  shows "wp (derive_keys ssl shared) Q E s"
  unfolding derive_keys_def HandshakeHash_finalize_def wp_bindM wp_thenM wp_gets wp_modify
  apply (rule wp_tls_prf [OF ssl])
   apply (rule wp_tls_prf [OF ssl])
    apply (rule wp_encrypt_context_new [OF ssl])
     apply (rule wp_encrypt_context_new [OF ssl])
  subgoal for w1 w2 w3 w4
    using ok [of w4] by (simp add: keys_installed_def master_secret_of_def key_block_def world_inward)
  by (simp_all add: err)

text \<open>The memory the stores of the key exchange leave.\<close>

lemma poke_append_drop:
  "off = length xs \<Longrightarrow> poke off bs (xs @ drop off mem) = (xs @ bs) @ drop (off + length bs) mem"
  by (simp add: poke_def add.commute)

lemma key_exchange_memory:
  assumes "length pub = 32"
  shows "poke 10 pub (poke 0 (enc_key_exchange_message kX25519KeyExchangeMessage) mem) =
      tls_record ContentType_Handshake (client_key_exchange pub) @ drop 42 mem"
proof -
  let ?h = "enc_record_header \<lparr>rh_content_type = ContentType_Handshake, rh_version = kTls12, rh_size = BE 37\<rparr>"
  let ?k = "enc_handshake_header \<lparr>hh_type = HandshakeType_ClientKeyExchange, hh_size = UInt24 33\<rparr>"
  have "enc_key_exchange_message kX25519KeyExchangeMessage = ?h @ ?k @ [32] @ replicate 32 0"
    by (simp add: enc_key_exchange_message_def kX25519KeyExchangeMessage_def)
  then have "poke 0 (enc_key_exchange_message kX25519KeyExchangeMessage) mem = (?h @ ?k @ [32]) @ replicate 32 0 @ drop 42 mem"
    by (simp add: poke_def)
  then show ?thesis
    using assms by (simp only:) (subst poke_middle, simp_all add: tls_record_def client_key_exchange_def)
qed

lemma finished_memory:
  assumes "length a = 42" "length verify = 12"
  shows "poke 53 (be_mem (BE seq :: 64 be)) (poke 65 verify (poke 48 (enc_finished_full kFinishedHandshakeFullMessage)
        (poke 42 (enc_change_cipher_spec kChangeCipherSpecRecord) (a @ drop 42 mem)))) =
      a @ tls_record ContentType_ChangeCipher [1] @
      enc_record_header \<lparr>rh_content_type = ContentType_Handshake, rh_version = kTls12, rh_size = BE 0\<rparr> @ be_mem (BE seq) @
      enc_finished_message \<lparr>fm_header = \<lparr>hh_type = HandshakeType_Finished, hh_size = UInt24 12\<rparr>, fm_verify_data = verify\<rparr> @ drop 77 mem"
proof -
  let ?c = "tls_record ContentType_ChangeCipher [1]"
  let ?h = "enc_record_header \<lparr>rh_content_type = ContentType_Handshake, rh_version = kTls12, rh_size = BE 0\<rparr>"
  let ?f = "enc_handshake_header \<lparr>hh_type = HandshakeType_Finished, hh_size = UInt24 12\<rparr>"
  let ?z = "be_mem (BE 0 :: 64 be)"
  have c: "enc_change_cipher_spec kChangeCipherSpecRecord = ?c"
    by (simp add: enc_change_cipher_spec_def kChangeCipherSpecRecord_def tls_record_def)
  have f: "enc_finished_full kFinishedHandshakeFullMessage = ?h @ ?z @ ?f @ replicate 12 0"
    by (simp add: enc_finished_full_def kFinishedHandshakeFullMessage_def kFinishedHandshakeMessage_def enc_finished_message_def)
  have 1: "poke 48 (?h @ ?z @ ?f @ replicate 12 0) (poke 42 ?c (a @ drop 42 mem)) =
      (a @ ?c @ ?h @ ?z @ ?f) @ replicate 12 0 @ drop 77 mem"
    using assms by (simp add: poke_append_drop [of 42 a] poke_append_drop [of 48 "a @ ?c", simplified])
  have 2: "poke 65 verify ((a @ ?c @ ?h @ ?z @ ?f) @ replicate 12 0 @ drop 77 mem) =
      (a @ ?c @ ?h) @ ?z @ (?f @ verify @ drop 77 mem)"
    using assms by (subst poke_middle) simp_all
  have 3: "poke 53 (be_mem (BE seq :: 64 be)) ((a @ ?c @ ?h) @ ?z @ (?f @ verify @ drop 77 mem)) =
      (a @ ?c @ ?h) @ be_mem (BE seq) @ (?f @ verify @ drop 77 mem)"
    using assms by (subst poke_middle) simp_all
  show ?thesis unfolding c f 1 2 3 by (simp add: enc_finished_message_def)
qed

lemma finished_view:
  "length a = 42 \<Longrightarrow> length m = 16 \<Longrightarrow>
     chunk 61 16 (a @ tls_record ContentType_ChangeCipher [1] @ enc_record_header h @ be_mem (q :: 64 be) @ m @ r) = m"
  by (simp add: chunk_def)

lemma sealed_memory:
  assumes "length a = 42" "length m = 16" "length out = 32" "93 \<le> length mem"
  shows "take 93 (poke 51 (be_mem (BE 40 :: 16 be)) (poke 61 out
      (a @ tls_record ContentType_ChangeCipher [1] @
      enc_record_header \<lparr>rh_content_type = ContentType_Handshake, rh_version = kTls12, rh_size = BE 0\<rparr> @ be_mem (BE seq :: 64 be) @
      m @ drop 77 mem))) =
     a @ tls_record ContentType_ChangeCipher [1] @ tls_record ContentType_Handshake (be_mem (BE seq) @ out)"
proof -
  let ?c = "tls_record ContentType_ChangeCipher [1]" and ?q = "be_mem (BE seq :: 64 be)" and ?z = "be_mem (BE 0 :: 16 be)"
  let ?h = "[ContentType_Handshake, 3, 3]"
  have h: "enc_record_header \<lparr>rh_content_type = ContentType_Handshake, rh_version = kTls12, rh_size = x\<rparr> = ?h @ be_mem x" for x
    by (simp add: enc_record_header_def kTls12_def)
  have "poke (length (a @ ?c @ ?h @ ?z @ ?q)) out ((a @ ?c @ ?h @ ?z @ ?q) @ m @ drop 77 mem) =
      (a @ ?c @ ?h @ ?z @ ?q) @ out @ drop 93 mem"
    unfolding poke_suffix using assms by (simp add: poke_def)
  then have 1: "poke 61 out (a @ ?c @ (?h @ ?z) @ ?q @ m @ drop 77 mem) = (a @ ?c @ ?h) @ ?z @ (?q @ out @ drop 93 mem)"
    using assms by simp
  show ?thesis
    unfolding h 1 using assms
    by (subst poke_middle) (simp_all add: tls_record_def h)
qed

text \<open>What the key exchange achieves: the flight it sends and the keys it installs, for some ephemeral key.\<close>

definition key_exchange_done ::
    "'w ssl_api \<Rightarrow> ('w, 'z) tls_client_scheme \<Rightarrow> bytes \<Rightarrow> ('w, 'z) tls_client_scheme \<Rightarrow> bool" where
  "key_exchange_done ssl s p u \<longleftrightarrow> (\<exists>k.
     let transcript = handshake_hash s @ client_key_exchange (X25519_public ssl k);
         master = master_secret_of ssl (X25519_derive ssl k (take 32 (server_eph_pubkey s))) transcript;
         keys = key_block ssl master (tls_random_server s) (tls_random_client s)
     in p = tls_record ContentType_Handshake (client_key_exchange (X25519_public ssl k)) @
          tls_record ContentType_ChangeCipher [1] @
          sealed_record ssl (chunk 0 16 keys) (chunk 32 4 keys) (write_sequence_number s) ContentType_Handshake
            (client_finished ssl master transcript) \<and>
        handshake_hash u = transcript \<and> master_secret u = master \<and> map_option ec_key (enc_ctx u) = Some (chunk 0 16 keys) \<and>
        map_option ec_key (dec_ctx u) = Some (chunk 16 16 keys) \<and> client_write_iv u = chunk 32 4 keys \<and>
        iv_server_write_iv u = chunk 36 4 keys \<and> write_sequence_number u = write_sequence_number s + 1 \<and>
        read_sequence_number u = read_sequence_number s \<and> tls_stream u = tls_stream s \<and> hs_state u = hs_state s \<and>
        tls_random_client u = tls_random_client s)"

lemma length_client_key_exchange [simp]: "length (client_key_exchange pub) = 5 + length pub"
  by (simp add: client_key_exchange_def)

lemma length_client_finished: "ssl_ok ssl wire \<Longrightarrow> length (client_finished ssl master t) = 16"
  by (simp add: client_finished_def ssl_ok_sizes)

lemma wp_fill_key_exchange:
  fixes s :: "('w, 'z) tls_client_scheme"
  assumes ssl: "ssl_ok ssl wire" and ws: "length (ws_mem ws) = 1994" "ws_cap ws = 2122" "write_it ws = 0"
  shows "wp (fill_key_exchange_and_finished ssl ws) (\<lambda>r u. case r of (ws', n) \<Rightarrow> length (ws_mem ws') = 1994 \<and> n \<le> 1994 \<and>
       same_segment_state u s \<and> wire (world u) = wire (world s) \<and> key_exchange_done ssl s (take n (ws_mem ws')) u)
     (\<lambda>_ u. wire (world u) = wire (world s) \<and> \<not> ssl_reliable ssl) s"
proof -
  note sz = ssl_ok_sizes [OF ssl]
  have evp: "\<not> evp_reliable ssl \<Longrightarrow> \<not> ssl_reliable ssl" by (simp add: ssl_reliable_def)
  have l: "length (kx_client_eph_pub kX25519KeyExchangeMessage) = 32" "length (fm_verify_data (ff_finished kFinishedHandshakeFullMessage)) = 12"
    by (simp_all add: kX25519KeyExchangeMessage_def kFinishedHandshakeFullMessage_def kFinishedHandshakeMessage_def)
  have c: "chunk 5 37 (tls_record ContentType_Handshake (client_key_exchange pub) @ m) = client_key_exchange pub"
    if "length pub = 32" for pub m using that by (simp add: chunk_def)
  show ?thesis
    unfolding fill_key_exchange_and_finished_def HandshakeHash_update_def HandshakeHash_finalize_def
    apply (simp add: wp_simps ws l)
    apply (rule wp_generate_x25519_key [OF ssl])
    subgoal for w k
      apply (rule wp_evp [OF ssl])
       apply (simp_all add: sz evp X25519KeySize_def)
      apply (rule wp_derive_shared_secret [OF ssl])
      apply (simp_all add: key_exchange_memory sz c [OF sz(1)])
      apply (rule wp_derive_keys [OF ssl])
       apply (simp_all add: evp)
      apply (rule wp_tls_prf [OF ssl])
       apply (simp_all add: sz evp l)
      apply (simp add: finished_memory finished_view sz)
      apply (rule wp_encrypt [OF ssl])
        apply simp
       apply (simp_all add: sz evp WriteStream_reserve_def WriteStream_size_def wp_simps ws sealed_memory)
      apply (auto simp: key_exchange_done_def same_segment_state_def sealed_record_def client_finished_def Let_def
          intro!: exI [of _ k])
      done
    by (simp add: evp)
qed

lemma key_exchange_done_sent [simp]:
  "key_exchange_done ssl s p ((after_send n u)\<lparr>world := w\<rparr>) = key_exchange_done ssl s p u"
  by (simp add: key_exchange_done_def after_send_def)

lemma wp_send_key_exchange:
  assumes dpdk: "dpdk_ok api wire" and ssl: "ssl_ok ssl wire"
  shows "wp (send_client_key_exchange_and_finished api ssl)
     (\<lambda>_ t. \<exists>p m. key_exchange_done ssl s p t \<and> same_segment_state t (after_send (length p) s) \<and> length p \<le> 1994 \<and>
       wire (world t) = wire (world s) @ [m] \<and> client_frame api s Flags_PSH_ACK False p m)
     (\<lambda>_ t. wire (world t) = wire (world s) \<and> (room s 1994 \<longrightarrow> dpdk_reliable api \<longrightarrow> \<not> ssl_reliable ssl)) s"
  unfolding send_client_key_exchange_and_finished_def
proof (rule wp_mono [OF wp_send_filled [OF dpdk, where P = "key_exchange_done ssl s" and reliable = "ssl_reliable ssl"]])
  fix ws :: write_stream and t
  assume ws: "length (ws_mem ws) = 1994" "ws_cap ws = 2122" "write_it ws = 0"
    and t: "t\<lparr>world := world s\<rparr> = s" "wire (world t) = wire (world s)"
  from t(1) obtain w where tw: "t = s\<lparr>world := w\<rparr>" by (rule same_but_world)
  show "wp (fill_key_exchange_and_finished ssl ws) (\<lambda>r u. case r of (ws', n) \<Rightarrow> length (ws_mem ws') = 1994 \<and> n \<le> 1994 \<and>
      same_segment_state u s \<and> wire (world u) = wire (world s) \<and> key_exchange_done ssl s (take n (ws_mem ws')) u)
     (\<lambda>_ u. wire (world u) = wire (world s) \<and> \<not> ssl_reliable ssl) t"
    by (rule wp_mono [OF wp_fill_key_exchange [OF ssl ws, of t]])
       (use t(2) in \<open>auto simp: tw same_segment_state_def key_exchange_done_def\<close>)
qed (auto simp: after_send_def [THEN arg_cong [of _ _ world]])

end
