(* ===== verification/Tls_Handshake.thy ===== *)
theory Tls_Handshake
  imports Tls_Client
begin

text \<open>
  What the TLS client of Tls_Client does: the server's first flight drives it to send its key exchange and
  Finished messages with the keys of the key schedule; application data is sealed and opened record by
  record; a receive waits for complete records; and exactly which states make \<^verbatim>\<open>receive\<close> recurse for ever.
  The bodies of the server's messages are specified by \<open>server_hello_body\<close> and its companions.
\<close>

section \<open>The server's messages\<close>

definition server_hello_body :: "bytes \<Rightarrow> bytes \<Rightarrow> bytes \<Rightarrow> bytes" where
  "server_hello_body random sid ext =
     [2] @ UInt24_mem (UInt24 (of_nat (40 + length sid + length ext))) @ [3, 3] @ random @ [of_nat (length sid)] @ sid @
     enc_cipher_and_compression \<lparr>cc_cipher_suite = BE CipherSuite_ECDHE_RSA_WITH_AES_128_GCM_SHA256,
       cc_compression_method = 0, cc_extensions_size = BE (of_nat (length ext))\<rparr> @ ext"

definition certificate_body :: "bytes \<Rightarrow> bytes" where
  "certificate_body certs =
     enc_handshake_header \<lparr>hh_type = HandshakeType_Certificate, hh_size = UInt24 (of_nat (length certs))\<rparr> @ certs"

definition key_exchange_body :: "bytes \<Rightarrow> u16 \<Rightarrow> bytes \<Rightarrow> bytes" where
  "key_exchange_body pub alg sig =
     enc_handshake_header \<lparr>hh_type = HandshakeType_ServerKeyExchange, hh_size = UInt24 (of_nat (8 + length pub + length sig))\<rparr> @
     enc_server_key_exchange \<lparr>ke_curve_type = CurveType_NamedCurve, ke_named_curve = BE Group_Curve25519,
       ke_pubkey_size = of_nat (length pub)\<rparr> @ pub @
     enc_signature_info \<lparr>si_algorithm = BE alg, si_size = BE (of_nat (length sig))\<rparr> @ sig"

definition hello_done_body :: bytes where
  "hello_done_body = enc_handshake_header \<lparr>hh_type = HandshakeType_ServerHelloDone, hh_size = UInt24 0\<rparr>"

section \<open>Processing the server's messages\<close>

lemma length_server_structs [simp]:
  "length (enc_cipher_and_compression c) = 5" "length (enc_server_key_exchange k) = 4" "length (enc_signature_info i) = 4"
  using cipher_mem.length_enc key_exchange_mem.length_enc signature_info_mem.length_enc
  by (simp_all add: sizeof_cipher_and_compression_def sizeof_server_key_exchange_def sizeof_signature_info_def)

lemma wp_read_transaction:
  "pending s bs \<Longrightarrow> wp (on_stream read_transaction) Q E s = Q (ByteViewStream_new bs) s"
  by (auto simp: wp_on_stream pending_def wp_def read_transaction_eval)

lemma wp_commit:
  assumes "pending s bs" and "read_it r \<le> length bs"
    and "\<And>st. pending (s\<lparr>tls_stream := st\<rparr>) (drop (read_it r) bs) \<Longrightarrow> Q (take (read_it r) bs) (s\<lparr>tls_stream := st\<rparr>)"
  shows "wp (on_stream (commit r)) Q E s"
  unfolding wp_on_stream commit_def wp_bindM wp_opt_value
  using assms by (intro fifo.pop_wp) (auto simp: pending_def)

lemma view_pop [simp]:
  "ByteViewStream_pop n \<lparr>byte_view = v, read_it = k\<rparr> =
     (if length v < k + n then None else Some (chunk k n v, \<lparr>byte_view = v, read_it = k + n\<rparr>))" if "k \<le> length v"
  using that by (auto simp: ByteViewStream_pop_def ByteViewStream_size_def)

lemma view_pop_obj [simp]:
  "ByteViewStream_pop_obj dec n \<lparr>byte_view = v, read_it = k\<rparr> =
     (if length v < k + n then None else Some (dec (chunk k n v), \<lparr>byte_view = v, read_it = k + n\<rparr>))" if "k \<le> length v"
  using that by (auto simp: ByteViewStream_pop_obj_def ByteViewStream_size_def)

lemma dec_server_hello_body:
  assumes "length random = 32"
  shows "sh_server_random (dec_server_hello (chunk 0 39 (server_hello_body random sid ext @ rest))) = random"
    and "sh_session_id_size (dec_server_hello (chunk 0 39 (server_hello_body random sid ext @ rest))) = of_nat (length sid)"
  using assms by (auto simp: dec_server_hello_def server_hello_body_def chunk_def nth_append)

lemma wp_process_server_hello:
  assumes p: "pending s (tls_record ContentType_Handshake (server_hello_body random sid ext) @ rest)"
    and len: "length random = 32" "length sid < 256" "length (server_hello_body random sid ext) < 65536"
    and Q: "\<And>st. pending (s\<lparr>tls_stream := st\<rparr>) rest \<Longrightarrow> Q True (s\<lparr>tls_stream := st,
      handshake_hash := handshake_hash s @ server_hello_body random sid ext, tls_random_server := random\<rparr>)"
  shows "wp process_server_hello Q E s"
proof -
  let ?b = "server_hello_body random sid ext"
  have sz: "unat (be_value (rh_size (dec_record_header (take 5 (tls_record ContentType_Handshake ?b))))) = length ?b"
    using len(3) by simp
  have lb: "length ?b = 44 + length sid + length ext" using len by (simp add: server_hello_body_def)
  have c: "dec_cipher_and_compression (chunk (39 + length sid) 5 (?b @ rest)) = \<lparr>cc_cipher_suite = BE CipherSuite_ECDHE_RSA_WITH_AES_128_GCM_SHA256,
       cc_compression_method = 0, cc_extensions_size = BE (of_nat (length ext))\<rparr>"
  proof -
    have "chunk (39 + length sid) 5 (?b @ rest) = enc_cipher_and_compression \<lparr>cc_cipher_suite = BE CipherSuite_ECDHE_RSA_WITH_AES_128_GCM_SHA256,
       cc_compression_method = 0, cc_extensions_size = BE (of_nat (length ext))\<rparr>"
      using len by (simp add: server_hello_body_def chunk_def drop_Cons')
    then show ?thesis by (simp add: cipher_mem.dec_enc)
  qed
  show ?thesis
    unfolding process_server_hello_def wp_assign_or_return
    apply (rule wp_stream_pop_obj [OF p])
     apply (simp add: sizeof_record_header_def)
    apply (simp add: wp_simps sizeof_record_header_def sizeof_server_hello_def sizeof_cipher_and_compression_def len Let_def
        wp_stream_peek wp_read_transaction ByteViewStream_new_def lb dec_server_hello_body c HandshakeHash_update_def sz)
    apply (rule wp_stream_pop, assumption)
     apply (simp_all add: lb [symmetric] Q)
    done
qed

lemma wp_process_server_certificate:
  assumes p: "pending s (tls_record ContentType_Handshake (certificate_body certs) @ rest)"
    and len: "length (certificate_body certs) < 65536"
    and Q: "\<And>st. pending (s\<lparr>tls_stream := st\<rparr>) rest \<Longrightarrow> Q () (s\<lparr>tls_stream := st,
      handshake_hash := handshake_hash s @ certificate_body certs, hs_state := ServerKeyExchange\<rparr>)"
  shows "wp process_server_certificate Q E s"
proof -
  let ?b = "certificate_body certs"
  have sz: "unat (be_value (rh_size (dec_record_header (take 5 (tls_record ContentType_Handshake ?b))))) = length ?b"
    using len by simp
  have h: "dec_handshake_header (take 4 (?b @ rest)) = \<lparr>hh_type = HandshakeType_Certificate, hh_size = UInt24 (of_nat (length certs))\<rparr>"
    by (simp add: certificate_body_def handshake_header_mem.dec_enc)
  have lb: "4 \<le> length ?b" by (simp add: certificate_body_def)
  show ?thesis
    unfolding process_server_certificate_def wp_assign_or_return
    apply (rule wp_stream_pop_obj [OF p])
     apply (simp add: sizeof_record_header_def)
    using lb
    apply (simp add: wp_simps sizeof_record_header_def sizeof_handshake_header_def wp_stream_peek_obj h sz HandshakeHash_update_def
        del: take_append)
    apply (rule wp_stream_pop, assumption)
     apply (simp_all add: sz Q)
    done
qed

lemma wp_process_server_hello_done:
  assumes p: "pending s (tls_record ContentType_Handshake hello_done_body @ rest)"
    and Q: "\<And>st. pending (s\<lparr>tls_stream := st\<rparr>) rest \<Longrightarrow> Q True (s\<lparr>tls_stream := st,
      handshake_hash := handshake_hash s @ hello_done_body\<rparr>)"
  shows "wp process_server_hello_done Q E s"
proof -
  have h: "dec_handshake_header (chunk 0 4 (hello_done_body @ rest)) = \<lparr>hh_type = HandshakeType_ServerHelloDone, hh_size = UInt24 0\<rparr>"
    by (simp add: chunk_def hello_done_body_def handshake_header_mem.dec_enc)
  have l: "length hello_done_body = 4" by (simp add: hello_done_body_def)
  show ?thesis
    unfolding process_server_hello_done_def wp_assign_or_return
    apply (rule wp_stream_pop_obj [OF p])
     apply (simp add: sizeof_record_header_def)
    apply (simp add: wp_simps sizeof_record_header_def sizeof_handshake_header_def wp_read_transaction ByteViewStream_new_def
        l h UInt24_value_set HandshakeHash_update_def)
    apply (rule wp_commit, assumption)
     apply (simp_all add: l Q)
    done
qed

lemma wp_process_server_key_exchange:
  assumes p: "pending s (tls_record ContentType_Handshake (key_exchange_body pub alg sig) @ rest)"
    and len: "length pub < 256" "length sig < 65536"
    and Q: "\<And>st. pending (s\<lparr>tls_stream := st\<rparr>) rest \<Longrightarrow> Q True (s\<lparr>
      server_eph_pubkey := poke 0 pub (server_eph_pubkey s), tls_stream := st, handshake_hash := handshake_hash s @ key_exchange_body pub alg sig\<rparr>)"
  shows "wp process_server_key_exchange Q E s"
proof -
  let ?b = "key_exchange_body pub alg sig"
  let ?h = "\<lparr>hh_type = HandshakeType_ServerKeyExchange, hh_size = UInt24 (of_nat (8 + length pub + length sig))\<rparr>"
  let ?k = "\<lparr>ke_curve_type = CurveType_NamedCurve, ke_named_curve = BE Group_Curve25519, ke_pubkey_size = of_nat (length pub)\<rparr>"
  let ?i = "\<lparr>si_algorithm = BE alg, si_size = BE (of_nat (length sig))\<rparr>"
  have b: "?b = enc_handshake_header ?h @ enc_server_key_exchange ?k @ pub @ enc_signature_info ?i @ sig"
    by (simp only: key_exchange_body_def)
  have l: "length ?b = 12 + length pub + length sig" by (simp add: b)
  have c: "chunk 0 4 (?b @ rest) = enc_handshake_header ?h" "chunk 4 4 (?b @ rest) = enc_server_key_exchange ?k"
      "chunk 8 (length pub) (?b @ rest) = pub" "chunk (8 + length pub) 4 (?b @ rest) = enc_signature_info ?i"
    by (simp_all add: b chunk_def del: of_nat_add)
  note d = handshake_header_mem.dec_enc key_exchange_mem.dec_enc signature_info_mem.dec_enc
  have o: "pending (s\<lparr>server_eph_pubkey := x, tls_stream := st\<rparr>) bs = pending (s\<lparr>tls_stream := st\<rparr>) bs" for x st bs
    by (simp add: pending_def)
  show ?thesis
    unfolding process_server_key_exchange_def wp_assign_or_return
    apply (rule wp_stream_pop_obj [OF p])
     apply (simp add: sizeof_record_header_def)
    apply (simp add: wp_simps sizeof_record_header_def sizeof_handshake_header_def sizeof_server_key_exchange_def
        sizeof_signature_info_def wp_read_transaction ByteViewStream_new_def l d c len HandshakeHash_update_def del: of_nat_add)
    apply (rule wp_commit [where bs = "?b @ rest"])
      apply (simp_all add: l [symmetric] o Q)
    done
qed

section \<open>The first message\<close>

text \<open>
  The ClientHello as the protocol writes it, independently of the structures of the program: every length
  field is computed from the bytes that follow it, with the one exception of the list of signature
  algorithms, whose own length field the program leaves at zero.
\<close>

definition prefixed16 :: "bytes \<Rightarrow> bytes" where
  "prefixed16 bs = be_bytes 2 (of_nat (length bs) :: u16) @ bs"

definition hello_extension :: "u16 \<Rightarrow> bytes \<Rightarrow> bytes" where
  "hello_extension ty body = be_bytes 2 ty @ prefixed16 body"

definition hello_extensions :: "bytes \<Rightarrow> bytes" where
  "hello_extensions host =
     hello_extension 0 (prefixed16 ([0] @ prefixed16 host)) @
     hello_extension 13 ([0, 0] @ [4, 1]) @
     hello_extension 0xFF01 [0] @
     hello_extension 23 [] @
     hello_extension 10 (prefixed16 [0, 29])"

definition client_hello :: "bytes \<Rightarrow> bytes \<Rightarrow> bytes" where
  "client_hello random host =
     (let body = [3, 3] @ random @ [0] @ prefixed16 [0xC0, 0x2F] @ [1, 0] @ prefixed16 (hello_extensions host)
      in [1] @ be_bytes 3 (of_nat (length body) :: u32) @ body)"

text \<open>The structures the program fills spell the same bytes.\<close>

lemma hello_extensions_code:
  "enc_sni_extension (make_sni_extensions (length host)) @ host @ kDefaultExtensions = hello_extensions host"
proof -
  have c: "be_bytes 2 (0 :: u16) = [0, 0]" "be_bytes 2 (29 :: u16) = [0, 29]"
    by (simp_all add: be_bytes_def codec_simps)
  show ?thesis
    by (simp add: c hello_extensions_def hello_extension_def prefixed16_def enc_sni_extension_def make_sni_extensions_def
        kDefaultExtensions_def enc_sha256_rsa_extension_def enc_renegotiation_extension_def enc_extension_header_def
        enc_curve25519_extension_def kSHA256RSAExtension_def kRenegotiationExtension_def kExtendedMasterSecretExtension_def
        kCurve25519GroupExtension_def be_mem_network_order TlsExtension_SNI_def TlsExtension_SIGNATURE_ALGORITHMS_def
        TlsExtension_RenegotiationInfo_def TlsExtension_ExtendedMasterKey_def TlsExtension_SupportedGroups_def
        Group_Curve25519_def HashAlgo_SHA256_def SignatureAlgo_RSA_def)
qed

lemma client_hello_code:
  assumes "length random = 32" and "length host \<le> 1908"
  shows "client_hello random host =
     enc_handshake_header \<lparr>hh_type = HandshakeType_ClientHello, hh_size = UInt24 (of_nat (77 + length host))\<rparr> @
     [3, 3] @ random @ [0] @ be_mem (BE 2 :: 16 be) @ be_mem (BE CipherSuite_ECDHE_RSA_WITH_AES_128_GCM_SHA256) @ [1, 0] @
     be_mem (BE (of_nat (34 + length host)) :: 16 be) @
     enc_sni_extension (make_sni_extensions (length host)) @ host @ kDefaultExtensions"
proof -
  have e: "length (hello_extensions host) = 34 + length host"
    by (simp add: hello_extensions_def hello_extension_def prefixed16_def)
  have c: "be_bytes 2 (2 :: u16) = [0, 2]" "be_bytes 2 CipherSuite_ECDHE_RSA_WITH_AES_128_GCM_SHA256 = [0xC0, 0x2F]"
    by (simp_all add: be_bytes_def CipherSuite_ECDHE_RSA_WITH_AES_128_GCM_SHA256_def codec_simps)
  have n: "of_nat (77 + length host) = (77 + of_nat (length host) :: u32)" by simp
  show ?thesis
    using assms unfolding client_hello_def hello_extensions_code prefixed16_def Let_def
    by (simp add: e c n enc_handshake_header_def HandshakeType_ClientHello_def UInt24_mem_value be_mem_network_order)
qed

lemma length_client_hello: "length random = 32 \<Longrightarrow> length (client_hello random host) = 81 + length host"
  by (simp add: client_hello_def Let_def hello_extensions_def hello_extension_def prefixed16_def)

lemma client_hello_memory:
  assumes "length random = 32" and "86 + length host \<le> length mem"
  shows "take (86 + length host) (poke 6 (UInt24_mem n) (poke 3 (be_mem (z :: 16 be)) (poke 50 (be_mem (x :: 16 be))
      (poke (61 + length host) kDefaultExtensions (poke 61 host (poke 52 (enc_sni_extension e)
        (poke 11 random (poke 0 (enc_client_hello kClientHelloMessage) mem)))))))) =
     enc_record_header \<lparr>rh_content_type = ContentType_Handshake, rh_version = kTls12, rh_size = z\<rparr> @
     enc_handshake_header \<lparr>hh_type = HandshakeType_ClientHello, hh_size = n\<rparr> @ [3, 3] @ random @ [0] @ be_mem (BE 2 :: 16 be) @
     be_mem (BE CipherSuite_ECDHE_RSA_WITH_AES_128_GCM_SHA256) @ [1, 0] @ be_mem x @ enc_sni_extension e @ host @ kDefaultExtensions"
proof -
  let ?t = "[ContentType_Handshake, 3, 3]" and ?b0 = "be_mem (BE 0 :: 16 be)" and ?u = "UInt24_mem (UInt24 0)"
  let ?m = "[0] @ be_mem (BE 2 :: 16 be) @ be_mem (BE CipherSuite_ECDHE_RSA_WITH_AES_128_GCM_SHA256) @ [1, 0]"
  let ?d = "kDefaultExtensions" and ?s = "enc_sni_extension e" and ?r = "drop (86 + length host) mem"
  let ?q = "[HandshakeType_ClientHello]"
  have k: "enc_client_hello kClientHelloMessage = (?t @ ?b0 @ ?q @ ?u @ [3, 3]) @ replicate 32 0 @ (?m @ ?b0)"
    by (simp add: enc_client_hello_def kClientHelloMessage_def enc_record_header_def enc_handshake_header_def kTls12_def)
  have 1: "poke 11 random (poke 0 (enc_client_hello kClientHelloMessage) mem) =
      ((?t @ ?b0 @ ?q @ ?u @ [3, 3]) @ random @ (?m @ ?b0)) @ drop 52 mem"
  proof -
    have "poke 0 (enc_client_hello kClientHelloMessage) mem =
        (?t @ ?b0 @ ?q @ ?u @ [3, 3]) @ replicate 32 0 @ (?m @ ?b0 @ drop 52 mem)"
      unfolding k by (simp add: poke_def)
    then show ?thesis using assms(1) by (simp only:) (subst poke_middle, simp_all)
  qed
  let ?p = "(?t @ ?b0 @ ?q @ ?u @ [3, 3]) @ random @ (?m @ ?b0)"
  have lp: "length ?p = 52" using assms(1) by simp
  have "61 + length host + 25 = 86 + length host" by simp
  then have 2: "poke (61 + length host) ?d (poke 61 host (poke 52 ?s (?p @ drop 52 mem))) = ((?p @ ?s) @ host) @ ?d @ ?r"
    using lp poke_append_drop [of 52 ?p ?s mem] poke_append_drop [of 61 "?p @ ?s" host mem]
      poke_append_drop [of "61 + length host" "(?p @ ?s) @ host" ?d mem] by (simp only: length_append length_messages) simp
  have 3: "poke 50 (be_mem x) (((?p @ ?s) @ host) @ ?d @ ?r) =
      (?t @ ?b0 @ ?q @ ?u @ [3, 3] @ random @ ?m) @ be_mem x @ (?s @ host @ ?d @ ?r)"
    using assms(1) poke_middle [of 50 "?t @ ?b0 @ ?q @ ?u @ [3, 3] @ random @ ?m" "be_mem x" ?b0 "?s @ host @ ?d @ ?r"] by simp
  have 4: "poke 6 (UInt24_mem n) (poke 3 (be_mem z) ((?t @ ?b0 @ ?q @ ?u @ [3, 3] @ random @ ?m) @ be_mem x @ (?s @ host @ ?d @ ?r))) =
      ?t @ be_mem z @ ?q @ UInt24_mem n @ [3, 3] @ random @ ?m @ be_mem x @ ?s @ host @ ?d @ ?r"
    using poke_middle [of 3 ?t "be_mem z" ?b0 "?q @ ?u @ [3, 3] @ random @ ?m @ be_mem x @ ?s @ host @ ?d @ ?r"]
      poke_middle [of 6 "?t @ be_mem z @ ?q" "UInt24_mem n" ?u "[3, 3] @ random @ ?m @ be_mem x @ ?s @ host @ ?d @ ?r"] by simp
  show ?thesis
    unfolding 1 2 3 4 using assms
    by (simp add: enc_record_header_def enc_handshake_header_def kTls12_def take_Cons')
qed

text \<open>What sending the ClientHello achieves, for the random bytes the client drew.\<close>

definition hello_sent :: "('w, 'z) tls_client_scheme \<Rightarrow> bytes \<Rightarrow> ('w, 'z) tls_client_scheme \<Rightarrow> bool" where
  "hello_sent s p u \<longleftrightarrow> (\<exists>random. length random = 32 \<and> p = tls_record ContentType_Handshake (client_hello random (sni_hostname s)) \<and>
     tls_random_client u = random \<and> handshake_hash u = handshake_hash s @ client_hello random (sni_hostname s) \<and>
     tls_stream u = tls_stream s \<and> server_eph_pubkey u = server_eph_pubkey s)"

lemma wp_push_at:
  assumes "k + length bs = k'" and "k' \<le> c" and "k' \<le> length m" and "Q \<lparr>ws_mem = poke k bs m, ws_cap = c, write_it = k'\<rparr> s"
  shows "wp (push_field bs \<lparr>ws_mem = m, ws_cap = c, write_it = k\<rparr>) Q E s"
  using assms by (simp add: wp_push_field)

lemma wp_assign_at:
  assumes "off + length bs \<le> length m" and "Q \<lparr>ws_mem = poke off bs m, ws_cap = c, write_it = k\<rparr> s"
  shows "wp (assign_field off bs \<lparr>ws_mem = m, ws_cap = c, write_it = k\<rparr>) Q E s"
  using assms by (simp add: wp_assign_field)

lemma wp_fill_client_hello:
  fixes s :: "('w, 'z) tls_client_scheme"
  assumes ssl: "ssl_ok ssl wire" and ws: "length (ws_mem ws) = 1994" "ws_cap ws = 2122" "write_it ws = 0"
    and host: "length (sni_hostname s) \<le> 1908"
  shows "wp (fill_client_hello ssl ws) (\<lambda>r u. case r of (ws', n) \<Rightarrow> length (ws_mem ws') = 1994 \<and> n \<le> 1994 \<and>
       same_segment_state u s \<and> wire (world u) = wire (world s) \<and> hello_sent s (take n (ws_mem ws')) u)
     (\<lambda>_ u. wire (world u) = wire (world s) \<and> \<not> ssl_reliable ssl) s"
proof -
  let ?host = "sni_hostname s"
  have wsl: "ws = \<lparr>ws_mem = ws_mem ws, ws_cap = 2122, write_it = 0\<rparr>" using ws by simp
  have r: "ch_client_random kClientHelloMessage = replicate 32 0" by (simp add: kClientHelloMessage_def)
  have w: "wire (snd (RAND_bytes ssl 32 (world s))) = wire (world s)"
    and l: "fst (RAND_bytes ssl 32 (world s)) = Some v \<Longrightarrow> length v = 32" for v
    using ssl by (simp_all add: ssl_ok_def)
  define M where "M v = poke 6 (UInt24_mem (UInt24 (77 + of_nat (length ?host)))) (poke 3 (be_mem (BE (81 + of_nat (length ?host)) :: 16 be))
      (poke 50 (be_mem (BE (34 + of_nat (length ?host)) :: 16 be)) (poke (61 + length ?host) kDefaultExtensions (poke 61 ?host
        (poke 52 (enc_sni_extension (make_sni_extensions (length ?host)))
          (poke 11 v (poke 0 (enc_client_hello kClientHelloMessage) (ws_mem ws))))))))" for v
  have t: "take (86 + length ?host) (M v) = tls_record ContentType_Handshake (client_hello v ?host)" if "length v = 32" for v
    unfolding M_def using that ws host length_client_hello [OF that, of ?host]
    by (subst client_hello_memory) (simp_all add: tls_record_def client_hello_code)
  have c: "chunk 5 (81 + length ?host) (M v) = client_hello v ?host" if "length v = 32" for v
    using arg_cong [OF t [OF that], of "drop 5"] by (simp add: chunk_def take_drop)
  have lm: "length (M v) = 1994" if "length v = 32" for v
    unfolding M_def using that ws host by (simp add: r)
  have "unat (word_of_nat (81 + length ?host) :: u16) = 81 + length ?host" using host by (simp del: of_nat_add)
  then have sz: "unat (81 + word_of_nat (length ?host) :: u16) = 81 + length ?host" by simp
  show ?thesis
  proof (cases "fst (RAND_bytes ssl 32 (world s))")
    case None
    then have "\<not> ssl_reliable ssl" by (auto simp: ssl_reliable_def)
    with None show ?thesis by (simp add: fill_client_hello_def TLSRandom_generate_def wp_thenM wp_bindM wp_world_call wp_throw w)
  next
    case (Some v)
    have v: "length v = 32" using l [OF Some] .
    show ?thesis
      unfolding fill_client_hello_def TLSRandom_generate_def HandshakeHash_update_def Let_def WriteStream_size_def
        wp_thenM wp_bindM wp_world_call wp_gets wp_modify wp_ret Some option.case
      apply (subst wsl, rule wp_push_at [where k' = 52], simp_all add: ws r)
      apply (rule wp_assign_at, simp_all add: ws r v)
      apply (rule wp_push_at [where k' = 61], simp_all add: ws r v)
      apply (rule wp_push_at [where k' = "61 + length ?host"], use host in \<open>simp_all add: ws r v\<close>)
      apply (rule wp_push_at [where k' = "86 + length ?host"], use host in \<open>simp_all add: ws r v\<close>)
      apply (rule wp_assign_at, use host in \<open>simp_all add: ws r v\<close>)
      apply (rule wp_assign_at, use host in \<open>simp_all add: ws r v\<close>)
      apply (rule wp_assign_at, use host in \<open>simp_all add: ws r v sz flip: M_def\<close>)
      using host
      apply (auto simp add: same_segment_state_def w hello_sent_def lm v t c intro!: exI [of _ v])
      done
  qed
qed

section \<open>The first flight\<close>

lemma pending_size: "pending s bs \<Longrightarrow> Stream_size (tls_stream s) = length bs"
  by (metis pending_def length_Stream_contents)

lemma stream_size: "pending (s\<lparr>tls_stream := st\<rparr>) bs \<Longrightarrow> Stream_size st = length bs"
  using pending_size [of "s\<lparr>tls_stream := st\<rparr>"] by simp

lemma receive_incomplete:
  assumes "pending s bs" and "incomplete_record bs" and "hs_state s \<noteq> ClientHelloToSend"
  shows "Tls_receive api ssl s = Some (Inr None, s)"
proof (rule returns_value)
  show "returns (Tls_receive api ssl s) (\<lambda>r t. r = None \<and> t = s) (\<lambda>_ _. False)"
    by (rule receive_rule) (simp add: wp_pass_incomplete [OF assms])
qed

text \<open>A pass that leaves less than a header behind returns at once, as another one would.\<close>

lemma short_rest_returns:
  assumes "returns (Tls_receive api ssl s) Q E" and "pending s rest" and "length rest < 5" and "hs_state s \<noteq> ClientHelloToSend"
  shows "Q None s"
  using assms(1) receive_incomplete [OF assms(2) _ assms(4), of api ssl] assms(3) by (simp add: incomplete_record_def returns_def)

lemma receive_record_step:
  assumes p: "pending s (tls_record ct body @ rest)" and len: "length body < 65536"
    and st: "hs_state s \<noteq> ClientHelloToSend" "hs_state s \<noteq> ServerFinished"
    and step: "wp (process_handshake api ssl) (\<lambda>_ t. pending t rest \<and> hs_state t \<noteq> ClientHelloToSend \<and>
      returns (Tls_receive api ssl t) Q E) E s"
  shows "returns (Tls_receive api ssl s) Q E"
proof (rule receive_rule, subst wp_pass_record [OF p len st(1)], subst if_P [OF st(2)], rule wp_mono [OF step])
  fix u t
  assume t: "pending t rest \<and> hs_state t \<noteq> ClientHelloToSend \<and> returns (Tls_receive api ssl t) Q E"
  then show "if 5 \<le> Stream_size (tls_stream t) then case Recurse of Return r \<Rightarrow> Q r t | Recurse \<Rightarrow> returns (Tls_receive api ssl t) Q E
      else case Return None of Return r \<Rightarrow> Q r t | Recurse \<Rightarrow> returns (Tls_receive api ssl t) Q E"
    using pending_size [of t rest] by (auto intro: short_rest_returns)
qed

lemma receive_server_hello:
  assumes p: "pending s (tls_record ContentType_Handshake (server_hello_body random sid ext) @ rest)"
    and len: "length random = 32" "length sid < 256" "length (server_hello_body random sid ext) < 65536"
    and st: "hs_state s = ServerHello"
    and cont: "\<And>st. pending (s\<lparr>tls_stream := st\<rparr>) rest \<Longrightarrow> returns (Tls_receive api ssl (s\<lparr>tls_stream := st,
      handshake_hash := handshake_hash s @ server_hello_body random sid ext, tls_random_server := random,
      hs_state := ServerCertificate\<rparr>)) Q E"
  shows "returns (Tls_receive api ssl s) Q E"
  apply (rule receive_record_step [OF p len(3)])
    apply (simp_all add: st process_handshake_def wp_simps)
  apply (rule wp_process_server_hello [OF p len])
  subgoal for x using cont [of x] by (simp add: wp_simps pending_def)
  done

lemma receive_server_certificate:
  assumes p: "pending s (tls_record ContentType_Handshake (certificate_body certs) @ rest)"
    and len: "length (certificate_body certs) < 65536"
    and st: "hs_state s = ServerCertificate"
    and cont: "\<And>st. pending (s\<lparr>tls_stream := st\<rparr>) rest \<Longrightarrow> returns (Tls_receive api ssl (s\<lparr>tls_stream := st,
      handshake_hash := handshake_hash s @ certificate_body certs, hs_state := ServerKeyExchange\<rparr>)) Q E"
  shows "returns (Tls_receive api ssl s) Q E"
  apply (rule receive_record_step [OF p len])
    apply (simp_all add: st process_handshake_def wp_simps)
  apply (rule wp_process_server_certificate [OF p len])
  subgoal for x using cont [of x] by (simp add: wp_simps pending_def)
  done

lemma receive_server_key_exchange:
  assumes p: "pending s (tls_record ContentType_Handshake (key_exchange_body pub alg sig) @ rest)"
    and len: "length pub < 256" "length sig < 65536" "length (key_exchange_body pub alg sig) < 65536"
    and st: "hs_state s = ServerKeyExchange"
    and cont: "\<And>st. pending (s\<lparr>tls_stream := st\<rparr>) rest \<Longrightarrow> returns (Tls_receive api ssl (s\<lparr>
      server_eph_pubkey := poke 0 pub (server_eph_pubkey s), tls_stream := st,
      handshake_hash := handshake_hash s @ key_exchange_body pub alg sig, hs_state := ServerHelloDone\<rparr>)) Q E"
  shows "returns (Tls_receive api ssl s) Q E"
  apply (rule receive_record_step [OF p len(3)])
    apply (simp_all add: st process_handshake_def wp_simps)
  apply (rule wp_process_server_key_exchange [OF p len(1,2)])
  subgoal for x using cont [of x] by (simp add: wp_simps pending_def)
  done

text \<open>The ServerHelloDone message as the last of what has arrived: the client answers and the receive returns nothing.\<close>

lemma receive_server_hello_done:
  assumes dpdk: "dpdk_ok api wire" and ssl: "ssl_ok ssl wire"
    and p: "pending s (tls_record ContentType_Handshake hello_done_body)" and st: "hs_state s = ServerHelloDone"
  shows "returns (Tls_receive api ssl s)
     (\<lambda>r t. r = None \<and> hs_state t = ClientFinished \<and> pending t [] \<and>
        (\<exists>p m. key_exchange_done ssl (s\<lparr>handshake_hash := handshake_hash s @ hello_done_body\<rparr>) p
            (t\<lparr>tls_stream := tls_stream s, hs_state := ServerHelloDone\<rparr>) \<and>
          same_segment_state t (after_send (length p) s) \<and> length p \<le> 1994 \<and>
          wire (world t) = wire (world s) @ [m] \<and> client_frame api s Flags_PSH_ACK False p m))
     (\<lambda>_ t. wire (world t) = wire (world s) \<and> (room s 1994 \<longrightarrow> dpdk_reliable api \<longrightarrow> \<not> ssl_reliable ssl))"
proof -
  have p': "pending s (tls_record ContentType_Handshake hello_done_body @ [])" using p by simp
  have l: "length hello_done_body < 65536" by (simp add: hello_done_body_def)
  have f: "client_frame api (s\<lparr>tls_stream := x, handshake_hash := y\<rparr>) = client_frame api s" for x y
    by (rule client_frame_cong) simp_all
  have k: "key_exchange_done ssl (s\<lparr>tls_stream := x, handshake_hash := y\<rparr>) q t \<longleftrightarrow>
      key_exchange_done ssl (s\<lparr>handshake_hash := y\<rparr>) q (t\<lparr>tls_stream := tls_stream s, hs_state := ServerHelloDone\<rparr>) \<and>
      tls_stream t = x \<and> hs_state t = ServerHelloDone" for x y q t
    using st by (auto simp: key_exchange_done_def Let_def)
  show ?thesis
    apply (rule receive_rule, subst wp_pass_record [OF p' l])
     apply (simp add: st)
    apply (simp add: st process_handshake_def wp_simps)
    apply (rule wp_process_server_hello_done [OF p'])
    apply (simp add: wp_simps)
    apply (rule wp_mono [OF wp_send_key_exchange [OF dpdk ssl]])
    subgoal premises pr for x a t
      using pr(2) stream_size [OF pr(1)] pr(1) by (auto simp: k f pending_def same_segment_state_def after_send_def)
    by (simp add: room_def)
qed

section \<open>The recursion of receive\<close>

text \<open>
  The change of cipher has arrived completely, the Finished record that follows it has not: this is what
  \<^verbatim>\<open>process_server_finished\<close> leaves on the stream when it reports that it is not done.
\<close>

definition record_size_at :: "nat \<Rightarrow> bytes \<Rightarrow> nat" where
  "record_size_at off bs = unat (be_value (rh_size (dec_record_header (chunk off 5 bs))))"

definition finished_incomplete :: "bytes \<Rightarrow> bool" where
  "finished_incomplete bs \<longleftrightarrow> (let n = record_size_at 0 bs; k = 5 + n in
     5 \<le> length bs \<and> k \<le> length bs \<and> rh_content_type (dec_record_header (chunk 0 5 bs)) = ContentType_ChangeCipher \<and>
     0 < n \<and> bs ! 5 = 1 \<and>
     (length bs < k + 5 \<or> rh_content_type (dec_record_header (chunk k 5 bs)) = ContentType_Handshake \<and>
        length bs < k + 5 + record_size_at k bs))"

definition receive_stuck :: "('w, 'z) tls_client_scheme \<Rightarrow> bool" where
  "receive_stuck s \<longleftrightarrow> hs_state s = ClientFinished \<and> Stream_inv (tls_stream s) \<and>
     rh_version (dec_record_header (chunk 0 5 (Stream_contents (tls_stream s)))) = kTls12 \<and>
     finished_incomplete (Stream_contents (tls_stream s))"

inductive receive_passes ::
    "'w dpdk_api \<Rightarrow> 'w ssl_api \<Rightarrow> ('w, 'z) tls_client_scheme \<Rightarrow> ('w, 'z) tls_client_scheme \<Rightarrow> bool"
  for api :: "'w dpdk_api" and ssl :: "'w ssl_api" where
  here: "receive_passes api ssl s s"
| again: "Tls_receive_pass api ssl s = (Inr Recurse, t) \<Longrightarrow> receive_passes api ssl t u \<Longrightarrow> receive_passes api ssl s u"

lemma wp_process_server_finished:
  assumes p: "pending s bs" and len: "5 \<le> length bs" "5 + record_size_at 0 bs \<le> length bs"
  shows "wp process_server_finished Q E s =
     (let n = record_size_at 0 bs; k = 5 + n in
      if rh_content_type (dec_record_header (chunk 0 5 bs)) \<noteq> ContentType_ChangeCipher then E (Runtime_error ''unexpected message'') s
      else if n = 0 then E (Undefined_behaviour ''index out of range'') s
      else if bs ! 5 \<noteq> 1 then E (Runtime_error ''Incorrect ChangeCipher message'') s
      else if length bs < k + 5 then Q False s
      else if rh_content_type (dec_record_header (chunk k 5 bs)) \<noteq> ContentType_Handshake
        then E (Runtime_error ''unexpected message'') s
      else if length bs < k + 5 + record_size_at k bs then Q False s
      else wp (on_stream (commit \<lparr>byte_view = bs, read_it = k + 5 + record_size_at k bs\<rparr>)) (\<lambda>_. Q True) E s)"
proof -
  have n: "chunk 5 (record_size_at 0 bs) bs = [] \<longleftrightarrow> record_size_at 0 bs = 0"
    using len by (auto simp flip: length_0_conv)
  have f: "record_size_at 0 bs \<noteq> 0 \<Longrightarrow> chunk 5 (record_size_at 0 bs) bs ! 0 = bs ! 5"
    using len by (simp add: chunk_def)
  show ?thesis
    unfolding process_server_finished_def using len n f
    by (simp add: wp_simps wp_read_transaction [OF p] ByteViewStream_new_def sizeof_record_header_def Let_def
        flip: record_size_at_def)
qed

text \<open>A step that consumes at least a record header.\<close>

definition shrunk :: "('w, 'z) tls_client_scheme \<Rightarrow> ('w, 'z) tls_client_scheme \<Rightarrow> bool" where
  "shrunk s t \<longleftrightarrow> (\<exists>bs. pending t bs \<and> length bs + 5 \<le> Stream_size (tls_stream s))"

lemma shrunk_keeps [simp]:
  "shrunk s (t\<lparr>handshake_hash := x\<rparr>) = shrunk s t" "shrunk s (t\<lparr>tls_random_server := y\<rparr>) = shrunk s t"
  "shrunk s (t\<lparr>hs_state := z\<rparr>) = shrunk s t" "shrunk s (t\<lparr>server_eph_pubkey := u\<rparr>) = shrunk s t"
  by (simp_all add: shrunk_def)

lemma wp_pop_shrunk:
  assumes "shrunk s t" and "\<And>r st. shrunk s (t\<lparr>tls_stream := st\<rparr>) \<Longrightarrow> Q r (t\<lparr>tls_stream := st\<rparr>)"
  shows "wp (on_stream (Stream_pop n)) Q E t"
proof -
  obtain bs where bs: "pending t bs" "length bs + 5 \<le> Stream_size (tls_stream s)" using assms(1) by (auto simp: shrunk_def)
  have "Q None t" using assms(2) [of "tls_stream t" None] assms(1) by simp
  then show ?thesis unfolding wp_on_stream
    by (intro fifo.pop_wp) (use bs in \<open>auto intro!: assms(2) simp: pending_def shrunk_def\<close>)
qed

lemma on_stream_commit: "on_stream (commit r) = bindM (on_stream (Stream_pop (read_it r))) opt_value"
  by (auto simp: on_stream_def commit_def zoom_def bindM_def opt_value_def ret_def throw_def fun_eq_iff
      split: prod.splits sum.splits option.splits)

lemma wp_commit_shrunk:
  assumes "shrunk s t" and "\<And>r st. shrunk s (t\<lparr>tls_stream := st\<rparr>) \<Longrightarrow> Q r (t\<lparr>tls_stream := st\<rparr>)" and "\<And>e u. E e u"
  shows "wp (on_stream (commit r)) Q E t"
  unfolding on_stream_commit wp_bindM wp_opt_value
  by (rule wp_pop_shrunk [OF assms(1)]) (auto intro: assms(2,3) split: option.splits)

lemma wp_record_header_shrunk:
  assumes "Stream_inv (tls_stream s)" and "5 \<le> Stream_size (tls_stream s)"
    and "\<And>h st. shrunk s (s\<lparr>tls_stream := st\<rparr>) \<Longrightarrow> Q (Some h) (s\<lparr>tls_stream := st\<rparr>)"
  shows "wp (on_stream (Stream_pop_obj dec_record_header sizeof_record_header)) Q E s"
  unfolding wp_on_stream
  by (rule wp_pop_obj_contents) (use assms in \<open>auto simp: sizeof_record_header_def shrunk_def pending_def intro!: assms(3)\<close>)

lemma wp_peek_any: "(\<And>r. Q r t) \<Longrightarrow> wp (on_stream (Stream_peek n)) Q E t"
  by (simp add: wp_on_stream Stream_peek_def wp_simps)

lemma wp_peek_obj_any: "(\<And>r. Q r t) \<Longrightarrow> wp (on_stream (Stream_peek_obj dec n)) Q E t"
  by (simp add: wp_on_stream Stream_peek_obj_def wp_simps)

lemma wp_read_transaction_any: "shrunk s t \<Longrightarrow> (\<And>r. Q r t) \<Longrightarrow> wp (on_stream read_transaction) Q E t"
  by (auto simp: shrunk_def wp_read_transaction)

lemmas shrink_rules = wp_record_header_shrunk wp_pop_shrunk wp_commit_shrunk wp_peek_any wp_peek_obj_any wp_read_transaction_any

lemma handlers_shrink:
  assumes "Stream_inv (tls_stream s)" and "5 \<le> Stream_size (tls_stream s)"
  shows "wp process_server_hello (\<lambda>_. shrunk s) (\<lambda>_ _. True) s"
    and "wp process_server_certificate (\<lambda>_. shrunk s) (\<lambda>_ _. True) s"
    and "wp process_server_key_exchange (\<lambda>_. shrunk s) (\<lambda>_ _. True) s"
    and "wp process_server_hello_done (\<lambda>_. shrunk s) (\<lambda>_ _. True) s"
  unfolding process_server_hello_def process_server_certificate_def process_server_key_exchange_def
    process_server_hello_done_def wp_assign_or_return wp_bindM HandshakeHash_update_def Let_def
  using assms
  by (auto intro!: shrink_rules simp: wp_simps split: option.splits)

text \<open>
  The same for a part that also survives sealing a record, and for one that survives the flushing of the send buffer.
\<close>

locale seal_frame_condition = send_frame_condition part
  for part :: "('w, 'z) tls_client_scheme \<Rightarrow> 'b" +
  assumes enc_ctx_kept: "part (s\<lparr>enc_ctx := v10\<rparr>) = part s"
    and write_sequence_number_kept: "part (s\<lparr>write_sequence_number := v12\<rparr>) = part s"
begin

lemmas seal_field_kept [simp] = enc_ctx_kept write_sequence_number_kept

lemma keeps_send_filled: "(\<And>ws. keeps part (fill ws)) \<Longrightarrow> keeps part (send_filled api fill)"
  unfolding send_filled_def Tcp_payload_write_stream_def
  by (intro steps keeps_get_send_buffer keeps_send)

lemma keeps_encrypt: "keeps part (Tls_encrypt ssl view ct)"
  unfolding Tls_encrypt_def EncryptContext_init_def EncryptContext_update_aad_def EncryptContext_update_def
    EncryptContext_final_ex_def EncryptContext_append_gcm_tag_def enc_context_def evp_def
  by (intro steps; simp)

end

locale flush_frame_condition = seal_frame_condition part
  for part :: "('w, 'z) tls_client_scheme \<Rightarrow> 'b" +
  assumes tls_send_buffer_kept [simp]: "part (s\<lparr>tls_send_buffer := v21\<rparr>) = part s"
begin

lemma keeps_on_send_buffer: "keeps part (on_send_buffer m)"
  by (auto simp: keeps_def on_send_buffer_def zoom_def split: prod.splits)

lemma keeps_flush: "keeps part (Tls_flush api ssl)"
  unfolding Tls_flush_def fill_flush_def push_field_def assign_field_def Let_def
  by (intro steps keeps_send_filled keeps_encrypt keeps_on_send_buffer)

end

text \<open>
  A part that survives what the TLS client does when it receives and answers, apart from reading its stream.
\<close>

locale receive_frame_condition = seal_frame_condition part
  for part :: "('w, 'z) tls_client_scheme \<Rightarrow> 'b" +
  assumes tls_random_client_kept: "part (s\<lparr>tls_random_client := v8\<rparr>) = part s"
    and handshake_hash_kept: "part (s\<lparr>handshake_hash := v9\<rparr>) = part s"
    and dec_ctx_kept: "part (s\<lparr>dec_ctx := v11\<rparr>) = part s"
    and read_sequence_number_kept: "part (s\<lparr>read_sequence_number := v13\<rparr>) = part s"
    and master_secret_kept: "part (s\<lparr>master_secret := v14\<rparr>) = part s"
    and client_write_key_kept: "part (s\<lparr>client_write_key := v15\<rparr>) = part s"
    and server_write_key_kept: "part (s\<lparr>server_write_key := v16\<rparr>) = part s"
    and client_write_iv_kept: "part (s\<lparr>client_write_iv := v17\<rparr>) = part s"
    and server_write_iv_kept: "part (s\<lparr>server_write_iv := v18\<rparr>) = part s"
    and iv_server_write_iv_kept: "part (s\<lparr>iv_server_write_iv := v19\<rparr>) = part s"
    and iv_explicit_iv_kept: "part (s\<lparr>iv_explicit_iv := v20\<rparr>) = part s"
    and tls_random_server_kept: "part (s\<lparr>tls_random_server := v22\<rparr>) = part s"
    and server_eph_pubkey_kept: "part (s\<lparr>server_eph_pubkey := v23\<rparr>) = part s"
    and hs_state_kept: "part (s\<lparr>hs_state := v24\<rparr>) = part s"
begin

lemmas receive_field_kept [simp] = tls_random_client_kept handshake_hash_kept dec_ctx_kept read_sequence_number_kept master_secret_kept
  client_write_key_kept server_write_key_kept client_write_iv_kept server_write_iv_kept iv_server_write_iv_kept iv_explicit_iv_kept
  tls_random_server_kept server_eph_pubkey_kept hs_state_kept

lemma keeps_decrypt: "keeps part (Tls_decrypt ssl bs)"
  unfolding Tls_decrypt_def evp_def Let_def
  by (intro steps; simp)

lemma keeps_key_exchange: "keeps part (send_client_key_exchange_and_finished api ssl)"
  unfolding send_client_key_exchange_and_finished_def fill_key_exchange_and_finished_def derive_shared_secret_def derive_keys_def
    generate_x25519_key_def tls_prf_def EncryptContext_new_def evp_def HandshakeHash_update_def HandshakeHash_finalize_def
    push_field_def assign_field_def
  by (intro steps keeps_send_filled keeps_encrypt; simp)

lemma keeps_client_hello: "keeps part (send_client_hello api ssl)"
  unfolding send_client_hello_def fill_client_hello_def TLSRandom_generate_def HandshakeHash_update_def Let_def
    push_field_def assign_field_def
  by (intro steps keeps_send_filled; simp)

end

interpretation stream_part: receive_frame_condition tls_stream
  by unfold_locales simp_all

text \<open>A pass that recurses has consumed input, or it is stuck and has changed nothing.\<close>

lemma handshake_progress:
  fixes s :: "('w, 'z) tls_client_scheme"
  assumes inv: "Stream_inv (tls_stream s)" and len: "5 \<le> Stream_size (tls_stream s)"
    and rec: "5 + record_size_at 0 (Stream_contents (tls_stream s)) \<le> Stream_size (tls_stream s)"
    and ver: "rh_version (dec_record_header (chunk 0 5 (Stream_contents (tls_stream s)))) = kTls12"
  shows "wp (process_handshake api ssl) (\<lambda>_ t. shrunk s t \<or> receive_stuck s \<and> t = s) (\<lambda>_ _. True) s"
proof -
  let ?bs = "Stream_contents (tls_stream s)"
  note h = handlers_shrink [OF inv len]
  have sent: "wp (send_client_key_exchange_and_finished api ssl) (\<lambda>_ u. shrunk s u) (\<lambda>_ _. True) t"
    if t: "shrunk s t" for t
  proof (rule wp_mono [OF wp_keeps [OF stream_part.keeps_key_exchange]])
    fix u :: "('w, 'z) tls_client_scheme" assume "tls_stream u = tls_stream t"
    with t show "shrunk s u" by (auto simp: shrunk_def pending_def)
  qed simp
  have p: "pending s ?bs" using inv by (simp add: pending_def)
  have fin: "wp process_server_finished (\<lambda>r t. if r then shrunk s t else finished_incomplete ?bs \<and> t = s) (\<lambda>_ _. True) s"
  proof -
    have c: "wp (on_stream (commit \<lparr>byte_view = ?bs, read_it = 5 + n + 5 + m\<rparr>)) (\<lambda>_ t. shrunk s t) (\<lambda>_ _. True) s"
      if "5 + n + 5 + m \<le> length ?bs" for n m
      by (rule wp_commit [OF p]) (use that inv in \<open>auto simp: shrunk_def\<close>)
    show ?thesis
      by (subst wp_process_server_finished [OF p]) (use inv len rec c in \<open>auto simp: Let_def finished_incomplete_def\<close>)
  qed
  show ?thesis
    unfolding process_handshake_def wp_bindM wp_gets
  proof (cases "hs_state s", goal_cases)
    case 2
    then show ?case by (auto simp: wp_simps intro!: wp_mono [OF h(1)])
  next
    case 3
    then show ?case by (auto simp: wp_simps intro!: wp_mono [OF h(2)])
  next
    case 4
    then show ?case by (auto simp: wp_simps intro!: wp_mono [OF h(3)])
  next
    case 5
    then show ?case by (auto simp: wp_simps intro!: wp_mono [OF h(4)] intro: wp_mono [OF sent])
  next
    case 7
    then show ?case by (auto simp: wp_simps receive_stuck_def inv ver intro!: wp_mono [OF fin])
  qed (simp_all add: wp_simps)
qed

lemma pass_progress:
  fixes s :: "('w, 'z) tls_client_scheme"
  assumes inv: "Stream_inv (tls_stream s)" and pass: "Tls_receive_pass api ssl s = (Inr Recurse, t)"
  shows "Stream_inv (tls_stream t) \<and> Stream_size (tls_stream t) < Stream_size (tls_stream s) \<or> receive_stuck s \<and> t = s"
proof -
  let ?bs = "Stream_contents (tls_stream s)"
  have p: "pending s ?bs" using inv by (simp add: pending_def)
  have l: "length ?bs = Stream_size (tls_stream s)" using inv by simp
  have shrink: "Stream_inv (tls_stream u) \<and> Stream_size (tls_stream u) < Stream_size (tls_stream s)" if "shrunk s u"
    for u :: "('w, 'z) tls_client_scheme"
    using that by (auto simp: shrunk_def pending_def)
  have d: "take 5 ?bs = chunk 0 5 ?bs" by (simp add: chunk_def)
  have "wp (Tls_receive_pass api ssl) (\<lambda>r u. r = Recurse \<longrightarrow> Stream_inv (tls_stream u) \<and>
      Stream_size (tls_stream u) < Stream_size (tls_stream s) \<or> receive_stuck s \<and> u = s) (\<lambda>_ _. True) s"
    unfolding Tls_receive_pass_def
    by (simp add: wp_simps wp_stream_peek_obj [OF p] wp_stream_peek [OF p] sizeof_record_header_def l d flip: record_size_at_def)
       (auto simp: wp_simps wp_def [of "send_client_hello api ssl"] wp_def [of "receive_application_data ssl _"]
          intro!: wp_mono [OF handshake_progress [OF inv]] dest: shrink split: prod.splits sum.splits)
  then show ?thesis by (simp add: wp_def pass)
qed

lemma stuck_pass:
  assumes "receive_stuck s" shows "Tls_receive_pass api ssl s = (Inr Recurse, s)"
proof -
  let ?bs = "Stream_contents (tls_stream s)"
  have inv: "Stream_inv (tls_stream s)" using assms by (simp add: receive_stuck_def)
  have p: "pending s ?bs" using inv by (simp add: pending_def)
  have l: "5 \<le> length ?bs" "5 + record_size_at 0 ?bs \<le> length ?bs"
    using assms unfolding receive_stuck_def finished_incomplete_def Let_def by blast+
  have d: "take 5 ?bs = chunk 0 5 ?bs" by (simp add: chunk_def)
  have "wp (Tls_receive_pass api ssl) (\<lambda>r t. r = Recurse \<and> t = s) (\<lambda>_ _. False) s"
    unfolding Tls_receive_pass_def using assms l
    by (simp add: wp_simps wp_stream_peek_obj [OF p] wp_stream_peek [OF p] sizeof_record_header_def d flip: record_size_at_def)
       (auto simp: receive_stuck_def process_handshake_def wp_simps wp_process_server_finished [OF p l] finished_incomplete_def Let_def
          length_Stream_contents [OF inv])
  then show ?thesis by (auto simp: wp_def split: prod.splits sum.splits)
qed

lemma stuck_diverges: "receive_stuck s \<Longrightarrow> Tls_receive api ssl s = None"
proof (rule ccontr)
  assume stuck: "receive_stuck s" and "Tls_receive api ssl s \<noteq> None"
  then obtain r where "Tls_receive api ssl s = Some r" by blast
  then have "\<not> receive_stuck s"
    by (rule Tls_receive.raw_induct [rotated, where P = "\<lambda>api ssl s r. \<not> receive_stuck s"]) (auto simp: stuck_pass)
  with stuck show False by simp
qed

lemma passes_diverge: "receive_passes api ssl s t \<Longrightarrow> receive_stuck t \<Longrightarrow> Tls_receive api ssl s = None"
proof (induction rule: receive_passes.induct)
  case (again s t u)
  then show ?case by (subst Tls_receive.simps) simp
qed (rule stuck_diverges)

lemma diverges_stuck:
  assumes "Stream_inv (tls_stream s)" and "Tls_receive api ssl s = None"
  shows "\<exists>t. receive_passes api ssl s t \<and> receive_stuck t"
  using assms
proof (induction "Stream_size (tls_stream s)" arbitrary: s rule: less_induct)
  case less
  from less.prems(2) obtain t where t: "Tls_receive_pass api ssl s = (Inr Recurse, t)" "Tls_receive api ssl t = None"
    by (subst (asm) Tls_receive.simps) (auto split: prod.splits sum.splits pass.splits)
  from pass_progress [OF less.prems(1) t(1)] show ?case
    using less.hyps [of t] t less.prems by (auto intro: receive_passes.intros)
qed

lemma client_frame_tls [simp]:
  "client_frame api (s\<lparr>tls_stream := a\<rparr>) = client_frame api s" "client_frame api (s\<lparr>handshake_hash := b\<rparr>) = client_frame api s"
  "client_frame api (s\<lparr>tls_random_server := c\<rparr>) = client_frame api s" "client_frame api (s\<lparr>hs_state := d\<rparr>) = client_frame api s"
  "client_frame api (s\<lparr>server_eph_pubkey := e\<rparr>) = client_frame api s"
  by (rule client_frame_cong; simp)+

section \<open>A concrete library and client, for the witnesses\<close>

definition demo_ssl :: "loop_world ssl_api" where
  "demo_ssl = \<lparr>RAND_bytes = (\<lambda>n w. (Some (replicate n 7), w)), evp_call = (\<lambda>_ w. (True, w)),
     EVP_sha256 = (\<lambda>_. replicate 32 1), TLS1_PRF = (\<lambda>_ _ n. replicate n 2), X25519_keygen = (\<lambda>w. (replicate 32 3, w)),
     X25519_public = (\<lambda>_. replicate 32 4), X25519_derive = (\<lambda>_ _. replicate 32 5),
     gcm_ctr = (\<lambda>_ _. map (\<lambda>b. b XOR 0x55)), gcm_tag = (\<lambda>_ _ _ _. replicate 16 6)\<rparr>"

lemma demo_ssl_ok: "ssl_ok demo_ssl lw_wire"
  by (auto simp: ssl_ok_def demo_ssl_def take_map comp_def xor.assoc)

definition stream_of :: "bytes \<Rightarrow> stream" where
  "stream_of bs = \<lparr>buffer = bs @ replicate 20600 0, s_read = 0, s_write = length bs\<rparr>"

lemma stream_of_contents [simp]: "Stream_inv (stream_of bs)" "Stream_contents (stream_of bs) = bs"
  by (simp_all add: stream_of_def Stream_inv_def Stream_contents_def Stream_size_def chunk_def)

definition demo_tls :: "handshake_state \<Rightarrow> bytes \<Rightarrow> bytes \<Rightarrow> loop_world tls_client" where
  "demo_tls st incoming outgoing = (Tls_new (string_bytes ''example.org'') (demo_client Connected 100))\<lparr>
     hs_state := st, tls_stream := stream_of incoming, tls_send_buffer := stream_of outgoing,
     enc_ctx := Some \<lparr>ec_key = replicate 16 1, ec_iv = [], ec_aad = [], ec_in = []\<rparr>,
     dec_ctx := Some \<lparr>ec_key = replicate 16 2, ec_iv = [], ec_aad = [], ec_in = []\<rparr>\<rparr>"

lemma demo_tls_fields [simp]:
  "pending (demo_tls st i o') bs = (bs = i)" "hs_state (demo_tls st i o') = st" "tls_stream (demo_tls st i o') = stream_of i"
  "tls_send_buffer (demo_tls st i o') = stream_of o'"
  "enc_ctx (demo_tls st i o') = Some \<lparr>ec_key = replicate 16 1, ec_iv = [], ec_aad = [], ec_in = []\<rparr>"
  "dec_ctx (demo_tls st i o') = Some \<lparr>ec_key = replicate 16 2, ec_iv = [], ec_aad = [], ec_in = []\<rparr>"
  "client_write_iv (demo_tls st i o') = replicate 4 0" "iv_server_write_iv (demo_tls st i o') = replicate 4 0"
  "write_sequence_number (demo_tls st i o') = 0" "read_sequence_number (demo_tls st i o') = 0"
  "lw_wire (world (demo_tls st i o')) = []" "cl_ack (demo_tls st i o') = SeqNumber 100" "handshake_hash (demo_tls st i o') = []"
  "length (sni_hostname (demo_tls st i o')) = 11"
  by (auto simp: demo_tls_def Tls_new_def demo_client_def Client_new_def tcp_client.defs tls_client.defs device.defs
      loop_device_def pending_def string_bytes_def)

section \<open>Properties\<close>

text \<open>
  C9: flushing sends the pushed bytes as one protected application record in one segment: the record
  carries the sequence number as explicit nonce, the ciphertext and the authentication tag under the
  client's key, and its header states its length. The send buffer is then empty and the sequence number,
  on which the nonce depends, has moved on. If anything throws, nothing is sent.
\<close>

theorem Tls_flush_seals:
  assumes "dpdk_ok api wire" and "ssl_ok ssl wire" and "enc_ctx s = Some c" and "Stream_inv (tls_send_buffer s)"
    and "length (Stream_contents (tls_send_buffer s)) \<le> 1965"
  shows "wp (Tls_flush api ssl) (\<lambda>_ t. \<exists>m. wire (world t) = wire (world s) @ [m] \<and>
       client_frame api s Flags_PSH_ACK False (sealed_record ssl (ec_key c) (client_write_iv s) (write_sequence_number s)
         ContentType_ApplicationData (Stream_contents (tls_send_buffer s))) m \<and>
       Stream_contents (tls_send_buffer t) = [] \<and> write_sequence_number t = write_sequence_number s + 1)
     (\<lambda>_ t. wire (world t) = wire (world s)) s"
  by (rule wp_mono [OF wp_flush [OF assms]]) (auto simp: flushed_def)

theorem Tls_flush_seals_witness:
  "wp (Tls_flush loop_api demo_ssl) (\<lambda>_ t. \<exists>m. lw_wire (world t) = [m] \<and> write_sequence_number t = 1)
     (\<lambda>_ t. lw_wire (world t) = []) (demo_tls ServerFinished [] [1, 2, 3])"
  by (rule wp_mono [OF Tls_flush_seals [OF loop_api_ok demo_ssl_ok]]) auto

text \<open>
  C8: the server's first flight, ServerHello, Certificate, ServerKeyExchange and ServerHelloDone as one record
  each, makes one receive send the client's key exchange, change of cipher and Finished messages in one
  segment and return nothing. The master secret, the keys and the verify data are the ones of the key
  schedule over the transcript of all messages, for the ephemeral key the client drew.
\<close>

theorem Tls_server_flight:
  assumes "dpdk_ok api wire" and "ssl_ok ssl wire" and "hs_state s = ServerHello" and "length random = 32"
    and "length sid < 256" and "length (server_hello_body random sid ext) < 65536" and "length (certificate_body certs) < 65536"
    and "length pub < 256" and "length (key_exchange_body pub alg sig) < 65536"
    and "pending s (tls_record ContentType_Handshake (server_hello_body random sid ext) @
      tls_record ContentType_Handshake (certificate_body certs) @
      tls_record ContentType_Handshake (key_exchange_body pub alg sig) @ tls_record ContentType_Handshake hello_done_body)"
  shows "returns (Tls_receive api ssl s)
     (\<lambda>r t. r = None \<and> hs_state t = ClientFinished \<and> pending t [] \<and>
       (\<exists>k p m. let transcript = handshake_hash s @ server_hello_body random sid ext @ certificate_body certs @
              key_exchange_body pub alg sig @ hello_done_body @ client_key_exchange (X25519_public ssl k);
            master = master_secret_of ssl (X25519_derive ssl k (take 32 (poke 0 pub (server_eph_pubkey s)))) transcript;
            keys = key_block ssl master random (tls_random_client s)
          in p = tls_record ContentType_Handshake (client_key_exchange (X25519_public ssl k)) @
               tls_record ContentType_ChangeCipher [1] @
               sealed_record ssl (chunk 0 16 keys) (chunk 32 4 keys) (write_sequence_number s) ContentType_Handshake
                 (client_finished ssl master transcript) \<and>
             wire (world t) = wire (world s) @ [m] \<and> client_frame api s Flags_PSH_ACK False p m \<and>
             map_option ec_key (enc_ctx t) = Some (chunk 0 16 keys) \<and> map_option ec_key (dec_ctx t) = Some (chunk 16 16 keys) \<and>
             client_write_iv t = chunk 32 4 keys \<and> iv_server_write_iv t = chunk 36 4 keys))
     (\<lambda>_ t. wire (world t) = wire (world s))"
proof -
  have sig: "length sig < 65536" using assms(9) by (simp add: key_exchange_body_def)
  show ?thesis
    apply (rule receive_server_hello [OF assms(10,4,5,6,3)])
    apply (rule receive_server_certificate [where rest = "tls_record ContentType_Handshake (key_exchange_body pub alg sig) @
        tls_record ContentType_Handshake hello_done_body", OF _ assms(7)], simp, simp)
    apply (rule receive_server_key_exchange [where rest = "tls_record ContentType_Handshake hello_done_body",
        OF _ assms(8) sig assms(9)], simp add: pending_def, simp)
    apply (rule returns_mono [OF receive_server_hello_done [OF assms(1,2)]])
       apply (simp add: pending_def)
      apply (simp_all)
    subgoal
      apply (elim exE conjE)
      subgoal for p m
        apply (unfold key_exchange_done_def Let_def)
        apply (elim exE conjE)
        subgoal for k by (rule exI [of _ k], rule exI [of _ p], rule exI [of _ m]) simp
        done
      done
    done
qed

theorem Tls_server_flight_witness:
  "returns (Tls_receive loop_api demo_ssl (demo_tls ServerHello
       (tls_record ContentType_Handshake (server_hello_body (replicate 32 9) [] []) @
        tls_record ContentType_Handshake (certificate_body [1, 2]) @
        tls_record ContentType_Handshake (key_exchange_body (replicate 32 8) 0x0401 [1, 2, 3]) @
        tls_record ContentType_Handshake hello_done_body) []))
     (\<lambda>r t. r = None \<and> hs_state t = ClientFinished \<and> (\<exists>m. lw_wire (world t) = [m])) (\<lambda>_ t. lw_wire (world t) = [])"
  by (rule returns_mono [OF Tls_server_flight [OF loop_api_ok demo_ssl_ok,
        where random = "replicate 32 9" and sid = "[]" and ext = "[]" and certs = "[1, 2]" and pub = "replicate 32 8"
          and alg = "0x0401" and sig = "[1, 2, 3]"]])
     (auto simp: Let_def server_hello_body_def certificate_body_def key_exchange_body_def)

lemma receive_sealed_record:
  assumes "ssl_ok ssl wire" and "hs_state s = ServerFinished" and "dec_ctx s = Some c" and "data \<noteq> []"
    and "length data < 65512"
    and "pending s (sealed_record ssl (ec_key c) (iv_server_write_iv s) seq ContentType_ApplicationData data @ rest)"
  shows "returns (Tls_receive api ssl s)
     (\<lambda>r t. r = Some data \<and> pending t rest \<and> hs_state t = ServerFinished \<and> wire (world t) = wire (world s) \<and>
        map_option ec_key (dec_ctx t) = Some (ec_key c) \<and> iv_server_write_iv t = iv_server_write_iv s \<and>
        cl_state t = cl_state s \<and> same_segment_state t s)
     (\<lambda>_ t. pending t rest \<and> wire (world t) = wire (world s) \<and> \<not> evp_reliable ssl \<and>
        cl_state t = cl_state s \<and> same_segment_state t s)"
proof -
  let ?n = "gcm_nonce (iv_server_write_iv s) seq"
  let ?c = "gcm_ctr ssl (ec_key c) ?n data"
  let ?b = "gcm_seal ssl (ec_key c) (iv_server_write_iv s) seq ContentType_ApplicationData data"
  note sz = ssl_ok_sizes [OF assms(1)]
  have l: "length ?b = length data + 16" by (simp add: sz)
  have "take (length data) (gcm_ctr ssl (ec_key c) ?n ?b) = gcm_ctr ssl (ec_key c) ?n (take (length data) ?b)"
    by (simp add: sz)
  also have "\<dots> = data" by (simp add: gcm_seal_def Let_def sz)
  finally have d: "take (length ?b - 16) (gcm_ctr ssl (ec_key c) (iv_server_write_iv s @ be_mem (BE seq)) ?b) = data"
    by (simp add: l gcm_nonce_def enc_nonce_def)
  show ?thesis
    by (rule returns_mono [OF receive_application_record [OF assms(1,3,2), where body = ?b and nonce = "be_mem (BE seq)" and rest = rest]])
       (use assms(2,4-6) d l in \<open>auto simp: sealed_record_def\<close>)
qed

text \<open>
  C10: after the handshake, a protected record of the server, sealed under any sequence number with the
  server's key and fixed nonce part, is opened by a receive: it returns exactly the bytes the server sealed
  and consumes exactly that record. A failing library call throws with the record consumed.
\<close>

theorem Tls_receive_opens_record:
  assumes "ssl_ok ssl wire" and "hs_state s = ServerFinished" and "dec_ctx s = Some c" and "data \<noteq> []"
    and "length data < 65512"
    and "pending s (sealed_record ssl (ec_key c) (iv_server_write_iv s) seq ContentType_ApplicationData data @ rest)"
  shows "returns (Tls_receive api ssl s)
     (\<lambda>r t. r = Some data \<and> pending t rest \<and> hs_state t = ServerFinished \<and> wire (world t) = wire (world s) \<and>
        map_option ec_key (dec_ctx t) = Some (ec_key c) \<and> iv_server_write_iv t = iv_server_write_iv s \<and>
        cl_state t = cl_state s \<and> same_segment_state t s)
     (\<lambda>_ t. pending t rest \<and> wire (world t) = wire (world s) \<and> \<not> evp_reliable ssl \<and>
        cl_state t = cl_state s \<and> same_segment_state t s)"
  using assms by (rule receive_sealed_record)

theorem Tls_receive_opens_record_witness:
  "returns (Tls_receive loop_api demo_ssl (demo_tls ServerFinished
       (sealed_record demo_ssl (replicate 16 2) (replicate 4 0) 0 ContentType_ApplicationData [104, 105] @ [23, 3, 3]) []))
     (\<lambda>r t. r = Some [104, 105] \<and> pending t [23, 3, 3]) (\<lambda>_ t. pending t [23, 3, 3])"
  by (rule returns_mono [OF Tls_receive_opens_record [OF demo_ssl_ok, where data = "[104, 105]" and seq = 0
        and rest = "[23, 3, 3]"]]) auto

text \<open>
  C27: the authentication tag is never checked. Whatever sixteen bytes follow the ciphertext, the
  record is accepted and its decryption handed out as application data; so are bytes an attacker flipped.
\<close>

theorem Tls_receive_accepts_any_tag:
  assumes "ssl_ok ssl wire" and "hs_state s = ServerFinished" and "dec_ctx s = Some c" and "forged \<noteq> []"
    and "length forged < 65512" and "length tag = 16" and "length nonce = 8"
    and "pending s (tls_record ContentType_ApplicationData (nonce @ forged @ tag) @ rest)"
    and "evp_reliable ssl"
  shows "returns (Tls_receive api ssl s)
     (\<lambda>r t. r = Some (gcm_ctr ssl (ec_key c) (iv_server_write_iv s @ nonce) forged) \<and> pending t rest) (\<lambda>_ _. False)"
proof -
  have t: "take (length forged) (gcm_ctr ssl (ec_key c) iv (forged @ tag)) = gcm_ctr ssl (ec_key c) iv forged" for iv
    using ssl_ok_sizes(5) [OF assms(1), of "ec_key c" iv "length forged" "forged @ tag"] by simp
  have p: "pending s (tls_record ContentType_ApplicationData (nonce @ (forged @ tag)) @ rest)" using assms(8) by simp
  have l: "16 < length (forged @ tag)" "length (forged @ tag) < 65528" using assms(4-6) by auto
  show ?thesis
    using receive_application_record [OF assms(1,3,2) l assms(7) p, of api] t assms(6,9)
    by (auto elim!: returns_mono)
qed

theorem Tls_receive_accepts_any_tag_witness:
  "returns (Tls_receive loop_api demo_ssl (demo_tls ServerFinished
       (tls_record ContentType_ApplicationData (replicate 8 0 @ [1, 2] @ replicate 16 99)) []))
     (\<lambda>r t. r = Some [0x54, 0x57]) (\<lambda>_ _. False)"
  by (rule returns_mono [OF Tls_receive_accepts_any_tag [OF demo_ssl_ok, where nonce = "replicate 8 0" and forged = "[1, 2]"
        and tag = "replicate 16 99" and rest = "[]"]])
     (auto simp: evp_reliable_def demo_ssl_def)

text \<open>
  A receive over an incomplete record changes nothing and returns nothing, so the client waits for
  the rest; a record of another protocol version is refused with an error, also without any change.
\<close>

lemma Tls_receive_waits_for_record:
  assumes "pending s bs" and "hs_state s \<noteq> ClientHelloToSend"
    and "incomplete_record bs \<or> 5 \<le> length bs \<and> rh_version (dec_record_header (take 5 bs)) \<noteq> kTls12"
  shows "Tls_receive api ssl s =
     Some (if incomplete_record bs then Inr None else Inl (Runtime_error ''wrong protocol''), s)"
proof (cases "incomplete_record bs")
  case True
  with receive_incomplete [OF assms(1) True assms(2)] show ?thesis by simp
next
  case False
  with assms(3) have v: "5 \<le> length bs" "rh_version (dec_record_header (take 5 bs)) \<noteq> kTls12" by auto
  have "returns (Tls_receive api ssl s) (\<lambda>_ _. False) (\<lambda>e t. e = Runtime_error ''wrong protocol'' \<and> t = s)"
    by (rule receive_rule)
       (use assms(2) v in \<open>simp add: Tls_receive_pass_def wp_simps wp_stream_peek_obj [OF assms(1)] sizeof_record_header_def\<close>)
  with False show ?thesis by (simp add: returns_error)
qed

lemma Tls_receive_waits_for_record_witness:
  "Tls_receive loop_api demo_ssl (demo_tls ServerFinished [23, 3, 3, 0] []) = Some (Inr None, demo_tls ServerFinished [23, 3, 3, 0] [])"
  using Tls_receive_waits_for_record [of "demo_tls ServerFinished [23, 3, 3, 0] []" "[23, 3, 3, 0]" loop_api demo_ssl]
  by (simp add: incomplete_record_def)

text \<open>
  C11: exactly when \<^verbatim>\<open>receive\<close> does not end. From any well-formed state it returns or throws, unless its passes
  reach a state in which the server's change of cipher has arrived completely but the Finished record
  behind it has not; then it calls itself for ever without reading anything, although the missing bytes
  would only have to be waited for.
\<close>

theorem Tls_receive_diverges_iff:
  assumes "Stream_inv (tls_stream s)"
  shows "Tls_receive api ssl s = None \<longleftrightarrow> (\<exists>t. receive_passes api ssl s t \<and> receive_stuck t)"
  using diverges_stuck [OF assms] passes_diverge by blast

theorem Tls_receive_diverges_iff_witness:
  "Tls_receive loop_api demo_ssl (demo_tls ClientFinished (tls_record ContentType_ChangeCipher [1]) []) = None"
proof -
  have e: "tls_record ContentType_ChangeCipher [1] = [0x14, 3, 3, 0, 1, 1]"
    by (simp add: tls_record_def enc_record_header_def kTls12_def ContentType_ChangeCipher_def be_mem_network_order be_bytes_def codec_simps)
  have h: "dec_record_header [0x14, 3, 3, 0, 1] = \<lparr>rh_content_type = ContentType_ChangeCipher, rh_version = kTls12, rh_size = BE (of_nat 1)\<rparr>"
    using tls_record_header(3) [of "[1]" ContentType_ChangeCipher] by (simp add: e)
  have "receive_stuck (demo_tls ClientFinished (tls_record ContentType_ChangeCipher [1]) [])"
    using h by (simp add: receive_stuck_def finished_incomplete_def record_size_at_def chunk_def e Let_def)
  then show ?thesis
    using Tls_receive_diverges_iff [of "demo_tls ClientFinished (tls_record ContentType_ChangeCipher [1]) []" loop_api demo_ssl]
      receive_passes.here by auto
qed

lemma wp_append_payload:
  assumes "pending s bs" and "Stream_capacity (tls_stream s) = 20600"
    and "34 \<le> tcp_off v" and "tcp_off v + 20 \<le> length (v_mem v)"
    and "tcp_off v + tcp_data_offset (tcp_hdr v) + tcp_payload_size v \<le> length (v_mem v)"
    and "length bs + tcp_payload_size v \<le> 20600"
    and "\<And>st. pending (s\<lparr>tls_stream := st\<rparr>) (bs @ chunk (tcp_off v + tcp_data_offset (tcp_hdr v)) (tcp_payload_size v) (v_mem v)) \<Longrightarrow>
      Stream_capacity st = 20600 \<Longrightarrow> Q () (s\<lparr>tls_stream := st\<rparr>)"
  shows "wp (Tls_append_payload v) Q E s"
proof -
  have inv: "Stream_inv (tls_stream s)" and c: "Stream_contents (tls_stream s) = bs" using assms(1) by (auto simp: pending_def)
  show ?thesis
    unfolding Tls_append_payload_def wp_thenM wp_on_stream
    by (rule wp_mono [OF fifo.shift_keeps [OF inv]])
       (use assms(2-7) in \<open>auto simp: wp_simps wp_on_stream c chunk_def pending_def intro!: fifo.push_wp\<close>)
qed

text \<open>
  C28: a retransmitted segment is ignored by the TCP client but not by the TLS client: its payload is appended
  to the receive stream a second time, so the record stream is corrupted.
\<close>

theorem Tls_retransmission_duplicated:
  assumes "pending s bs" and "Stream_capacity (tls_stream s) = 20600"
    and "34 \<le> tcp_off v" and "tcp_off v + 20 \<le> length (v_mem v)" and "IP_is_valid v s = (Inr True, s)"
    and "\<not> has_flag (tcp_flags (tcp_hdr v)) Flags_RST" and "cl_ack s \<noteq> SeqNumber 0"
    and "SeqNumber (be_value (tcp_seq (tcp_hdr v))) \<noteq> cl_ack s"
    and "SeqNumber_less (SeqNumber (be_value (tcp_seq (tcp_hdr v)))) (cl_ack s)"
    and "tcp_off v + tcp_data_offset (tcp_hdr v) + tcp_payload_size v \<le> length (v_mem v)"
    and "length bs + tcp_payload_size v \<le> 20600"
  shows "wp (Tls_process_packet api v) (\<lambda>_ t. cl_ack t = cl_ack s \<and>
       pending t (bs @ chunk (tcp_off v + tcp_data_offset (tcp_hdr v)) (tcp_payload_size v) (v_mem v))) (\<lambda>_ _. False) s"
proof -
  have old: "Client_process_packet api v s = (Inr (), s)"
    using process_out_of_order [OF assms(3-8)] assms(9) by simp
  show ?thesis
    unfolding Tls_process_packet_def wp_thenM wp_result [of "Client_process_packet api v", OF old]
    by (rule wp_append_payload [OF assms(1-4,10,11)]) simp
qed

theorem Tls_retransmission_duplicated_witness:
  "wp (Tls_process_packet loop_api (demo_segment Flags_ACK 90 7 [1, 2])) (\<lambda>_ t. pending t [9, 1, 2]) (\<lambda>_ _. False)
     ((demo_tls ServerFinished [] [])\<lparr>tls_stream := \<lparr>buffer = 9 # replicate 20599 0, s_read = 0, s_write = 1\<rparr>\<rparr>)"
proof -
  have c: "chunk 54 (Suc (Suc 0)) (v_mem (demo_segment Flags_ACK 90 7 [1, 2])) = [1, 2]" by (simp add: demo_segment_def chunk_def)
  have d: "tcp_data_offset (demo_header Flags_ACK 90 7) = 20"
    by (simp add: demo_header_def tcp_data_offset_def data_offset_scaled_def)
  have h: "tcp_seq (demo_header Flags_ACK 90 7) = BE 90" "tcp_flags (demo_header Flags_ACK 90 7) = Flags_ACK"
    "\<not> has_flag Flags_ACK Flags_RST"
    by (simp_all add: demo_header_def has_flag_def Flags_defs)
  show ?thesis
    by (rule wp_mono [OF Tls_retransmission_duplicated [where bs = "[9]"]])
       (auto simp: pending_def Stream_inv_def Stream_contents_def Stream_size_def Stream_capacity_def c d
          chunk_def [of 0] chunk_def [of _ "Suc 0"] h SeqNumber_less_def SeqNumber_compare_def sint_neg_iff)
qed

lemma hello_sent_keeps [simp]:
  "hello_sent s p ((after_send n u)\<lparr>world := w\<rparr>) = hello_sent s p u" "hello_sent s p (u\<lparr>hs_state := h\<rparr>) = hello_sent s p u"
  by (simp_all add: hello_sent_def after_send_def)

lemma wp_send_client_hello:
  assumes dpdk: "dpdk_ok api wire" and ssl: "ssl_ok ssl wire" and host: "length (sni_hostname s) \<le> 1908"
  shows "wp (send_client_hello api ssl)
     (\<lambda>_ t. \<exists>p m. hello_sent s p t \<and> same_segment_state t (after_send (length p) s) \<and> length p \<le> 1994 \<and>
       wire (world t) = wire (world s) @ [m] \<and> client_frame api s Flags_PSH_ACK False p m)
     (\<lambda>_ t. wire (world t) = wire (world s) \<and> (room s 1994 \<longrightarrow> dpdk_reliable api \<longrightarrow> \<not> ssl_reliable ssl)) s"
  unfolding send_client_hello_def
proof (rule wp_mono [OF wp_send_filled [OF dpdk, where P = "hello_sent s" and reliable = "ssl_reliable ssl"]])
  fix ws :: write_stream and t
  assume ws: "length (ws_mem ws) = 1994" "ws_cap ws = 2122" "write_it ws = 0"
    and t: "t\<lparr>world := world s\<rparr> = s" "wire (world t) = wire (world s)"
  from t(1) obtain w where tw: "t = s\<lparr>world := w\<rparr>" by (rule same_but_world)
  show "wp (fill_client_hello ssl ws) (\<lambda>r u. case r of (ws', n) \<Rightarrow> length (ws_mem ws') = 1994 \<and> n \<le> 1994 \<and>
      same_segment_state u s \<and> wire (world u) = wire (world s) \<and> hello_sent s (take n (ws_mem ws')) u)
     (\<lambda>_ u. wire (world u) = wire (world s) \<and> \<not> ssl_reliable ssl) t"
    by (rule wp_mono [OF wp_fill_client_hello [OF ssl ws, of t]])
       (use t(2) host in \<open>auto simp: tw same_segment_state_def hello_sent_def\<close>)
qed (auto simp: after_send_def [THEN arg_cong [of _ _ world]])

lemma receive_client_hello:
  assumes "dpdk_ok api wire" and "ssl_ok ssl wire" and "hs_state s = ClientHelloToSend" and "pending s []"
    and "length (sni_hostname s) \<le> 1908"
  shows "returns (Tls_receive api ssl s)
     (\<lambda>r t. r = None \<and> hs_state t = ServerHello \<and> pending t [] \<and> server_eph_pubkey t = server_eph_pubkey s \<and>
        (\<exists>p m. p = tls_record ContentType_Handshake (client_hello (tls_random_client t) (sni_hostname s)) \<and>
           length (tls_random_client t) = 32 \<and> same_segment_state t (after_send (length p) s) \<and> length p \<le> 1994 \<and>
           wire (world t) = wire (world s) @ [m] \<and> client_frame api s Flags_PSH_ACK False p m \<and>
           handshake_hash t = handshake_hash s @ client_hello (tls_random_client t) (sni_hostname s)))
     (\<lambda>_ t. wire (world t) = wire (world s) \<and> (room s 1994 \<longrightarrow> dpdk_reliable api \<longrightarrow> \<not> ssl_reliable ssl))"
proof (rule receive_rule)
  have e: "Stream_empty (tls_stream s)" using pending_size [OF assms(4)] by (simp add: Stream_empty_def)
  show "wp (Tls_receive_pass api ssl) (\<lambda>r t. case r of Return x \<Rightarrow> x = None \<and> hs_state t = ServerHello \<and> pending t [] \<and> server_eph_pubkey t = server_eph_pubkey s \<and>
        (\<exists>p m. p = tls_record ContentType_Handshake (client_hello (tls_random_client t) (sni_hostname s)) \<and>
           length (tls_random_client t) = 32 \<and> same_segment_state t (after_send (length p) s) \<and> length p \<le> 1994 \<and>
           wire (world t) = wire (world s) @ [m] \<and> client_frame api s Flags_PSH_ACK False p m \<and>
           handshake_hash t = handshake_hash s @ client_hello (tls_random_client t) (sni_hostname s))
      | Recurse \<Rightarrow> A t) (\<lambda>_ t. wire (world t) = wire (world s) \<and> (room s 1994 \<longrightarrow> dpdk_reliable api \<longrightarrow> \<not> ssl_reliable ssl)) s" for A
    using assms(3,4) e unfolding Tls_receive_pass_def
    by (simp add: wp_simps) (rule wp_mono [OF wp_send_client_hello [OF assms(1,2,5)]], auto simp: hello_sent_def pending_def same_segment_state_def after_send_def)
qed

text \<open>
  C12: the first receive of a new client sends one segment with one handshake record, a ClientHello with the
  client's fresh random bytes, its one cipher suite and the host name; it returns nothing, and the message is in
  the transcript. The record, the message, the block of extensions and each of the five extensions state the
  lengths of what they hold, and so do the host name, the list of names and the list of groups; the length of
  the list of signature algorithms alone is stated as zero, although one algorithm follows. If the call throws,
  nothing was sent, and the send window had no room or one of the libraries failed.
\<close>

theorem Tls_client_hello_first:
  assumes "dpdk_ok api wire" and "ssl_ok ssl wire" and "hs_state s = ClientHelloToSend" and "pending s []"
    and "length (sni_hostname s) \<le> 1908"
  shows "returns (Tls_receive api ssl s)
     (\<lambda>r t. r = None \<and> hs_state t = ServerHello \<and> pending t [] \<and>
        (\<exists>m. length (tls_random_client t) = 32 \<and> wire (world t) = wire (world s) @ [m] \<and>
           client_frame api s Flags_PSH_ACK False
             (tls_record ContentType_Handshake (client_hello (tls_random_client t) (sni_hostname s))) m \<and>
           handshake_hash t = handshake_hash s @ client_hello (tls_random_client t) (sni_hostname s)))
     (\<lambda>_ t. wire (world t) = wire (world s) \<and> (room s 1994 \<longrightarrow> dpdk_reliable api \<longrightarrow> \<not> ssl_reliable ssl))"
  by (rule returns_mono [OF receive_client_hello [OF assms]]) auto

theorem Tls_client_hello_first_witness:
  "returns (Tls_receive loop_api demo_ssl (demo_tls ClientHelloToSend [] []))
     (\<lambda>r t. r = None \<and> hs_state t = ServerHello \<and> (\<exists>m. lw_wire (world t) = [m])) (\<lambda>_ t. lw_wire (world t) = [])"
  by (rule returns_mono [OF Tls_client_hello_first [OF loop_api_ok demo_ssl_ok]])
     auto

end
