(* ===== verification/Wss_Client.thy ===== *)
theory Wss_Client
  imports Wss_Frame Tls_Handshake
begin

text \<open>
  The web socket client, src/src/network/wss/client.h and client.cpp, on top of the TLS client: the HTTP
  upgrade, the acceptance of its response, and \<^verbatim>\<open>next_message\<close>, which drains the TLS client into the frame
  stream and hands out one message. The client owns the TLS client, so its state extends the TLS client's.
  The random source of the key and OpenSSL's base64 encoder are the parameter \<open>wss_api\<close>.
  \<^verbatim>\<open>next_message\<close> calls \<^verbatim>\<open>receive\<close> in a loop, so it is partial like \<^verbatim>\<open>receive\<close>: \<open>None\<close> is not returning.
\<close>

datatype wss_state = Init | HttpHandshake | Wss_Connected

record 'w wss_client = "'w tls_client" +
  wss_stream :: stream
  wss_state :: wss_state
  ws_host :: bytes
  ws_path :: bytes

record 'w wss_api =
  random_16 :: "'w \<Rightarrow> bytes \<times> 'w"
  EVP_EncodeBlock :: "bytes \<Rightarrow> bytes"

text \<open>The constructor: the TLS client is emplaced with the host and the moved TCP client.\<close>

definition Wss_new :: "bytes \<Rightarrow> bytes \<Rightarrow> 'w tcp_client \<Rightarrow> 'w wss_client" where
  "Wss_new host path tcp = tls_client.extend (Tls_new host tcp)
     (wss_client.fields (Stream_new 200000) Init host path)"

definition Wss_ctor :: "'w dpdk_api \<Rightarrow> 'w ssl_api \<Rightarrow> (('w, 'z) wss_client_scheme, unit) prog" where
  "Wss_ctor api ssl = Tls_ctor api ssl"

definition on_wss_stream :: "(stream, 'a) prog \<Rightarrow> (('w, 'z) wss_client_scheme, 'a) prog" where
  "on_wss_stream = zoom wss_stream wss_stream_update"

text \<open>The key: sixteen random bytes, encoded into a buffer that the string constructor reads up to the zero byte.\<close>

definition gen_sec_webSocket_key :: "'w wss_api \<Rightarrow> (('w, 'z) device_scheme, bytes) prog" where
  "gen_sec_webSocket_key wss = bindM (world_call (random_16 wss)) (\<lambda>random_bytes.
     ret (takeWhile (\<lambda>b. b \<noteq> 0) (take 25 (EVP_EncodeBlock wss random_bytes @ replicate 25 0))))"

definition crlf :: bytes where "crlf = [13, 10]"

definition upgrade_request :: "bytes \<Rightarrow> bytes \<Rightarrow> bytes \<Rightarrow> bytes" where
  "upgrade_request path host key =
     string_bytes ''GET '' @ path @ string_bytes '' HTTP/1.1'' @ crlf @
     string_bytes ''Host: '' @ host @ crlf @
     string_bytes ''Upgrade: websocket'' @ crlf @
     string_bytes ''Connection: Upgrade, keep-alive'' @ crlf @
     string_bytes ''Sec-WebSocket-Key: '' @ key @ crlf @
     string_bytes ''Sec-WebSocket-Version: 13'' @ crlf @ crlf"

definition generate_upgrade_request ::
    "'w dpdk_api \<Rightarrow> 'w ssl_api \<Rightarrow> 'w wss_api \<Rightarrow> (('w, 'z) wss_client_scheme, unit) prog" where
  "generate_upgrade_request api ssl wss =
     bindM (gets wss_state) (\<lambda>st.
     thenM (require (st = Init) '''')
     (bindM (gets (\<lambda>s. (ws_path s, ws_host s))) (\<lambda>(path, host).
      bindM (gen_sec_webSocket_key wss) (\<lambda>key.
      thenM (on_send_buffer (Stream_push_string (upgrade_request path host key)))
      (Tls_flush api ssl)))))"

definition response_prefix :: bytes where "response_prefix = string_bytes ''HTTP/1.1 101''"
definition response_suffix :: bytes where "response_suffix = crlf @ crlf"

definition accept_handshake :: "(('w, 'z) wss_client_scheme, bool) prog" where
  "accept_handshake =
     bindM (gets wss_state) (\<lambda>st.
     thenM (require (st = HttpHandshake) ''wrong state'')
     (bindM (gets (\<lambda>s. Stream_size (wss_stream s))) (\<lambda>n.
      bindM (on_wss_stream (Stream_peek n)) (\<lambda>tls_payload.
      thenM (opt_value tls_payload)
      (bindM (gets (\<lambda>s. (Stream_search response_prefix (wss_stream s), Stream_search response_suffix (wss_stream s)))) (\<lambda>(pref_pos, suf_pos).
       if pref_pos = None \<or> suf_pos = None then ret False else
       bindM (opt_value suf_pos) (\<lambda>pos.
       bindM (on_wss_stream (Stream_pop (pos + length response_suffix))) (\<lambda>p.
       thenM (opt_value p) (ret True)))))))))"

text \<open>The loop of \<^verbatim>\<open>next_message\<close> over the records the TLS client has.\<close>

definition push_received :: "bytes \<Rightarrow> (('w, 'z) wss_client_scheme, unit) prog" where
  "push_received bs = on_wss_stream (thenM Stream_shift (Stream_push_bytes bs))"

partial_function (option) drain_tls ::
    "'w dpdk_api \<Rightarrow> 'w ssl_api \<Rightarrow> ('w, 'z) wss_client_scheme \<Rightarrow> ((error + unit) \<times> ('w, 'z) wss_client_scheme) option" where
  "drain_tls api ssl s = (case Tls_receive api ssl s of
     None \<Rightarrow> None
   | Some (Inl e, t) \<Rightarrow> Some (Inl e, t)
   | Some (Inr None, t) \<Rightarrow> Some (Inr (), t)
   | Some (Inr (Some bs), t) \<Rightarrow> (case push_received bs t of
       (Inl e, u) \<Rightarrow> Some (Inl e, u) | (Inr _, u) \<Rightarrow> drain_tls api ssl u))"

text \<open>The rest of \<^verbatim>\<open>next_message\<close>: the handshake state and one frame.\<close>

definition advance_handshake ::
    "'w dpdk_api \<Rightarrow> 'w ssl_api \<Rightarrow> 'w wss_api \<Rightarrow> (('w, 'z) wss_client_scheme, bool) prog" where
  "advance_handshake api ssl wss =
     bindM (gets (\<lambda>s. (is_handshake_complete s, wss_state s))) (\<lambda>(complete, st).
     if complete \<and> st = Init then
       thenM (generate_upgrade_request api ssl wss) (thenM (modify (\<lambda>s. s\<lparr>wss_state := HttpHandshake\<rparr>)) (ret True))
     else if complete \<and> st = HttpHandshake then
       bindM accept_handshake (\<lambda>ok. if \<not> ok then ret False
         else thenM (modify (\<lambda>s. s\<lparr>wss_state := Wss_Connected\<rparr>)) (ret True))
     else ret True)"

definition deliver_frame :: "(('w, 'z) wss_client_scheme, bytes option) prog" where
  "deliver_frame = assign_or_return (on_wss_stream extract_payload) None (\<lambda>(code, payload).
     if code = OpCode_Text \<or> code = OpCode_Binary then ret (Some payload) else ret None)"

definition after_drain ::
    "'w dpdk_api \<Rightarrow> 'w ssl_api \<Rightarrow> 'w wss_api \<Rightarrow> (('w, 'z) wss_client_scheme, bytes option) prog" where
  "after_drain api ssl wss = bindM (advance_handshake api ssl wss) (\<lambda>go.
     if go then deliver_frame else ret None)"

definition next_message ::
    "'w dpdk_api \<Rightarrow> 'w ssl_api \<Rightarrow> 'w wss_api \<Rightarrow> ('w, 'z) wss_client_scheme \<Rightarrow>
       ((error + bytes option) \<times> ('w, 'z) wss_client_scheme) option" where
  "next_message api ssl wss s = (case drain_tls api ssl s of
     None \<Rightarrow> None
   | Some (Inl e, t) \<Rightarrow> Some (Inl e, t)
   | Some (Inr _, t) \<Rightarrow> Some (after_drain api ssl wss t))"

definition Wss_process_packet :: "'w dpdk_api \<Rightarrow> packet_view \<Rightarrow> (('w, 'z) wss_client_scheme, unit) prog" where
  "Wss_process_packet api tcp_packet = Tls_process_packet api tcp_packet"

section \<open>The web socket part of the state under the TLS operations\<close>

text \<open>Every operation on a stream keeps its capacity.\<close>

lemma capacity_kept:
  "keeps Stream_capacity (Stream_peek n)" "keeps Stream_capacity (Stream_peek_obj dec n)" "keeps Stream_capacity (Stream_pop n)"
  "keeps Stream_capacity (Stream_pop_obj dec n)" "keeps Stream_capacity Stream_shift" "keeps Stream_capacity (Stream_push_bytes bs)"
  "keeps Stream_capacity read_transaction" "keeps Stream_capacity (commit r)"
  by (auto simp: keeps_def Stream_peek_def Stream_peek_obj_def Stream_pop_def Stream_pop_obj_def Stream_shift_read_def Stream_shift_def
      Stream_push_bytes_def read_transaction_def commit_def prog_defs Stream_capacity_def Stream_size_def available_suffix_bytes_def poke_def
      split: option.splits)

text \<open>
  A part of the state that survives a whole \<^verbatim>\<open>receive\<close>, which also reads the stream of the TLS client: it depends at
  most on the capacity of the stream.
\<close>

locale beside_receive = receive_frame_condition part
  for part :: "('w, 'z) tls_client_scheme \<Rightarrow> 'b" +
  assumes tls_stream_kept: "Stream_capacity v = Stream_capacity (tls_stream s) \<Longrightarrow> part (s\<lparr>tls_stream := v\<rparr>) = part s"
begin

lemma keeps_on_stream: "keeps Stream_capacity m \<Longrightarrow> keeps part (on_stream m)"
  by (auto simp: keeps_def on_stream_def zoom_def split: prod.splits intro!: tls_stream_kept) (metis snd_conv)

lemmas tls_steps = steps keeps_on_stream [OF capacity_kept(1)] keeps_on_stream [OF capacity_kept(2)] keeps_on_stream [OF capacity_kept(3)]
  keeps_on_stream [OF capacity_kept(4)] keeps_on_stream [OF capacity_kept(5)] keeps_on_stream [OF capacity_kept(6)]
  keeps_on_stream [OF capacity_kept(7)] keeps_on_stream [OF capacity_kept(8)] keeps_send_filled keeps_encrypt keeps_decrypt
  keeps_key_exchange keeps_client_hello

lemma keeps_handshake: "keeps part (process_handshake api ssl)"
  unfolding process_handshake_def process_server_hello_def process_server_certificate_def process_server_key_exchange_def
    process_server_hello_done_def process_server_finished_def HandshakeHash_update_def Let_def
  by (intro tls_steps; (simp split: handshake_state.split)?; (intro conjI impI tls_steps; simp)?)

lemma keeps_pass: "keeps part (Tls_receive_pass api ssl)"
  unfolding Tls_receive_pass_def receive_application_data_def
  by (intro tls_steps keeps_handshake; simp)

lemma receive_keeps: "Tls_receive api ssl s = Some (r, t) \<Longrightarrow> part t = part s"
proof -
  assume "Tls_receive api ssl s = Some (r, t)"
  then have "part (snd (r, t)) = part s"
    by (rule Tls_receive.raw_induct [rotated, where P = "\<lambda>api ssl s r. part (snd r) = part s"])
       (use keeps_pass in \<open>auto simp: keeps_def split: prod.splits sum.splits pass.splits, (metis snd_conv)+\<close>)
  then show ?thesis by simp
qed

lemma returns_receive_keeps:
  assumes "returns (Tls_receive api ssl s) Q E"
  shows "returns (Tls_receive api ssl s) (\<lambda>r t. Q r t \<and> part t = part s) (\<lambda>e t. E e t \<and> part t = part s)"
  using assms by (auto simp: returns_def dest: receive_keeps split: option.splits prod.splits sum.splits)

end

text \<open>A part that survives also the packets and the flushing of the TLS client.\<close>

locale beside_tls = beside_receive part + flush_frame_condition part + tcp_frame_condition part
  for part :: "('w, 'z) tls_client_scheme \<Rightarrow> 'b"
begin

lemma keeps_tls_packet: "keeps part (Tls_process_packet api v)"
  unfolding Tls_process_packet_def Tls_append_payload_def by (intro tls_steps keeps_process_packet)

end

interpretation wss_part: beside_tls tls_client.more
  by unfold_locales simp_all

interpretation capacity_part: beside_tls "\<lambda>s. Stream_capacity (tls_stream s)"
  by unfold_locales simp_all

text \<open>The burst of received packets the worker is working off.\<close>

definition burst :: "('w, 'z) device_scheme \<Rightarrow> mbuf list \<times> nat" where
  "burst s = (receive_mbufs s, current_recieve_mbuf_idx s)"

interpretation burst_part: beside_tls burst
  by unfold_locales (simp_all add: burst_def)

text \<open>What receiving leaves alone of the TCP client and of the TLS client, and what flushing leaves alone.\<close>

interpretation quiet_part: beside_receive "\<lambda>s. (tls_send_buffer s, sni_hostname s, cl_state s, cl_ack s)"
  by unfold_locales simp_all

interpretation flush_part: flush_frame_condition "\<lambda>s. (dec_ctx s, iv_server_write_iv s)"
  by unfold_locales simp_all

lemma same_wss_part:
  fixes s t :: "('w, 'z) wss_client_scheme"
  assumes "tls_client.more t = tls_client.more s"
  shows "wss_stream t = wss_stream s \<and> wss_state t = wss_state s \<and> ws_host t = ws_host s \<and> ws_path t = ws_path s"
  using assms by (cases s, cases t) simp

lemma receive_keeps_wss:
  fixes s :: "('w, 'z) wss_client_scheme"
  assumes "returns (Tls_receive api ssl s) Q E"
  shows "returns (Tls_receive api ssl s)
     (\<lambda>r t. Q r t \<and> tls_client.more t = tls_client.more s \<and> Stream_capacity (tls_stream t) = Stream_capacity (tls_stream s) \<and>
        burst t = burst s)
     (\<lambda>e t. E e t \<and> tls_client.more t = tls_client.more s \<and> Stream_capacity (tls_stream t) = Stream_capacity (tls_stream s) \<and>
        burst t = burst s)"
  using assms by (auto simp: returns_def dest: wss_part.receive_keeps capacity_part.receive_keeps burst_part.receive_keeps split: option.splits prod.splits sum.splits)

section \<open>Draining the TLS client\<close>

lemma wp_on_wss_stream:
  "wp (on_wss_stream m) Q E =
     (\<lambda>s. wp m (\<lambda>a t. Q a (s\<lparr>wss_stream := t\<rparr>)) (\<lambda>e t. E e (s\<lparr>wss_stream := t\<rparr>)) (wss_stream s))"
  unfolding on_wss_stream_def by (rule wp_zoom)

lemma drain_rule:
  assumes "returns (Tls_receive api ssl s) (\<lambda>r t. case r of None \<Rightarrow> Q () t
     | Some bs \<Rightarrow> wp (push_received bs) (\<lambda>_ u. returns (drain_tls api ssl u) Q E) E t) E"
  shows "returns (drain_tls api ssl s) Q E"
proof (cases "Tls_receive api ssl s")
  case None
  with assms show ?thesis by (simp add: returns_def)
next
  case (Some rt)
  then show ?thesis
    using assms by (subst drain_tls.simps)
      (auto simp: returns_def wp_def split: prod.splits sum.splits option.splits)
qed

text \<open>The web socket stream holds the given bytes and can take more.\<close>

definition arrived :: "('w, 'z) wss_client_scheme \<Rightarrow> bytes \<Rightarrow> bool" where
  "arrived s bs \<longleftrightarrow> Stream_inv (wss_stream s) \<and> Stream_capacity (wss_stream s) = 200000 \<and> Stream_contents (wss_stream s) = bs"

lemma wp_push_received:
  assumes "arrived s bs" and "length bs + length new \<le> 200000"
    and "\<And>st. arrived (s\<lparr>wss_stream := st\<rparr>) (bs @ new) \<Longrightarrow> Q () (s\<lparr>wss_stream := st\<rparr>)"
  shows "wp (push_received new) Q E s"
  unfolding push_received_def wp_on_wss_stream
  by (rule wp_mono [OF fifo.shift_then_push]) (use assms in \<open>auto simp: arrived_def\<close>)

text \<open>The application records of the server, sealed with consecutive or any other sequence numbers.\<close>

definition sealed_stream :: "'w ssl_api \<Rightarrow> bytes \<Rightarrow> bytes \<Rightarrow> (u64 \<times> bytes) list \<Rightarrow> bytes" where
  "sealed_stream ssl key fixed ms =
     concat (map (\<lambda>(seq, data). sealed_record ssl key fixed seq ContentType_ApplicationData data) ms)"

text \<open>The state in which the client reads the server's records.\<close>

definition reading :: "('w, 'z) wss_client_scheme \<Rightarrow> bytes \<Rightarrow> bytes \<Rightarrow> bytes \<Rightarrow> bytes \<Rightarrow> bool" where
  "reading s key fixed records bs \<longleftrightarrow> hs_state s = ServerFinished \<and> map_option ec_key (dec_ctx s) = Some key \<and>
     iv_server_write_iv s = fixed \<and> pending s records \<and> arrived s bs"

definition kept_by_reading :: "('w \<Rightarrow> mbuf list) \<Rightarrow> ('w, 'z) wss_client_scheme \<Rightarrow> ('w, 'z) wss_client_scheme \<Rightarrow> bool" where
  "kept_by_reading wire s t \<longleftrightarrow> wss_state t = wss_state s \<and> wire (world t) = wire (world s) \<and>
     ws_host t = ws_host s \<and> ws_path t = ws_path s \<and> Stream_capacity (tls_stream t) = Stream_capacity (tls_stream s) \<and>
     burst t = burst s \<and> cl_state t = cl_state s \<and> same_segment_state t s"

lemma kept_by_reading_refl: "kept_by_reading wire s s"
  by (simp add: kept_by_reading_def same_segment_state_def)

lemma kept_by_reading_trans: "kept_by_reading wire s t \<Longrightarrow> kept_by_reading wire t u \<Longrightarrow> kept_by_reading wire s u"
  by (simp add: kept_by_reading_def same_segment_state_def)

lemma drain_sealed_stream:
  fixes s :: "('w, 'z) wss_client_scheme"
  assumes ssl: "ssl_ok ssl wire" and rest: "incomplete_record rest"
    and data: "\<forall>(seq, data) \<in> set ms. data \<noteq> [] \<and> length data < 65512"
    and room: "length bs + length (concat (map snd ms)) \<le> 200000"
    and s: "reading s key fixed (sealed_stream ssl key fixed ms @ rest) bs"
  shows "returns (drain_tls api ssl s)
     (\<lambda>_ t. reading t key fixed rest (bs @ concat (map snd ms)) \<and> kept_by_reading wire s t)
     (\<lambda>_ t. \<not> evp_reliable ssl \<and> kept_by_reading wire s t)"
  using data room s
proof (induction ms arbitrary: s bs)
  case Nil
  then have "Tls_receive api ssl s = Some (Inr None, s)"
    by (intro receive_incomplete [OF _ rest]) (auto simp: reading_def sealed_stream_def)
  then show ?case
    using Nil by (intro drain_rule) (auto simp: returns_def sealed_stream_def kept_by_reading_def same_segment_state_def)
next
  case (Cons m ms)
  obtain seq data where m: "m = (seq, data)" by (cases m)
  from Cons.prems obtain c where c: "dec_ctx s = Some c" "ec_key c = key" by (auto simp: reading_def)
  have p: "pending s (sealed_record ssl (ec_key c) (iv_server_write_iv s) seq ContentType_ApplicationData data @
      sealed_stream ssl key fixed ms @ rest)"
    using Cons.prems(3) c by (simp add: reading_def sealed_stream_def m)
  note opened = receive_sealed_record [OF ssl _ c(1) _ _ p, of api]
  have next_read: "returns (drain_tls api ssl (t\<lparr>wss_stream := st\<rparr>))
      (\<lambda>_ u. reading u key fixed rest (bs @ concat (map snd (m # ms))) \<and> kept_by_reading wire s u)
      (\<lambda>_ u. \<not> evp_reliable ssl \<and> kept_by_reading wire s u)"
    if t: "pending t (sealed_stream ssl key fixed ms @ rest)" "hs_state t = ServerFinished" "wire (world t) = wire (world s)"
      "map_option ec_key (dec_ctx t) = Some key" "iv_server_write_iv t = fixed"
      "tls_client.more t = tls_client.more s \<and> Stream_capacity (tls_stream t) = Stream_capacity (tls_stream s) \<and> burst t = burst s"
      "cl_state t = cl_state s \<and> same_segment_state t s" "arrived (t\<lparr>wss_stream := st\<rparr>) (bs @ data)" for t st
  proof (rule returns_mono [OF Cons.IH [of "bs @ data" "t\<lparr>wss_stream := st\<rparr>"]])
    have "kept_by_reading wire s (t\<lparr>wss_stream := st\<rparr>)" using same_wss_part [of t s] t(3,6,7) by (simp add: kept_by_reading_def same_segment_state_def burst_def)
    then have trans: "kept_by_reading wire (t\<lparr>wss_stream := st\<rparr>) u \<Longrightarrow> kept_by_reading wire s u" for u
      by (rule kept_by_reading_trans)
    show "reading u key fixed rest (bs @ concat (map snd (m # ms))) \<and> kept_by_reading wire s u"
      if "reading u key fixed rest ((bs @ data) @ concat (map snd ms)) \<and> kept_by_reading wire (t\<lparr>wss_stream := st\<rparr>) u" for u
      using that trans by (simp add: m)
    show "\<not> evp_reliable ssl \<and> kept_by_reading wire s u"
      if "\<not> evp_reliable ssl \<and> kept_by_reading wire (t\<lparr>wss_stream := st\<rparr>) u" for u using that trans by simp
  qed (use Cons.prems(1,2) t in \<open>auto simp: m reading_def pending_def\<close>)
  show ?case
  proof (intro drain_rule returns_mono [OF receive_keeps_wss [OF opened]], goal_cases)
    case (4 r t)
    then have "arrived t bs" using Cons.prems(3) same_wss_part [of t s] by (auto simp: reading_def arrived_def)
    moreover have "iv_server_write_iv s = fixed" "length bs + length data \<le> 200000"
      using Cons.prems(2,3) by (auto simp: reading_def m)
    ultimately have "wp (push_received data) (\<lambda>_ u. returns (drain_tls api ssl u)
        (\<lambda>_ u. reading u key fixed rest (bs @ concat (map snd (m # ms))) \<and> kept_by_reading wire s u)
        (\<lambda>_ u. \<not> evp_reliable ssl \<and> kept_by_reading wire s u)) E t" for E
      using 4 c(2) by (intro wp_push_received next_read) simp_all
    then show ?case using 4 by (simp only: option.case)
  next
    case (5 e t)
    then show ?case using same_wss_part [of t s] by (auto simp: kept_by_reading_def)
  qed (use Cons.prems in \<open>auto simp: reading_def m\<close>)
qed

section \<open>The upgrade and the messages\<close>

lemma next_message_rule:
  assumes "returns (drain_tls api ssl s) (\<lambda>_ t. wp (after_drain api ssl wss) Q E t) E"
  shows "returns (next_message api ssl wss s) Q E"
  using assms by (auto simp: next_message_def returns_def wp_def split: option.splits prod.splits sum.splits)

lemma reading_stream [simp]:
  "reading (s\<lparr>wss_stream := st\<rparr>) key fixed records bs \<longleftrightarrow> arrived (s\<lparr>wss_stream := st\<rparr>) bs \<and>
     hs_state s = ServerFinished \<and> map_option ec_key (dec_ctx s) = Some key \<and> iv_server_write_iv s = fixed \<and> pending s records"
  by (auto simp: reading_def pending_def)

lemma kept_by_reading_stream [simp]: "kept_by_reading wire s (t\<lparr>wss_stream := st\<rparr>) = kept_by_reading wire s t"
  by (simp add: kept_by_reading_def same_segment_state_def burst_def)

text \<open>The frames that carry data for the user; the others are control frames.\<close>

definition data_code :: "byte \<Rightarrow> bool" where
  "data_code code \<longleftrightarrow> code AND 0x0F = OpCode_Text \<or> code AND 0x0F = OpCode_Binary"

lemma wp_deliver_frame:
  assumes "arrived s (enc_frame fin code p @ rest)" and "length p \<noteq> 125" and "unat (code AND 0x0F) \<le> 10"
    and "\<And>st. arrived (s\<lparr>wss_stream := st\<rparr>) rest \<Longrightarrow> Q (if data_code code then Some p else None) (s\<lparr>wss_stream := st\<rparr>)"
  shows "wp deliver_frame Q E s"
proof -
  have a: "Stream_inv (wss_stream s)" "Stream_contents (wss_stream s) = enc_frame fin code p @ rest"
    "Stream_capacity (wss_stream s) = 200000" using assms(1) by (auto simp: arrived_def)
  have "length p \<le> length (enc_frame fin code p @ rest)" by (simp add: enc_frame_def Let_def)
  also have "\<dots> \<le> 200000" using a Stream_size_le_capacity [OF a(1)] length_Stream_contents [OF a(1)] by simp
  finally have "length p < 2 ^ 63" by simp
  then show ?thesis
    unfolding deliver_frame_def wp_assign_or_return wp_on_wss_stream
    by (intro wp_mono [OF wp_extract_frame [OF a(1,2) assms(2) _ assms(3)]])
       (use assms(4) a(3) in \<open>auto simp: wp_simps data_code_def arrived_def\<close>)
qed

lemma deliver_partial_frame:
  assumes "arrived s (take k (enc_frame fin code p))" and "k < length (enc_frame fin code p)" and "length p \<noteq> 125" and "length p < 2 ^ 63"
  shows "deliver_frame s = (Inr None, s)"
proof -
  have "extract_payload (wss_stream s) = (Inr None, wss_stream s)"
    using assms by (intro extract_partial_frame) (auto simp: arrived_def)
  then show ?thesis by (simp add: deliver_frame_def on_wss_stream_def prog_defs)
qed

text \<open>
  What one look at the stream makes of the bytes in it, where they begin with a frame the client can read, or with
  no more than a part of one: the payload handed out, if any, and the bytes left.
\<close>

definition partial_frame :: "bytes \<Rightarrow> bool" where
  "partial_frame bs \<longleftrightarrow> (\<exists>k fin code p. bs = take k (enc_frame fin code p) \<and> k < length (enc_frame fin code p) \<and>
     length p \<noteq> 125 \<and> length p < 2 ^ 63)"

definition front_frame :: "bytes \<Rightarrow> bytes option \<Rightarrow> bytes \<Rightarrow> bool" where
  "front_frame bs r later \<longleftrightarrow> partial_frame bs \<and> r = None \<and> later = bs \<or>
     (\<exists>fin code p. bs = enc_frame fin code p @ later \<and> length p \<noteq> 125 \<and> unat (code AND 0x0F) \<le> 10 \<and>
        r = (if data_code code then Some p else None))"

lemma partial_frame_Nil: "partial_frame []"
  unfolding partial_frame_def by (rule exI [of _ 0], rule exI [of _ True], rule exI [of _ 1], rule exI [of _ "[]"]) (simp add: enc_frame_def Let_def)

lemma front_frame_Nil: "front_frame [] None []"
  by (simp add: front_frame_def partial_frame_Nil)

lemma wp_deliver_any: "(\<And>st r. Q r (s\<lparr>wss_stream := st\<rparr>)) \<Longrightarrow> (\<And>st e. E e (s\<lparr>wss_stream := st\<rparr>)) \<Longrightarrow> wp deliver_frame Q E s"
  by (auto simp: deliver_frame_def wp_assign_or_return wp_on_wss_stream wp_ret wp_def [of extract_payload] split: prod.splits sum.splits option.splits)

lemma wp_deliver_front:
  assumes "arrived s bs" and "front_frame bs r later"
    and "\<And>st. arrived (s\<lparr>wss_stream := st\<rparr>) later \<Longrightarrow> Q r (s\<lparr>wss_stream := st\<rparr>)"
  shows "wp deliver_frame Q E s"
  using assms(2) unfolding front_frame_def
proof (elim disjE conjE exE)
  fix fin code p
  assume f: "bs = enc_frame fin code p @ later" "length p \<noteq> 125" "unat (code AND 0x0F) \<le> 10" "r = (if data_code code then Some p else None)"
  show ?thesis by (rule wp_deliver_frame [OF assms(1) [unfolded f(1)] f(2,3)]) (use assms(3) f(4) in auto)
next
  assume p: "partial_frame bs" "r = None" "later = bs"
  then have "deliver_frame s = (Inr None, s)" using assms(1) unfolding partial_frame_def by (blast intro: deliver_partial_frame)
  with assms(3) [of "wss_stream s"] assms(1) p show ?thesis by (simp add: wp_result)
qed

lemma wp_after_drain_connected:
  assumes "wss_state s = Wss_Connected"
  shows "wp (after_drain api ssl wss) Q E s = wp deliver_frame Q E s"
  using assms by (simp add: after_drain_def advance_handshake_def wp_simps)

lemma next_message_frame:
  fixes s :: "('w, 'z) wss_client_scheme"
  assumes "ssl_ok ssl wire" and "wss_state s = Wss_Connected" and "incomplete_record rest"
    and "\<forall>(seq, data) \<in> set ms. data \<noteq> [] \<and> length data < 65512"
    and "length bs + length (concat (map snd ms)) \<le> 200000"
    and "reading s key fixed (sealed_stream ssl key fixed ms @ rest) bs"
    and frame: "bs @ concat (map snd ms) = enc_frame fin code p @ later" "length p \<noteq> 125" "unat (code AND 0x0F) \<le> 10"
  shows "returns (next_message api ssl wss s)
     (\<lambda>r t. r = (if data_code code then Some p else None) \<and> reading t key fixed rest later \<and> kept_by_reading wire s t)
     (\<lambda>_ t. \<not> evp_reliable ssl \<and> kept_by_reading wire s t)"
proof (rule next_message_rule, rule returns_mono [OF drain_sealed_stream [OF assms(1,3-6)]])
  fix t :: "('w, 'z) wss_client_scheme"
  assume t: "reading t key fixed rest (bs @ concat (map snd ms)) \<and> kept_by_reading wire s t"
  then have "wss_state t = Wss_Connected" using assms(2) by (simp add: kept_by_reading_def)
  note connected = wp_after_drain_connected [OF this]
  show "wp (after_drain api ssl wss) (\<lambda>r t. r = (if data_code code then Some p else None) \<and> reading t key fixed rest later \<and>
      kept_by_reading wire s t) (\<lambda>_ t. \<not> evp_reliable ssl \<and> kept_by_reading wire s t) t"
    unfolding connected by (rule wp_deliver_frame [OF _ frame(2,3)]) (use t frame(1) in \<open>auto simp: reading_def pending_def\<close>)
qed simp

lemma next_message_waits:
  fixes s :: "('w, 'z) wss_client_scheme"
  assumes "wss_state s = Wss_Connected" and "incomplete_record rest" and "reading s key fixed rest bs"
    and "bs = take k (enc_frame fin code p)" and "k < length (enc_frame fin code p)" and "length p \<noteq> 125" and "length p < 2 ^ 63"
  shows "next_message api ssl wss s = Some (Inr None, s)"
proof -
  have "Tls_receive api ssl s = Some (Inr None, s)"
    using assms(3) by (intro receive_incomplete [OF _ assms(2)]) (auto simp: reading_def)
  then have "drain_tls api ssl s = Some (Inr (), s)" by (subst drain_tls.simps) simp
  moreover have "wp (after_drain api ssl wss) (\<lambda>r t. r = None \<and> t = s) (\<lambda>_ _. False) s"
    using assms(1) deliver_partial_frame [of s k fin code p] assms(3-7)
    by (simp add: wp_after_drain_connected wp_result reading_def)
  ultimately show ?thesis by (auto simp: next_message_def wp_def split: prod.splits sum.splits)
qed

text \<open>The acceptance of the response: where the two patterns occur, in any order, the bytes through the first
  end of a header block are dropped.\<close>

definition first_at :: "bytes \<Rightarrow> bytes \<Rightarrow> nat \<Rightarrow> bool" where
  "first_at pat bs n \<longleftrightarrow> take (length pat) (drop n bs) = pat \<and> (\<forall>j<n. take (length pat) (drop j bs) \<noteq> pat)"

definition occurs :: "bytes \<Rightarrow> bytes \<Rightarrow> bool" where
  "occurs pat bs \<longleftrightarrow> (\<exists>n. take (length pat) (drop n bs) = pat)"

lemma search_first_at:
  assumes "pat \<noteq> []" and "first_at pat (Stream_contents st) n"
  shows "Stream_search pat st = Some n"
  using search_result [OF assms(1), of st] assms(2)
  by (auto simp: first_at_def split: option.splits) (metis linorder_neqE_nat)

lemma search_occurs: "pat \<noteq> [] \<Longrightarrow> Stream_search pat st \<noteq> None \<longleftrightarrow> occurs pat (Stream_contents st)"
  using search_result [of pat st] by (auto simp: occurs_def split: option.splits)

lemma response_patterns [simp]: "response_prefix \<noteq> []" "response_suffix \<noteq> []" "length response_suffix = 4" "length response_prefix = 12"
  by (simp_all add: response_prefix_def response_suffix_def crlf_def string_bytes_def)

lemma first_at_length: "first_at pat bs n \<Longrightarrow> pat \<noteq> [] \<Longrightarrow> n + length pat \<le> length bs"
proof -
  assume f: "first_at pat bs n" "pat \<noteq> []"
  then have "length (take (length pat) (drop n bs)) = length pat" by (simp add: first_at_def)
  moreover have "0 < length pat" using f(2) by simp
  ultimately show ?thesis unfolding length_take length_drop by linarith
qed

lemma wp_accept_handshake:
  assumes "wss_state s = HttpHandshake" and "arrived s bs"
    and yes: "\<And>n st. occurs response_prefix bs \<Longrightarrow> first_at response_suffix bs n \<Longrightarrow>
      arrived (s\<lparr>wss_stream := st\<rparr>) (drop (n + 4) bs) \<Longrightarrow> Q True (s\<lparr>wss_stream := st\<rparr>)"
    and no: "\<not> occurs response_prefix bs \<or> \<not> occurs response_suffix bs \<Longrightarrow> Q False s"
  shows "wp accept_handshake Q E s"
proof -
  have a: "Stream_inv (wss_stream s)" "Stream_contents (wss_stream s) = bs" "Stream_capacity (wss_stream s) = 200000"
    using assms(2) by (auto simp: arrived_def)
  have len: "Stream_size (wss_stream s) = length bs" using a length_Stream_contents [OF a(1)] by simp
  show ?thesis
  proof (cases "occurs response_prefix bs \<and> occurs response_suffix bs")
    case True
    then obtain i n where i: "Stream_search response_prefix (wss_stream s) = Some i"
      "Stream_search response_suffix (wss_stream s) = Some n"
      using search_occurs [of response_prefix "wss_stream s"] search_occurs [of response_suffix "wss_stream s"] a by auto
    have f: "first_at response_suffix bs n"
      using search_result [of response_suffix "wss_stream s"] i(2) a by (simp add: first_at_def)
    have "wp (on_wss_stream (Stream_pop (n + 4))) (\<lambda>p. wp (thenM (opt_value p) (ret True)) Q E) E s"
      unfolding wp_on_wss_stream using first_at_length [OF f] True f a
      by (intro fifo.pop_wp) (auto simp: wp_simps arrived_def intro!: yes)
    then show ?thesis
      using assms(1) by (simp add: accept_handshake_def wp_simps wp_on_wss_stream wp_peek_contents [OF a(1)] len a(2) i)
  next
    case False
    then have "Stream_search response_prefix (wss_stream s) = None \<or> Stream_search response_suffix (wss_stream s) = None"
      using search_occurs [of response_prefix "wss_stream s"] search_occurs [of response_suffix "wss_stream s"] a by auto
    then show ?thesis
      using assms(1) no False by (auto simp: accept_handshake_def wp_simps wp_on_wss_stream wp_peek_contents [OF a(1)] len a(2))
  qed
qed

text \<open>The random source of the key puts nothing on the wire.\<close>

definition wss_ok :: "'w wss_api \<Rightarrow> ('w \<Rightarrow> mbuf list) \<Rightarrow> bool" where
  "wss_ok wss wire \<longleftrightarrow> (\<forall>w. wire (snd (random_16 wss w)) = wire w)"

definition sec_key :: "'w wss_api \<Rightarrow> 'w \<Rightarrow> bytes" where
  "sec_key wss w = takeWhile (\<lambda>b. b \<noteq> 0) (take 25 (EVP_EncodeBlock wss (fst (random_16 wss w)) @ replicate 25 0))"

lemma length_sec_key: "length (sec_key wss w) \<le> 25"
  unfolding sec_key_def by (rule order_trans [OF length_takeWhile_le]) simp

lemma length_upgrade_request: "length (upgrade_request path host key) = 126 + length path + length host + length key"
  by (simp add: upgrade_request_def string_bytes_def crlf_def)

lemma Stream_push_string_fits:
  assumes "Stream_inv st" and "length bs \<le> available_suffix_bytes st"
  shows "wp (Stream_push_string bs) (\<lambda>_ t. Stream_inv t \<and> Stream_contents t = Stream_contents st @ bs) (\<lambda>_ _. False) st"
proof -
  have fits: "s_write st + length bs \<le> length (buffer st)" using assms by (auto simp: Stream_inv_def available_suffix_bytes_def)
  have "Stream_push_string bs st = Stream_push_bytes bs st"
    using assms(2) fits by (simp add: Stream_push_string_def Stream_push_bytes_def prog_defs)
  with Stream_push_fits [OF assms] show ?thesis by (auto simp: wp_def split: prod.splits sum.splits)
qed

text \<open>What the upgrade request leaves behind: one segment with the request in a sealed record.\<close>

definition upgrade_sent ::
    "'w dpdk_api \<Rightarrow> 'w ssl_api \<Rightarrow> 'w wss_api \<Rightarrow> ('w \<Rightarrow> mbuf list) \<Rightarrow> bytes \<Rightarrow> ('w, 'z) wss_client_scheme \<Rightarrow>
       ('w, 'z) wss_client_scheme \<Rightarrow> bool" where
  "upgrade_sent api ssl wss wire key s t \<longleftrightarrow> (\<exists>m. wire (world t) = wire (world s) @ [m] \<and>
     client_frame api s Flags_PSH_ACK False (sealed_record ssl key (client_write_iv s) (write_sequence_number s)
       ContentType_ApplicationData (upgrade_request (ws_path s) (ws_host s) (sec_key wss (world s)))) m) \<and>
     write_sequence_number t = write_sequence_number s + 1 \<and> hs_state t = hs_state s \<and> tls_stream t = tls_stream s"

definition upgrade_record :: "'w ssl_api \<Rightarrow> 'w wss_api \<Rightarrow> bytes \<Rightarrow> ('w, 'z) wss_client_scheme \<Rightarrow> bytes" where
  "upgrade_record ssl wss key s = sealed_record ssl key (client_write_iv s) (write_sequence_number s)
     ContentType_ApplicationData (upgrade_request (ws_path s) (ws_host s) (sec_key wss (world s)))"

definition kept_by_flush :: "bytes \<Rightarrow> ('w, 'z) wss_client_scheme \<Rightarrow> ('w, 'z) wss_client_scheme \<Rightarrow> bool" where
  "kept_by_flush p s t \<longleftrightarrow> tls_client.more t = tls_client.more s \<and> burst t = burst s \<and> dec_ctx t = dec_ctx s \<and>
     iv_server_write_iv t = iv_server_write_iv s \<and> length p \<le> 1994 \<and> same_segment_state t (after_send (length p) s)"

lemma wp_generate_upgrade_request:
  fixes s :: "('w, 'z) wss_client_scheme"
  assumes dpdk: "dpdk_ok api wire" and ssl: "ssl_ok ssl wire" and wss: "wss_ok wss wire" and ctx: "enc_ctx s = Some c"
    and buf: "Stream_inv (tls_send_buffer s)" "Stream_contents (tls_send_buffer s) = []" "1965 \<le> available_suffix_bytes (tls_send_buffer s)"
    and len: "length (ws_path s) + length (ws_host s) \<le> 1814" and st: "wss_state s = Init"
  shows "wp (generate_upgrade_request api ssl wss)
     (\<lambda>_ t. upgrade_sent api ssl wss wire (ec_key c) s t \<and> kept_by_flush (upgrade_record ssl wss (ec_key c) s) s t)
     (\<lambda>_ t. wire (world t) = wire (world s) \<and> (room s 1994 \<longrightarrow> dpdk_reliable api \<longrightarrow> \<not> ssl_reliable ssl)) s"
proof -
  let ?key = "sec_key wss (world s)" and ?w = "snd (random_16 wss (world s))"
  let ?req = "upgrade_request (ws_path s) (ws_host s) ?key"
  have n: "length ?req \<le> 1965" using len length_sec_key [of wss "world s"] by (simp add: length_upgrade_request)
  have w: "wire ?w = wire (world s)" using wss by (simp add: wss_ok_def)
  have flush: "wp (Tls_flush api ssl) (\<lambda>_ t. upgrade_sent api ssl wss wire (ec_key c) s t \<and> kept_by_flush (upgrade_record ssl wss (ec_key c) s) s t)
     (\<lambda>_ t. wire (world t) = wire (world s) \<and> (room s 1994 \<longrightarrow> dpdk_reliable api \<longrightarrow> \<not> ssl_reliable ssl))
     (s\<lparr>world := ?w, tls_send_buffer := b\<rparr>)" (is "wp _ ?Q ?E ?s")
    if b: "Stream_inv b" "Stream_contents b = ?req" for b
  proof -
    have f: "client_frame api ?s = client_frame api s" by (rule client_frame_cong) simp_all
    have a: "same_segment_state t (after_send k ?s) \<Longrightarrow> same_segment_state t (after_send k s)" for t :: "('w, 'z) wss_client_scheme" and k
      by (simp add: same_segment_state_def after_send_def)
    have "enc_ctx ?s = Some c" "Stream_inv (tls_send_buffer ?s)" "length (Stream_contents (tls_send_buffer ?s)) \<le> 1965"
      using ctx b n by simp_all
    note sent = wp_flush [OF dpdk ssl this]
    show ?thesis
      by (rule wp_mono [OF wp_and_keeps [OF wp_and_keeps [OF wp_and_keeps [OF sent wss_part.keeps_flush] burst_part.keeps_flush] flush_part.keeps_flush]])
         (use b in \<open>auto simp: f w flushed_def upgrade_sent_def upgrade_record_def kept_by_flush_def burst_def room_def intro: a\<close>)
  qed
  have push: "wp (Stream_push_string ?req) (\<lambda>_ b. Stream_inv b \<and> Stream_contents b = ?req) (\<lambda>_ _. False) (tls_send_buffer s)"
    using Stream_push_string_fits [OF buf(1), of ?req] buf n by simp
  show ?thesis
    unfolding generate_upgrade_request_def gen_sec_webSocket_key_def
    by (simp add: wp_simps st on_send_buffer_def del: take_append take_replicate flip: sec_key_def)
       (rule wp_mono [OF push], auto intro!: flush)
qed

lemma wp_after_drain_upgrade:
  fixes s :: "('w, 'z) wss_client_scheme"
  assumes ok: "dpdk_ok api wire" "ssl_ok ssl wire" "wss_ok wss wire" and ctx: "enc_ctx s = Some c"
    and buf: "Stream_inv (tls_send_buffer s)" "Stream_contents (tls_send_buffer s) = []" "1965 \<le> available_suffix_bytes (tls_send_buffer s)"
    and len: "length (ws_path s) + length (ws_host s) \<le> 1814" and st: "wss_state s = Init" and complete: "is_handshake_complete s"
    and a: "arrived s []"
  shows "wp (after_drain api ssl wss) (\<lambda>r t. r = None \<and> wss_state t = HttpHandshake \<and> arrived t [] \<and>
       upgrade_sent api ssl wss wire (ec_key c) s t \<and> kept_by_flush (upgrade_record ssl wss (ec_key c) s) s (t\<lparr>wss_state := Init\<rparr>))
     (\<lambda>_ t. wire (world t) = wire (world s) \<and> (room s 1994 \<longrightarrow> dpdk_reliable api \<longrightarrow> \<not> ssl_reliable ssl)) s" (is "wp _ ?Q ?E s")
proof -
  have "wp deliver_frame ?Q ?E (t\<lparr>wss_state := HttpHandshake\<rparr>)"
    if t: "upgrade_sent api ssl wss wire (ec_key c) s t \<and> kept_by_flush (upgrade_record ssl wss (ec_key c) s) s t" for t
  proof -
    have more: "wss_stream t = wss_stream s" "wss_state t = Init" using t same_wss_part [of t s] st by (auto simp: kept_by_flush_def)
    then have e: "arrived (t\<lparr>wss_state := HttpHandshake\<rparr>) []" using a by (simp add: arrived_def)
    moreover have "t\<lparr>wss_state := Init\<rparr> = t" using more(2) by (cases t) simp
    moreover have "upgrade_sent api ssl wss wire (ec_key c) s (t\<lparr>wss_state := HttpHandshake\<rparr>)" using t by (auto simp: upgrade_sent_def)
    ultimately show ?thesis
      using deliver_partial_frame [of "t\<lparr>wss_state := HttpHandshake\<rparr>" 0 True 1 "[]"] t by (simp add: wp_result enc_frame_def Let_def)
  qed
  then show ?thesis
    unfolding after_drain_def advance_handshake_def
    by (simp add: wp_simps complete st)
       (rule wp_mono [OF wp_generate_upgrade_request [OF ok ctx buf len st]], auto)
qed

lemma first_at_unique: "first_at pat bs n \<Longrightarrow> first_at pat bs m \<Longrightarrow> n = m"
  by (metis first_at_def linorder_neqE_nat)

lemma wp_after_drain_response:
  assumes st: "wss_state s = HttpHandshake" and r: "reading s key fixed rest bs"
    and yes: "\<And>n st. occurs response_prefix bs \<Longrightarrow> first_at response_suffix bs n \<Longrightarrow>
      reading (s\<lparr>wss_stream := st, wss_state := Wss_Connected\<rparr>) key fixed rest (drop (n + 4) bs) \<Longrightarrow>
      wp deliver_frame Q E (s\<lparr>wss_stream := st, wss_state := Wss_Connected\<rparr>)"
    and no: "\<not> occurs response_prefix bs \<or> \<not> occurs response_suffix bs \<Longrightarrow> Q None s"
  shows "wp (after_drain api ssl wss) Q E s"
proof -
  have a: "arrived s bs" "is_handshake_complete s" using r by (auto simp: reading_def is_handshake_complete_def)
  have "reading (s\<lparr>wss_stream := st, wss_state := Wss_Connected\<rparr>) key fixed rest b" if "arrived (s\<lparr>wss_stream := st\<rparr>) b" for st b
    using that r by (auto simp: reading_def arrived_def pending_def)
  then show ?thesis
    unfolding after_drain_def advance_handshake_def
    by (simp add: wp_simps a(2) st) (rule wp_accept_handshake [OF st a(1)], auto simp: wp_simps intro: yes no)
qed

section \<open>A concrete client, for the witnesses\<close>

definition demo_wss :: "wss_state \<Rightarrow> bytes \<Rightarrow> bytes \<Rightarrow> loop_world wss_client" where
  "demo_wss st records bs = tls_client.extend (demo_tls ServerFinished records [])
     (wss_client.fields \<lparr>buffer = bs @ replicate (200000 - length bs) 0, s_read = 0, s_write = length bs\<rparr> st
       (string_bytes ''example.org'') (string_bytes ''/ws''))"

definition demo_wss_api :: "loop_world wss_api" where
  "demo_wss_api = \<lparr>random_16 = (\<lambda>w. (replicate 16 1, w)), EVP_EncodeBlock = (\<lambda>_. replicate 24 65)\<rparr>"

lemma demo_ssl_reliable [simp]: "evp_reliable demo_ssl" "ssl_reliable demo_ssl"
  by (simp_all add: ssl_reliable_def evp_reliable_def demo_ssl_def)

lemma demo_wss_ok: "wss_ok demo_wss_api lw_wire"
  by (simp add: wss_ok_def demo_wss_api_def)

lemma demo_wss_fields [simp]:
  "wss_state (demo_wss st r bs) = st" "hs_state (demo_wss st r bs) = ServerFinished"
  "dec_ctx (demo_wss st r bs) = Some \<lparr>ec_key = replicate 16 2, ec_iv = [], ec_aad = [], ec_in = []\<rparr>"
  "enc_ctx (demo_wss st r bs) = Some \<lparr>ec_key = replicate 16 1, ec_iv = [], ec_aad = [], ec_in = []\<rparr>"
  "iv_server_write_iv (demo_wss st r bs) = replicate 4 0" "pending (demo_wss st r bs) rs = (rs = r)"
  "tls_send_buffer (demo_wss st r bs) = stream_of []" "lw_wire (world (demo_wss st r bs)) = []"
  "length (ws_path (demo_wss st r bs)) = 3" "length (ws_host (demo_wss st r bs)) = 11"
  by (auto simp: demo_wss_def tls_client.defs wss_client.defs demo_tls_def Tls_new_def demo_client_def Client_new_def
      tcp_client.defs device.defs loop_device_def pending_def string_bytes_def)

lemma stream_of_room [simp]: "available_suffix_bytes (stream_of bs) = 20600"
  by (simp add: available_suffix_bytes_def stream_of_def)

lemma demo_wss_arrived: "length bs \<le> 200000 \<Longrightarrow> arrived (demo_wss st r bs) bs"
  by (simp add: demo_wss_def tls_client.defs wss_client.defs arrived_def Stream_inv_def Stream_contents_def Stream_size_def
      Stream_capacity_def chunk_def)

lemma demo_wss_reading: "length bs \<le> 200000 \<Longrightarrow> reading (demo_wss st r bs) (replicate 16 2) (replicate 4 0) r bs"
  by (simp add: reading_def demo_wss_arrived)

section \<open>Properties\<close>

text \<open>
  A web socket message survives the way through the TLS records. Whatever records the server sealed, with the
  message cut at any place, when the bytes of all of them start with a complete unmasked frame, one call returns
  exactly the payload of a text or binary frame and nothing for a control frame; the bytes behind the frame stay in
  the stream, the incomplete record behind the records stays with the TLS client, and nothing is sent. Only a
  failing call of the library throws.
\<close>

lemma next_message_delivers:
  fixes s :: "('w, 'z) wss_client_scheme"
  assumes "ssl_ok ssl wire" and "wss_state s = Wss_Connected" and "incomplete_record rest"
    and "\<forall>(seq, data) \<in> set ms. data \<noteq> [] \<and> length data < 65512"
    and "length bs + length (concat (map snd ms)) \<le> 200000"
    and "reading s key fixed (sealed_stream ssl key fixed ms @ rest) bs"
    and "bs @ concat (map snd ms) = enc_frame fin code p @ later" and "length p \<noteq> 125" and "unat (code AND 0x0F) \<le> 10"
  shows "returns (next_message api ssl wss s)
     (\<lambda>r t. r = (if data_code code then Some p else None) \<and> reading t key fixed rest later \<and> kept_by_reading wire s t)
     (\<lambda>_ t. \<not> evp_reliable ssl \<and> kept_by_reading wire s t)"
  using assms by (rule next_message_frame)

lemma next_message_delivers_witness:
  "returns (next_message loop_api demo_ssl demo_wss_api (demo_wss Wss_Connected
       (sealed_stream demo_ssl (replicate 16 2) (replicate 4 0) [(0, [0x81]), (1, [2, 104]), (2, [105, 0x89])] @ [23]) []))
     (\<lambda>r t. r = Some [104, 105] \<and> reading t (replicate 16 2) (replicate 4 0) [23] [0x89]) (\<lambda>_ t. lw_wire (world t) = [])"
  by (rule returns_mono [OF next_message_delivers [OF demo_ssl_ok, where bs = "[]" and rest = "[23]" and fin = True and code = 1
        and p = "[104, 105]" and later = "[0x89]" and ms = "[(0, [0x81]), (1, [2, 104]), (2, [105, 0x89])]"]])
     (auto simp: incomplete_record_def demo_wss_reading enc_frame_def Let_def data_code_def OpCode_Text_def kept_by_reading_def)

text \<open>
  C13: when the TLS handshake is complete and no application data has arrived, the first call sends the upgrade
  request for the configured host and path, with a fresh key, in one sealed record in one segment, and waits for
  the response; if anything throws, nothing is sent.
\<close>

theorem next_message_sends_upgrade:
  fixes s :: "('w, 'z) wss_client_scheme"
  assumes "dpdk_ok api wire" and "ssl_ok ssl wire" and "wss_ok wss wire" and "wss_state s = Init" and "enc_ctx s = Some c"
    and "incomplete_record rest" and "reading s key fixed rest []"
    and "Stream_inv (tls_send_buffer s)" and "Stream_contents (tls_send_buffer s) = []"
    and "1965 \<le> available_suffix_bytes (tls_send_buffer s)" and "length (ws_path s) + length (ws_host s) \<le> 1814"
  shows "returns (next_message api ssl wss s)
     (\<lambda>r t. r = None \<and> wss_state t = HttpHandshake \<and> upgrade_sent api ssl wss wire (ec_key c) s t \<and> pending t rest \<and> arrived t [])
     (\<lambda>_ t. wire (world t) = wire (world s))"
proof (rule next_message_rule, rule drain_rule)
  have r: "Tls_receive api ssl s = Some (Inr None, s)"
    using assms(7) by (intro receive_incomplete [OF _ assms(6)]) (auto simp: reading_def)
  have a: "arrived s []" "pending s rest" "is_handshake_complete s" using assms(7) by (auto simp: reading_def is_handshake_complete_def)
  have "wp (after_drain api ssl wss)
     (\<lambda>r t. r = None \<and> wss_state t = HttpHandshake \<and> upgrade_sent api ssl wss wire (ec_key c) s t \<and> pending t rest \<and> arrived t [])
     (\<lambda>_ t. wire (world t) = wire (world s)) s"
    by (rule wp_mono [OF wp_after_drain_upgrade [OF assms(1-3,5,8-11,4) a(3,1)]]) (use a(2) in \<open>auto simp: upgrade_sent_def pending_def\<close>)
  then show "returns (Tls_receive api ssl s) (\<lambda>r t. case r of None \<Rightarrow> wp (after_drain api ssl wss)
      (\<lambda>r t. r = None \<and> wss_state t = HttpHandshake \<and> upgrade_sent api ssl wss wire (ec_key c) s t \<and> pending t rest \<and> arrived t [])
      (\<lambda>_ t. wire (world t) = wire (world s)) t | Some bs \<Rightarrow> A bs t) (\<lambda>_ t. wire (world t) = wire (world s))" for A
    by (simp add: r returns_def)
qed

theorem next_message_sends_upgrade_witness:
  "returns (next_message loop_api demo_ssl demo_wss_api (demo_wss Init [] []))
     (\<lambda>r t. r = None \<and> wss_state t = HttpHandshake \<and> (\<exists>m. lw_wire (world t) = [m])) (\<lambda>_ t. lw_wire (world t) = [])"
  by (rule returns_mono [OF next_message_sends_upgrade [OF loop_api_ok demo_ssl_ok demo_wss_ok, where rest = "[]"
        and key = "replicate 16 2" and fixed = "replicate 4 0"]])
     (auto simp: incomplete_record_def demo_wss_reading upgrade_sent_def)

text \<open>
  C14: the response of the server is accepted exactly when both its status line and the end of a header block have
  arrived, in whatever records, and whether or not anything follows it: the client is then connected and has dropped
  everything through the end of that header block. The same call looks at what follows: nothing, or a part of a frame,
  stays in the stream and nothing is returned; a frame the client can read is taken off it, and its payload returned if
  it carries data. Until then the call returns nothing and keeps everything that arrived. The call sends nothing, and
  throws only when the library fails, or after the acceptance when what follows is no frame the client can read.
\<close>

theorem next_message_accepts_response:
  fixes s :: "('w, 'z) wss_client_scheme"
  assumes "ssl_ok ssl wire" and "wss_state s = HttpHandshake" and "incomplete_record rest"
    and "\<forall>(seq, data) \<in> set ms. data \<noteq> [] \<and> length data < 65512"
    and "length bs + length (concat (map snd ms)) \<le> 200000"
    and "reading s key fixed (sealed_stream ssl key fixed ms @ rest) bs"
    and "answer = bs @ concat (map snd ms)"
  shows "returns (next_message api ssl wss s)
     (\<lambda>r t. wire (world t) = wire (world s) \<and>
        (if occurs response_prefix answer \<and> occurs response_suffix answer
         then wss_state t = Wss_Connected \<and> (\<exists>n. first_at response_suffix answer n \<and>
           (\<forall>r' later. front_frame (drop (n + 4) answer) r' later \<longrightarrow> r = r' \<and> reading t key fixed rest later))
         else r = None \<and> wss_state t = HttpHandshake \<and> reading t key fixed rest answer))
     (\<lambda>_ t. wire (world t) = wire (world s) \<and> (\<not> evp_reliable ssl \<or>
        occurs response_prefix answer \<and> wss_state t = Wss_Connected \<and>
        (\<exists>n. first_at response_suffix answer n \<and> (\<forall>r' later. \<not> front_frame (drop (n + 4) answer) r' later))))" (is "returns _ ?Q ?E")
proof (rule next_message_rule, rule returns_mono [OF drain_sealed_stream [OF assms(1,3-6)]], goal_cases)
  case (1 u t)
  then have t: "reading t key fixed rest answer" "wss_state t = HttpHandshake" "wire (world t) = wire (world s)"
    using assms(2,7) by (auto simp: kept_by_reading_def)
  show ?case
  proof (rule wp_after_drain_response [OF t(2,1)])
    fix n st
    let ?t = "t\<lparr>wss_stream := st, wss_state := Wss_Connected\<rparr>" and ?b = "drop (n + 4) answer"
    assume n: "occurs response_prefix answer" "first_at response_suffix answer n" "reading ?t key fixed rest ?b"
    then have o: "occurs response_suffix answer" by (auto simp: first_at_def occurs_def)
    have a: "arrived ?t ?b" using n(3) by (simp only: reading_def)
    have one: "wp deliver_frame (\<lambda>r x. r = r' \<and> reading x key fixed rest later) (\<lambda>_ _. False) ?t" if "front_frame ?b r' later" for r' later
      by (rule wp_deliver_front [OF a that]) (use n(3) in \<open>auto simp: reading_def arrived_def pending_def\<close>)
    have all: "wp deliver_frame (\<lambda>r x. \<forall>r' later. front_frame ?b r' later \<longrightarrow> r = r' \<and> reading x key fixed rest later)
        (\<lambda>_ _. \<forall>r' later. \<not> front_frame ?b r' later) ?t"
      using one by (auto simp: wp_def split: prod.splits sum.splits)
    have any: "wp deliver_frame (\<lambda>_ x. wss_state x = Wss_Connected \<and> wire (world x) = wire (world s))
        (\<lambda>_ x. wss_state x = Wss_Connected \<and> wire (world x) = wire (world s)) ?t"
      by (rule wp_deliver_any) (simp_all add: t(3))
    show "wp deliver_frame ?Q ?E ?t"
      using all any n(1,2) o by (auto simp: wp_def split: prod.splits sum.splits)
  qed (use t in auto)
qed (simp add: kept_by_reading_def)

theorem next_message_accepts_response_witness:
  "returns (next_message loop_api demo_ssl demo_wss_api (demo_wss HttpHandshake
       (sealed_stream demo_ssl (replicate 16 2) (replicate 4 0) [(0, response_prefix), (1, response_suffix)]) []))
     (\<lambda>r t. r = None \<and> wss_state t = Wss_Connected \<and> reading t (replicate 16 2) (replicate 4 0) [] []) (\<lambda>_ _. False)"
proof -
  let ?answer = "response_prefix @ response_suffix"
  have f: "first_at response_suffix ?answer 12" by code_simp
  have "take (length response_prefix) (drop 0 ?answer) = response_prefix" by simp
  then have o1: "occurs response_prefix ?answer" unfolding occurs_def by (rule exI)
  have o: "occurs response_suffix ?answer" using f unfolding first_at_def occurs_def by blast
  have n: "front_frame (drop (n + 4) ?answer) None []" if "first_at response_suffix ?answer n" for n
    using first_at_unique [OF f that] front_frame_Nil by (auto simp del: drop_append)
  show ?thesis
    by (rule returns_mono [OF next_message_accepts_response [OF demo_ssl_ok, where bs = "[]" and rest = "[]" and answer = ?answer
          and ms = "[(0, response_prefix), (1, response_suffix)]" and key = "replicate 16 2" and fixed = "replicate 4 0"]])
       (use n o1 o demo_wss_reading [of "[]" HttpHandshake] in \<open>auto simp: incomplete_record_def simp del: drop_append\<close>)
qed

end
