(* ===== verification/Arp.thy ===== *)
theory Arp
  imports Device
begin

text \<open>
  Address resolution, src/src/network/arp: the ARP packet (arp.h, arp.cpp) and the handler that answers
  requests for the local address and sends requests (arp_handler.cpp). The handler writes a packet into a
  buffer that already stands in the device's send queue, through the view \<open>send_raw(size)\<close> returned;
  \<open>fill_last\<close> stores what was written when the handler flushes.
\<close>

definition HardwareType_Ethernet :: u16 where "HardwareType_Ethernet = 1"
definition ProtocolType_Ipv4 :: u16 where "ProtocolType_Ipv4 = 0x0800"
definition Operation_Request :: u16 where "Operation_Request = 1"
definition Operation_Reply :: u16 where "Operation_Reply = 2"

record arp_header =
  arp_hardware_type :: "16 be"
  arp_protocol_type :: "16 be"
  arp_hardware_len :: byte
  arp_protocol_len :: byte
  arp_operation :: "16 be"
  arp_sender_mac :: mac
  arp_sender_ip :: ip
  arp_target_mac :: mac
  arp_target_ip :: ip

definition enc_arp :: "arp_header \<Rightarrow> bytes" where
  "enc_arp h = be_mem (arp_hardware_type h) @ be_mem (arp_protocol_type h) @ [arp_hardware_len h, arp_protocol_len h] @
     be_mem (arp_operation h) @ Mac_data (arp_sender_mac h) @ Ip_mem (arp_sender_ip h) @
     Mac_data (arp_target_mac h) @ Ip_mem (arp_target_ip h)"

definition dec_arp :: "bytes \<Rightarrow> arp_header" where
  "dec_arp bs = \<lparr>arp_hardware_type = mem_be (chunk 0 2 bs), arp_protocol_type = mem_be (chunk 2 2 bs),
     arp_hardware_len = bs ! 4, arp_protocol_len = bs ! 5, arp_operation = mem_be (chunk 6 2 bs),
     arp_sender_mac = mem_Mac (chunk 8 6 bs), arp_sender_ip = mem_Ip (chunk 14 4 bs),
     arp_target_mac = mem_Mac (chunk 18 6 bs), arp_target_ip = mem_Ip (chunk 24 4 bs)\<rparr>"

abbreviation sizeof_arp :: nat where "sizeof_arp \<equiv> 28"

definition Arp_header :: "packet_view \<Rightarrow> ('s, arp_header) prog" where
  "Arp_header v = bindM (load sizeof_eth sizeof_arp (v_mem v)) (\<lambda>bs. ret (dec_arp bs))"

definition Arp_init_operation :: "u16 \<Rightarrow> mac \<Rightarrow> ip \<Rightarrow> mac \<Rightarrow> ip \<Rightarrow> packet_view \<Rightarrow> ('s, packet_view) prog" where
  "Arp_init_operation operation sender_mac sender_ip target_mac target_ip v =
     bindM (Eth_init target_mac sender_mac EthernetType_Arp v) (\<lambda>v1.
     bindM (store sizeof_eth (enc_arp \<lparr>arp_hardware_type = BE HardwareType_Ethernet,
       arp_protocol_type = BE ProtocolType_Ipv4, arp_hardware_len = 6, arp_protocol_len = 4,
       arp_operation = BE operation, arp_sender_mac = sender_mac, arp_sender_ip = sender_ip,
       arp_target_mac = target_mac, arp_target_ip = target_ip\<rparr>) (v_mem v1)) (\<lambda>mem.
     ret (v1\<lparr>v_mem := mem\<rparr>)))"

definition Arp_init_request :: "mac \<Rightarrow> ip \<Rightarrow> mac \<Rightarrow> ip \<Rightarrow> packet_view \<Rightarrow> ('s, packet_view) prog" where
  "Arp_init_request = Arp_init_operation Operation_Request"

definition Arp_init_reply :: "mac \<Rightarrow> ip \<Rightarrow> mac \<Rightarrow> ip \<Rightarrow> packet_view \<Rightarrow> ('s, packet_view) prog" where
  "Arp_init_reply = Arp_init_operation Operation_Reply"

definition Arp_predict_size :: nat where
  "Arp_predict_size = Eth_predict_size sizeof_arp"

definition Arp_is_valid :: "packet_view \<Rightarrow> ('s, bool) prog" where
  "Arp_is_valid v =
     (if \<not> v_size (Eth_payload v) \<ge> sizeof_arp then ret False
      else bindM (Arp_header v) (\<lambda>h. ret (
        be_eq (arp_hardware_type h) (BE HardwareType_Ethernet) \<and> be_eq (arp_protocol_type h) (BE ProtocolType_Ipv4) \<and>
        arp_hardware_len h = 6 \<and> arp_protocol_len h = 4 \<and>
        (be_eq (arp_operation h) (BE Operation_Request) \<or> be_eq (arp_operation h) (BE Operation_Reply)))))"

section \<open>The handler\<close>

text \<open>The handler keeps the local host; the sender is the device state.\<close>

definition ArpHandler_handle_packet ::
    "'w dpdk_api \<Rightarrow> host \<Rightarrow> packet_view \<Rightarrow> (('w, 'z) device_scheme, unit) prog" where
  "ArpHandler_handle_packet api local_host raw_packet =
     bindM (Arp_is_valid raw_packet) (\<lambda>valid.
     if \<not> valid then ret () else
     bindM (Arp_header raw_packet) (\<lambda>h.
     if be_eq (arp_operation h) (BE Operation_Request) \<and> Ip_eq (arp_target_ip h) (host_ip local_host) then
       bindM (Sender_send_raw_size api Arp_predict_size) (\<lambda>reply_buffer.
       bindM (Arp_init_reply (host_mac local_host) (host_ip local_host) (arp_sender_mac h) (arp_sender_ip h) reply_buffer) (\<lambda>reply.
       thenM (modify (fill_last reply)) (Sender_flush api)))
     else ret ()))"

definition ArpHandler_send_request :: "'w dpdk_api \<Rightarrow> host \<Rightarrow> ip \<Rightarrow> (('w, 'z) device_scheme, unit) prog" where
  "ArpHandler_send_request api local_host target_ip =
     bindM (Sender_send_raw_size api Arp_predict_size) (\<lambda>request_buffer.
     let broadcast_mac = Mac ''ff:ff:ff:ff:ff:ff''; zero_mac = Mac ''00:00:00:00:00:00'' in
     bindM (Arp_init_request (host_mac local_host) (host_ip local_host) zero_mac target_ip request_buffer) (\<lambda>v1.
     bindM (Eth_header v1) (\<lambda>h.
     bindM (store 0 (enc_eth (h\<lparr>eth_dst_mac := broadcast_mac\<rparr>)) (v_mem v1)) (\<lambda>mem.
     thenM (modify (fill_last (v1\<lparr>v_mem := mem\<rparr>))) (Sender_flush api)))))"

section \<open>Specification of the frames\<close>

definition arp_hdr :: "bytes \<Rightarrow> arp_header" where
  "arp_hdr mem = dec_arp (chunk sizeof_eth sizeof_arp mem)"

text \<open>A queued packet that is an ARP frame from one address pair to another.\<close>

definition arp_frame :: "u16 \<Rightarrow> mac \<Rightarrow> mac \<Rightarrow> ip \<Rightarrow> mac \<Rightarrow> ip \<Rightarrow> mbuf \<Rightarrow> bool" where
  "arp_frame operation eth_dst sender_mac sender_ip target_mac target_ip m \<longleftrightarrow>
     42 \<le> length (m_data m) \<and> unat (m_pkt_len m) = 42 \<and>
     dec_eth (chunk 0 14 (m_data m)) = \<lparr>eth_dst_mac = eth_dst, eth_src_mac = sender_mac, eth_type = BE EthernetType_Arp\<rparr> \<and>
     arp_hdr (m_data m) = \<lparr>arp_hardware_type = BE HardwareType_Ethernet, arp_protocol_type = BE ProtocolType_Ipv4,
       arp_hardware_len = 6, arp_protocol_len = 4, arp_operation = BE operation, arp_sender_mac = sender_mac,
       arp_sender_ip = sender_ip, arp_target_mac = target_mac, arp_target_ip = target_ip\<rparr>"

text \<open>The request a valid packet makes, if it makes one.\<close>

definition arp_well_formed :: "packet_view \<Rightarrow> bool" where
  "arp_well_formed v \<longleftrightarrow> sizeof_arp \<le> v_size (Eth_payload v) \<and>
     (let h = arp_hdr (v_mem v) in arp_hardware_type h = BE HardwareType_Ethernet \<and> arp_protocol_type h = BE ProtocolType_Ipv4 \<and>
        arp_hardware_len h = 6 \<and> arp_protocol_len h = 4 \<and>
        (arp_operation h = BE Operation_Request \<or> arp_operation h = BE Operation_Reply))"

section \<open>Lemmas\<close>

interpretation arp_mem: packed_struct enc_arp dec_arp sizeof_arp
proof
  fix bs :: bytes assume "length bs = sizeof_arp"
  then show "enc_arp (dec_arp bs) = bs"
    by (simp add: enc_arp_def dec_arp_def mac_mem.enc_dec ip_mem.enc_dec)
       (auto simp: chunk_def eval_nat_numeral length_Suc_conv)
qed (simp_all add: enc_arp_def dec_arp_def chunk_def mac_mem.dec_enc ip_mem.dec_enc nth_append)

lemmas length_enc_arp [simp] = arp_mem.length_enc

lemma wp_Arp_header [wp_simps]:
  "wp (Arp_header v) Q E =
     (if 42 \<le> length (v_mem v) then Q (arp_hdr (v_mem v)) else E (Undefined_behaviour ''read past the buffer''))"
  by (simp add: Arp_header_def wp_simps arp_hdr_def)

lemma wp_Arp_is_valid [wp_simps]:
  "wp (Arp_is_valid v) Q E =
     (if sizeof_arp \<le> v_size (Eth_payload v) \<and> \<not> 42 \<le> length (v_mem v)
      then E (Undefined_behaviour ''read past the buffer'') else Q (arp_well_formed v))"
  by (simp add: Arp_is_valid_def wp_simps arp_well_formed_def Let_def)

lemma arp_hdr_stored [simp]: "42 \<le> length m \<Longrightarrow> arp_hdr (poke 14 (enc_arp h) m) = h"
  using arp_mem.read_written [of 14 m h] by (simp add: arp_hdr_def)

lemma wp_Arp_init_operation:
  assumes "42 \<le> length (v_mem v)" and "14 \<le> v_size v"
  shows "wp (Arp_init_operation op_code smac sip tmac tip v) Q E =
    Q (v\<lparr>v_mem := poke 14 (enc_arp \<lparr>arp_hardware_type = BE HardwareType_Ethernet,
       arp_protocol_type = BE ProtocolType_Ipv4, arp_hardware_len = 6, arp_protocol_len = 4,
       arp_operation = BE op_code, arp_sender_mac = smac, arp_sender_ip = sip,
       arp_target_mac = tmac, arp_target_ip = tip\<rparr>)
       (poke 0 (enc_eth \<lparr>eth_dst_mac = tmac, eth_src_mac = smac, eth_type = BE EthernetType_Arp\<rparr>) (v_mem v))\<rparr>)"
  using assms by (simp add: Arp_init_operation_def Eth_init_def wp_simps Eth_is_valid_def)

lemma Arp_predict_size_42 [simp]: "Arp_predict_size = 42"
  by (simp add: Arp_predict_size_def Eth_predict_size_def)

text \<open>A fresh buffer stands at the end of the queue, and filling it keeps the queue before it.\<close>

lemma fill_last_line:
  assumes "Device_line wire t = A @ [m]" and "send_mbufs t \<noteq> []"
  shows "Device_line wire (fill_last v t) = A @ [m\<lparr>m_data := v_mem v\<rparr>]"
proof (cases "send_mbufs t" rule: rev_cases)
  case Nil
  then show ?thesis using assms(2) by simp
next
  case (snoc ms x)
  then show ?thesis using assms(1) by (auto simp: Device_line_def fill_last_def simp flip: append_assoc)
qed

lemma wp_fill_flush:
  assumes "dpdk_ok api wire" and "Device_line wire t = A @ [m]" and "send_mbufs t \<noteq> []"
  shows "wp (thenM (modify (fill_last v)) (Sender_flush api))
     (\<lambda>_ u. Device_line wire u = A @ [m\<lparr>m_data := v_mem v\<rparr>]) (\<lambda>_ _. False) t"
  unfolding wp_thenM wp_modify Sender_flush_def
  by (rule wp_mono [OF flush_conserves [OF assms(1)]]) (simp_all add: fill_last_line [OF assms(2,3)])

lemma Mac_literals [simp]:
  "Mac ''ff:ff:ff:ff:ff:ff'' = Mac_bytes 0xFF 0xFF 0xFF 0xFF 0xFF 0xFF" "Mac ''00:00:00:00:00:00'' = Mac_default"
  by code_simp+

lemma dec_eth_arp_stored [simp]:
  "42 \<le> length m \<Longrightarrow> dec_eth (chunk 0 14 (poke 14 (enc_arp a) (poke 0 (enc_eth h) m))) = h"
  "42 \<le> length m \<Longrightarrow> dec_eth (chunk 0 14 (poke 0 (enc_eth h') (poke 14 (enc_arp a) (poke 0 (enc_eth h) m)))) = h'"
  by (simp_all add: chunk_poke_before eth_mem.dec_enc)

lemma arp_hdr_eth_stored [simp]:
  "42 \<le> length m \<Longrightarrow> arp_hdr (poke 0 (enc_eth h) m) = arp_hdr m"
  by (simp add: arp_hdr_def chunk_poke_after)

section \<open>Properties\<close>

lemma wp_answer_request:
  assumes "dpdk_ok api wire" and "arp_well_formed v" and "42 \<le> length (v_mem v)"
    and "arp_operation (arp_hdr (v_mem v)) = BE Operation_Request" and "arp_target_ip (arp_hdr (v_mem v)) = host_ip local_host"
  shows "wp (ArpHandler_handle_packet api local_host v)
     (\<lambda>_ t. \<exists>m. Device_line wire t = Device_line wire s @ [m] \<and>
        arp_frame Operation_Reply (arp_sender_mac (arp_hdr (v_mem v))) (host_mac local_host) (host_ip local_host)
          (arp_sender_mac (arp_hdr (v_mem v))) (arp_sender_ip (arp_hdr (v_mem v))) m)
     (\<lambda>_ t. Device_line wire t = Device_line wire s) s"
proof -
  have "wp (bindM (Sender_send_raw_size api Arp_predict_size) (\<lambda>b. bindM (Arp_init_reply smac sip tmac tip b) (\<lambda>r.
        thenM (modify (fill_last r)) (Sender_flush api))))
     (\<lambda>_ t. \<exists>m. Device_line wire t = Device_line wire s @ [m] \<and> arp_frame Operation_Reply tmac smac sip tmac tip m)
     (\<lambda>_ t. Device_line wire t = Device_line wire s) s" for smac sip tmac tip
    unfolding wp_bindM Sender_send_raw_size_def
    by (rule wp_mono [OF enqueue_conserves [OF assms(1)]])
       (auto simp: Arp_init_reply_def wp_Arp_init_operation arp_frame_def intro!: wp_mono [OF wp_fill_flush [OF assms(1)]])
  then show ?thesis
    using assms(2-5) by (simp add: ArpHandler_handle_packet_def wp_simps)
qed

text \<open>
  C20: a well-formed ARP request for the local address is answered with one ARP reply, queued or sent: the
  local addresses as its sender, the requester's as its target, and the requester as the Ethernet
  destination. If the buffer cannot be allocated nothing is queued.
\<close>

theorem ArpHandler_answers_request:
  assumes "dpdk_ok api wire" and "arp_well_formed v" and "42 \<le> length (v_mem v)"
    and "arp_operation (arp_hdr (v_mem v)) = BE Operation_Request" and "arp_target_ip (arp_hdr (v_mem v)) = host_ip local_host"
  shows "wp (ArpHandler_handle_packet api local_host v)
     (\<lambda>_ t. \<exists>m. Device_line wire t = Device_line wire s @ [m] \<and>
        arp_frame Operation_Reply (arp_sender_mac (arp_hdr (v_mem v))) (host_mac local_host) (host_ip local_host)
          (arp_sender_mac (arp_hdr (v_mem v))) (arp_sender_ip (arp_hdr (v_mem v))) m)
     (\<lambda>_ t. Device_line wire t = Device_line wire s) s"
  using assms by (rule wp_answer_request)

theorem ArpHandler_answers_request_witness:
  "let mem = poke 14 (enc_arp \<lparr>arp_hardware_type = BE HardwareType_Ethernet, arp_protocol_type = BE ProtocolType_Ipv4,
       arp_hardware_len = 6, arp_protocol_len = 4, arp_operation = BE Operation_Request, arp_sender_mac = Mac_bytes 1 2 3 4 5 6,
       arp_sender_ip = Ip 9, arp_target_mac = Mac_default, arp_target_ip = host_ip (sess_src demo_session)\<rparr>) (replicate 60 0)
   in wp (ArpHandler_handle_packet loop_api (sess_src demo_session) \<lparr>v_mem = mem, v_size = 60\<rparr>)
     (\<lambda>_ t. \<exists>m. lw_wire (world t) @ send_mbufs t = [m] \<and>
        arp_frame Operation_Reply (Mac_bytes 1 2 3 4 5 6) (host_mac (sess_src demo_session)) (host_ip (sess_src demo_session))
          (Mac_bytes 1 2 3 4 5 6) (Ip 9) m) (\<lambda>_ _. True) (loop_device [] 1)"
  unfolding Let_def
  by (rule wp_mono [OF ArpHandler_answers_request [OF loop_api_ok]])
     (auto simp: arp_well_formed_def Let_def Device_line_def loop_device_def)

text \<open>
  Every other packet is ignored: one that is too short, has a wrong field, is not a request, or asks for
  another address leaves the device exactly as it was.
\<close>

lemma ArpHandler_ignores_others:
  assumes "v_size v \<le> length (v_mem v)" and "v_size v < 2 ^ 64" and "14 \<le> v_size v"
    and "\<not> (arp_well_formed v \<and> arp_operation (arp_hdr (v_mem v)) = BE Operation_Request \<and>
       arp_target_ip (arp_hdr (v_mem v)) = host_ip local_host)"
  shows "ArpHandler_handle_packet api local_host v s = (Inr (), s)"
proof -
  have "sizeof_arp \<le> v_size (Eth_payload v) \<Longrightarrow> 42 \<le> length (v_mem v)" using assms(1-3) by simp
  then have "wp (ArpHandler_handle_packet api local_host v) (\<lambda>_ t. t = s) (\<lambda>_ _. False) s"
    using assms(4) by (auto simp: ArpHandler_handle_packet_def wp_simps arp_well_formed_def)
  then show ?thesis by (auto simp: wp_def split: prod.splits sum.splits)
qed

lemma ArpHandler_ignores_others_witness:
  "ArpHandler_handle_packet loop_api (sess_src demo_session) \<lparr>v_mem = replicate 60 0, v_size = 30\<rparr> (loop_device [] 1) =
     (Inr (), loop_device [] 1)"
  by (rule ArpHandler_ignores_others) (simp_all add: arp_well_formed_def)

text \<open>
  \<^verbatim>\<open>send_request\<close> queues or sends one ARP request from the local addresses for the wanted address, with a
  zero target hardware address in the ARP header and the broadcast address as the Ethernet destination.
\<close>

lemma ArpHandler_request_broadcast:
  assumes "dpdk_ok api wire"
  shows "wp (ArpHandler_send_request api local_host target)
     (\<lambda>_ t. \<exists>m. Device_line wire t = Device_line wire s @ [m] \<and>
        arp_frame Operation_Request (Mac_bytes 0xFF 0xFF 0xFF 0xFF 0xFF 0xFF) (host_mac local_host) (host_ip local_host)
          Mac_default target m)
     (\<lambda>_ t. Device_line wire t = Device_line wire s) s"
proof -
  have "wp (Device_enqueue_size api 42) (\<lambda>b. wp (bindM (Arp_init_request smac sip tmac target b) (\<lambda>v1. bindM (Eth_header v1) (\<lambda>h.
        bindM (store 0 (enc_eth (h\<lparr>eth_dst_mac := bmac\<rparr>)) (v_mem v1)) (\<lambda>mem.
        thenM (modify (fill_last (v1\<lparr>v_mem := mem\<rparr>))) (Sender_flush api)))))
     (\<lambda>_ t. \<exists>m. Device_line wire t = Device_line wire s @ [m] \<and> arp_frame Operation_Request bmac smac sip tmac target m)
     (\<lambda>_ t. Device_line wire t = Device_line wire s)) (\<lambda>_ t. Device_line wire t = Device_line wire s) s" for smac sip tmac bmac
  proof (rule wp_mono [OF enqueue_conserves [OF assms]]; clarify?)
    fix b t m assume m: "Device_line wire t = Device_line wire s @ [m]" "m_pkt_len m = of_nat 42" "length (m_data m) = 2048"
      "send_mbufs t \<noteq> []"
    show "wp (bindM (Arp_init_request smac sip tmac target \<lparr>v_mem = m_data m, v_size = 42\<rparr>) (\<lambda>v1. bindM (Eth_header v1) (\<lambda>h.
        bindM (store 0 (enc_eth (h\<lparr>eth_dst_mac := bmac\<rparr>)) (v_mem v1)) (\<lambda>mem.
        thenM (modify (fill_last (v1\<lparr>v_mem := mem\<rparr>))) (Sender_flush api)))))
     (\<lambda>_ t. \<exists>m. Device_line wire t = Device_line wire s @ [m] \<and> arp_frame Operation_Request bmac smac sip tmac target m)
     (\<lambda>_ t. Device_line wire t = Device_line wire s) t"
      using m(2,3)
      by (simp add: Arp_init_request_def wp_bindM wp_Arp_init_operation wp_Eth_header wp_store eth_hdr_def)
         (rule wp_mono [OF wp_fill_flush [OF assms m(1,4)]], auto simp: arp_frame_def eth_mem.dec_enc)
  qed simp
  then show ?thesis
    by (simp add: ArpHandler_send_request_def wp_bindM Sender_send_raw_size_def Let_def)
qed

lemma ArpHandler_request_broadcast_witness:
  "wp (ArpHandler_send_request loop_api (sess_src demo_session) (Ip 9))
     (\<lambda>_ t. \<exists>m. lw_wire (world t) @ send_mbufs t = [m] \<and> unat (m_pkt_len m) = 42) (\<lambda>_ _. True) (loop_device [] 1)"
  by (rule wp_mono [OF ArpHandler_request_broadcast [OF loop_api_ok]])
     (auto simp: Device_line_def loop_device_def arp_frame_def)

end
