(* ===== verification/Dpdk_Setup.thy ===== *)
theory Dpdk_Setup
  imports Device "HOL-Library.Sublist"
begin

text \<open>
  The set-up of the worker's network access: the interface configuration of src/src/network/interface, and
  \<^verbatim>\<open>Dpdk\<close> of src/src/network/dpdk/dpdk.cpp, which starts DPDK's environment as a secondary process and opens one
  device per entry. The environment (ports, their names, \<^verbatim>\<open>rte_eal_init\<close>) is the parameter \<open>eal_api\<close>, the reader
  of configuration files is a function. The watchdog of \<^verbatim>\<open>execute_with_timeout\<close>, which
  ends the process when the set-up takes too long, has no effect on a set-up that returns and is modelled on its own,
  in Thread_Utils.
\<close>

section \<open>Interfaces\<close>

record interface_config =
  if_name :: string
  if_pci :: string
  if_driver :: string
  if_mac :: mac
  if_ip :: ip
  if_gateway_mac :: mac
  if_gateway_name :: string

definition InterfaceManager_new :: "(string \<Rightarrow> error + interface_config list) \<Rightarrow> string option \<Rightarrow> error + interface_config list" where
  "InterfaceManager_new parse_file config_path = (case config_path of
     Some path \<Rightarrow> if path = '''' then Inl (Runtime_error ''path is empty'') else parse_file path
   | None \<Rightarrow> parse_file ''/etc/idk/interfaces.yml'')"

fun get_interface :: "interface_config list \<Rightarrow> string \<Rightarrow> error + interface_config" where
  "get_interface [] name = Inl (Runtime_error ''interface not found'')"
| "get_interface (el # els) name = (if if_name el = name then Inr el else get_interface els name)"

section \<open>The environment\<close>

record eal_api =
  rte_eal_init :: "string list \<Rightarrow> int"
  rte_errno :: int
  eth_ports :: "u16 list"
  rte_eth_dev_get_name_by_port :: "u16 \<Rightarrow> string option"
  rte_eth_dev_is_valid_port :: "u16 \<Rightarrow> bool"

text \<open>The error numbers of Linux.\<close>

definition rte_eal_init_error :: "int \<Rightarrow> string" where
  "rte_eal_init_error code =
     (if code = 13 then ''Permissions issue''
      else if code = 11 then ''Bus or system resource was not available, setup may be attempted again''
      else if code = 114 then ''rte_eal_init function has already been called''
      else if code = 14 then ''Tailq configuration name was not found in memory configuration''
      else if code = 22 then ''Invalid parameters were passed as argv/argc''
      else if code = 12 then ''Out-of-memory condition''
      else if code = 19 then ''Memory setup issues''
      else if code = 95 then ''EAL cannot initialize on this system''
      else if code = 71 then ''PCI bus is either not present or not readable by the EAL''
      else if code = 8 then ''Service core failed to launch successfully''
      else ''Unknown error code: '' @ int_digits code)"

definition c_str :: "string \<Rightarrow> string" where
  "c_str = takeWhile (\<lambda>c. c \<noteq> CHR 0x00)"

text \<open>\<^verbatim>\<open>std::strstr(s, pat) != nullptr\<close>.\<close>

definition strstr :: "string \<Rightarrow> string \<Rightarrow> bool" where
  "strstr s pat \<longleftrightarrow> sublist pat s"

fun find_port :: "eal_api \<Rightarrow> string \<Rightarrow> u16 list \<Rightarrow> error + u16" where
  "find_port eal pci [] = Inl (Runtime_error ''Unable to find device with name'')"
| "find_port eal pci (port_id # ports) = (case rte_eth_dev_get_name_by_port eal port_id of
     None \<Rightarrow> find_port eal pci ports
   | Some dev_name \<Rightarrow>
       if strstr dev_name (c_str pci) then
         (if \<not> rte_eth_dev_is_valid_port eal port_id then find_port eal pci ports else Inr port_id)
       else find_port eal pci ports)"

definition dpdk_port_by_pci_addr :: "eal_api \<Rightarrow> string \<Rightarrow> error + u16" where
  "dpdk_port_by_pci_addr eal pci = find_port eal pci (eth_ports eal)"

section \<open>Dpdk\<close>

record device_info =
  di_interface_name :: string
  di_cpu_affinity :: nat
  di_queue_id :: u16

record 'w dpdk =
  dpdk_devices :: "'w device list"
  ownership_flag :: bool
  interface_manager :: "interface_config list"

definition cpu_list :: "device_info list \<Rightarrow> string" where
  "cpu_list infos = (let cpu_str = fold (\<lambda>d acc. acc @ nat_digits (di_cpu_affinity d) @ '','') infos '''' in
     if cpu_str \<noteq> '''' then butlast cpu_str else cpu_str)"

fun open_devices ::
    "'w dpdk_api \<Rightarrow> eal_api \<Rightarrow> interface_config list \<Rightarrow> 'w \<Rightarrow> device_info list \<Rightarrow> error + 'w device list" where
  "open_devices api eal interfaces w [] = Inr []"
| "open_devices api eal interfaces w (d # ds) = (case get_interface interfaces (di_interface_name d) of
     Inl e \<Rightarrow> Inl e
   | Inr interface \<Rightarrow> (case dpdk_port_by_pci_addr eal (if_pci interface) of
       Inl e \<Rightarrow> Inl e
     | Inr port_id \<Rightarrow>
         if \<not> rte_eth_dev_is_valid_port eal port_id then Inl (Runtime_error ''Device is not attached'')
         else (case Device_new api (if_pci interface) port_id (di_interface_name d) (di_queue_id d) w of
           Inl e \<Rightarrow> Inl e
         | Inr device \<Rightarrow> (case open_devices api eal interfaces w ds of
             Inl e \<Rightarrow> Inl e
           | Inr devices \<Rightarrow> Inr (device # devices)))))"

text \<open>The constructor; the state is the static flag \<^verbatim>\<open>Dpdk::initialized\<close>.\<close>

definition Dpdk_new ::
    "'w dpdk_api \<Rightarrow> eal_api \<Rightarrow> interface_config list \<Rightarrow> device_info list \<Rightarrow> 'w \<Rightarrow> (bool, 'w dpdk) prog" where
  "Dpdk_new api eal interfaces devices_info w =
     bindM (gets id) (\<lambda>initialized.
     thenM (modify (\<lambda>_. True))
     (thenM (require (\<not> initialized) ''DPDK is already initialized'')
     (thenM (require (devices_info \<noteq> []) ''No devices provided'')
     (let eal_args = [''name'', ''-l'', cpu_list devices_info, ''--proc-type=secondary''] in
      thenM (require (rte_eal_init eal eal_args = int (length eal_args) - 1)
        (''Failed to initialize EAL: '' @ rte_eal_init_error (rte_errno eal)))
      (case open_devices api eal interfaces w devices_info of
         Inl e \<Rightarrow> throw e
       | Inr devices \<Rightarrow> ret \<lparr>dpdk_devices = devices, ownership_flag = True, interface_manager = interfaces\<rparr>)))))"

fun device_by :: "('w device \<Rightarrow> bool) \<Rightarrow> 'w device list \<Rightarrow> string \<Rightarrow> error + 'w device" where
  "device_by p [] msg = Inl (Runtime_error msg)"
| "device_by p (d # ds) msg = (if p d then Inr d else device_by p ds msg)"

definition Dpdk_get_device_port :: "'w dpdk \<Rightarrow> u16 \<Rightarrow> error + 'w device" where
  "Dpdk_get_device_port dpdk port_id = device_by (\<lambda>d. dev_port_id d = port_id) (dpdk_devices dpdk) ''Unable to find device with port id''"

definition Dpdk_get_device :: "'w dpdk \<Rightarrow> string \<Rightarrow> error + 'w device" where
  "Dpdk_get_device dpdk interface_name =
     device_by (\<lambda>d. dev_interface_name d = interface_name) (dpdk_devices dpdk) ''Unable to find device''"

text \<open>The destructor: whether it cleans the environment up.\<close>

definition Dpdk_destroy :: "'w dpdk \<Rightarrow> bool" where
  "Dpdk_destroy dpdk = ownership_flag dpdk"

section \<open>Specification\<close>

text \<open>The port a lookup by PCI address stands for: the first enumerated one whose name has the address in it and
  that is valid.\<close>

definition port_matches :: "eal_api \<Rightarrow> string \<Rightarrow> u16 \<Rightarrow> bool" where
  "port_matches eal pci port \<longleftrightarrow> rte_eth_dev_is_valid_port eal port \<and>
     (case rte_eth_dev_get_name_by_port eal port of None \<Rightarrow> False | Some name \<Rightarrow> sublist (c_str pci) name)"

definition device_for ::
    "'w dpdk_api \<Rightarrow> eal_api \<Rightarrow> interface_config list \<Rightarrow> 'w \<Rightarrow> device_info \<Rightarrow> 'w device \<Rightarrow> bool" where
  "device_for api eal interfaces w info d \<longleftrightarrow> (\<exists>i port.
     find (\<lambda>i. if_name i = di_interface_name info) interfaces = Some i \<and>
     find (port_matches eal (if_pci i)) (eth_ports eal) = Some port \<and>
     Device_new api (if_pci i) port (di_interface_name info) (di_queue_id info) w = Inr d)"

section \<open>Lemmas\<close>

lemma get_interface_find:
  "get_interface els name = (case find (\<lambda>i. if_name i = name) els of
     None \<Rightarrow> Inl (Runtime_error ''interface not found'') | Some i \<Rightarrow> Inr i)"
  by (induction els) auto

lemma find_port_find:
  "find_port eal pci ports = (case find (port_matches eal pci) ports of
     None \<Rightarrow> Inl (Runtime_error ''Unable to find device with name'') | Some p \<Rightarrow> Inr p)"
  by (induction ports) (auto simp: port_matches_def strstr_def split: option.splits)

lemma device_by_cases:
  "case device_by p ds msg of Inl _ \<Rightarrow> \<forall>d \<in> set ds. \<not> p d | Inr d \<Rightarrow> d \<in> set ds \<and> p d"
  by (induction ds) (auto split: sum.splits)

lemma Device_new_fields:
  "Device_new api pci port name queue w = Inr d \<Longrightarrow>
     pci_addr d = pci \<and> dev_port_id d = port \<and> dev_interface_name d = name \<and> dev_queue_id d = queue \<and> world d = w \<and>
     send_mbufs d = [] \<and> receive_mbufs d = [] \<and> current_recieve_mbuf_idx d = 0"
  by (auto simp: Device_new_def split: if_splits option.splits)

lemma open_devices_all:
  "open_devices api eal interfaces w infos = Inr ds \<Longrightarrow> list_all2 (device_for api eal interfaces w) infos ds"
  by (induction infos arbitrary: ds)
     (auto simp: device_for_def get_interface_find dpdk_port_by_pci_addr_def find_port_find
        split: sum.splits option.splits if_splits)

lemma open_devices_complete:
  assumes "list_all2 (device_for api eal interfaces w) infos ds"
  shows "open_devices api eal interfaces w infos = Inr ds"
  using assms
proof (induction rule: list_all2_induct)
  case (Cons info infos d ds)
  then obtain i port where "find (\<lambda>i. if_name i = di_interface_name info) interfaces = Some i"
    "find (port_matches eal (if_pci i)) (eth_ports eal) = Some port"
    "Device_new api (if_pci i) port (di_interface_name info) (di_queue_id info) w = Inr d"
    by (auto simp: device_for_def)
  moreover from this have "rte_eth_dev_is_valid_port eal port"
    by (auto simp: find_Some_iff port_matches_def)
  ultimately show ?case
    using Cons by (simp add: get_interface_find dpdk_port_by_pci_addr_def find_port_find)
qed simp

lemma device_for_name: "device_for api eal interfaces w info d \<Longrightarrow> dev_interface_name d = di_interface_name info"
  by (auto simp: device_for_def dest: Device_new_fields)

lemma Dpdk_new_result:
  "Dpdk_new api eal interfaces infos w False = (r, flag) \<Longrightarrow> flag = True \<and>
     (r = Inr d \<longrightarrow> ownership_flag d \<and> interface_manager d = interfaces \<and> infos \<noteq> [] \<and>
        open_devices api eal interfaces w infos = Inr (dpdk_devices d))"
  by (auto simp: Dpdk_new_def prog_defs Let_def split: if_splits sum.splits)

text \<open>The processor list is the numbers separated by commas.\<close>

lemma cpu_fold:
  "fold (\<lambda>d acc. acc @ nat_digits (di_cpu_affinity d) @ '','') infos acc =
     acc @ concat (map (\<lambda>d. nat_digits (di_cpu_affinity d) @ '','') infos)"
  by (induction infos arbitrary: acc) auto

fun join_commas :: "string list \<Rightarrow> string" where
  "join_commas [] = ''''"
| "join_commas [x] = x"
| "join_commas (x # y # zs) = x @ '','' @ join_commas (y # zs)"

lemma butlast_concat_commas: "xs \<noteq> [] \<Longrightarrow> butlast (concat (map (\<lambda>x. x @ '','') xs)) = join_commas xs"
  by (induction xs rule: join_commas.induct) (auto simp: butlast_append)

section \<open>Properties\<close>

text \<open>
  A set-up that returns has opened one device per entry, in order: each on the first valid port whose name
  contains the PCI address of the configured interface, with the entry's queue. A device is found again by the
  name of its interface, and a name that was not asked for is refused.
\<close>

lemma Dpdk_new_opens_devices:
  assumes "Dpdk_new api eal interfaces infos w False = (Inr d, flag)"
  shows "list_all2 (device_for api eal interfaces w) infos (dpdk_devices d) \<and>
     (\<forall>name. case Dpdk_get_device d name of
        Inl _ \<Rightarrow> name \<notin> di_interface_name ` set infos
      | Inr dev \<Rightarrow> dev \<in> set (dpdk_devices d) \<and> dev_interface_name dev = name)"
proof -
  have opened: "list_all2 (device_for api eal interfaces w) infos (dpdk_devices d)"
    using Dpdk_new_result [OF assms, of d] by (intro open_devices_all) simp
  then have names: "list_all2 (\<lambda>info dev. dev_interface_name dev = di_interface_name info) infos (dpdk_devices d)"
    by (rule list_all2_mono) (rule device_for_name)
  then have "map dev_interface_name (dpdk_devices d) = map di_interface_name infos"
    by (auto simp: list_all2_conv_all_nth intro!: nth_equalityI)
  then have "di_interface_name ` set infos = dev_interface_name ` set (dpdk_devices d)"
    by (metis image_set)
  then have "case Dpdk_get_device d name of
        Inl _ \<Rightarrow> name \<notin> di_interface_name ` set infos
      | Inr dev \<Rightarrow> dev \<in> set (dpdk_devices d) \<and> dev_interface_name dev = name" for name
    using device_by_cases [where p = "\<lambda>d. dev_interface_name d = name" and ds = "dpdk_devices d" and msg = "''Unable to find device''"]
    by (auto simp: Dpdk_get_device_def split: sum.splits)
  with opened show ?thesis by blast
qed

text \<open>
  The environment is started at most once in a process. Every construction, whether it returns or throws, leaves
  the flag set, and with the flag set the next one throws; so a set-up that failed cannot be repeated, not even
  after the error whose text says it may be attempted again.
\<close>

lemma Dpdk_new_once:
  "snd (Dpdk_new api eal interfaces infos w flag) = True \<and>
   Dpdk_new api' eal' interfaces' infos' w' (snd (Dpdk_new api eal interfaces infos w flag)) =
     (Inl (Runtime_error ''DPDK is already initialized''), True)"
proof -
  have "snd (Dpdk_new api eal interfaces infos w flag) = True"
    by (auto simp: Dpdk_new_def prog_defs Let_def split: sum.splits prod.splits if_splits)
  moreover have "Dpdk_new api' eal' interfaces' infos' w' True = (Inl (Runtime_error ''DPDK is already initialized''), True)"
    by (simp add: Dpdk_new_def prog_defs)
  ultimately show ?thesis by simp
qed

text \<open>
  The processor list handed to the environment, built by appending a comma after every number and dropping the
  last one, is the list of the numbers with commas between them.
\<close>

lemma cpu_list_joins: "cpu_list infos = join_commas (map (\<lambda>d. nat_digits (di_cpu_affinity d)) infos)"
proof (cases "infos = []")
  case False
  then have "cpu_list infos = butlast (concat (map (\<lambda>x. x @ '','') (map (\<lambda>d. nat_digits (di_cpu_affinity d)) infos)))"
    by (auto simp: cpu_list_def Let_def cpu_fold comp_def)
  also have "\<dots> = join_commas (map (\<lambda>d. nat_digits (di_cpu_affinity d)) infos)"
    by (rule butlast_concat_commas) (simp add: False)
  finally show ?thesis .
qed (simp add: cpu_list_def)

definition demo_eal :: eal_api where
  "demo_eal = \<lparr>rte_eal_init = (\<lambda>args. int (length args) - 1), rte_errno = 0, eth_ports = [0, 1, 2],
     rte_eth_dev_get_name_by_port = (\<lambda>p. if p = 0 then None else Some ''0000:03:00.1''), rte_eth_dev_is_valid_port = (\<lambda>p. p \<noteq> 1)\<rparr>"

definition demo_interface :: interface_config where
  "demo_interface = \<lparr>if_name = ''eth1'', if_pci = ''03:00.1'', if_driver = '''', if_mac = Mac_default, if_ip = Ip 1,
     if_gateway_mac = Mac_default, if_gateway_name = ''default''\<rparr>"

lemma Dpdk_new_opens_devices_witness:
  "case Dpdk_new loop_api demo_eal [demo_interface]
     [\<lparr>di_interface_name = ''eth1'', di_cpu_affinity = 3, di_queue_id = 1\<rparr>] (world (loop_device [] 1)) False of
     (Inl _, _) \<Rightarrow> False
   | (Inr d, _) \<Rightarrow> map dev_port_id (dpdk_devices d) = [2] \<and> (case Dpdk_get_device d ''eth1'' of Inl _ \<Rightarrow> False | Inr dev \<Rightarrow> dev_queue_id dev = 1)"
proof -
  let ?infos = "[\<lparr>di_interface_name = ''eth1'', di_cpu_affinity = 3, di_queue_id = 1\<rparr>]"
  have p: "dpdk_port_by_pci_addr demo_eal (if_pci demo_interface) = Inr 2" by code_simp
  have "\<exists>dev. open_devices loop_api demo_eal [demo_interface] w ?infos = Inr [dev] \<and> dev_port_id dev = 2 \<and> dev_queue_id dev = 1" for w
    by (simp add: p) (simp add: demo_interface_def demo_eal_def Device_new_def loop_api_def)
  then obtain dev where dev: "open_devices loop_api demo_eal [demo_interface] (world (loop_device [] 1)) ?infos = Inr [dev]"
    "dev_port_id dev = 2" "dev_queue_id dev = 1" by blast
  then obtain d where d: "Dpdk_new loop_api demo_eal [demo_interface] ?infos (world (loop_device [] 1)) False = (Inr d, True)"
    "map dev_port_id (dpdk_devices d) = [2]" "map dev_queue_id (dpdk_devices d) = [1]"
    by (simp add: Dpdk_new_def prog_defs Let_def demo_eal_def del: open_devices.simps)
  show ?thesis
    using Dpdk_new_opens_devices [OF d(1)] d by (auto split: sum.splits)
qed

end
