(* ===== verification/Gateway.thy ===== *)
theory Gateway
  imports Wss_Client Arp Dpdk_Setup "HOL-Library.Sublist"
begin

text \<open>
  The worker of the gateway, src/src/gateway/ws_demo/service.cpp: the set-up of the connection and the loop that
  receives packets, hands ARP to the handler and TCP to the web socket client, and passes every message on.
  The state of the loop is the state of the web socket client, which contains the TLS client, the TCP client and the
  device they share with the ARP handler. What \<^verbatim>\<open>process_payload\<close> was called with is collected in a list.
\<close>

record gateway_config =
  gw_host :: bytes
  gw_path :: bytes
  gw_cpu_affinity :: nat
  gw_queue_id :: u16
  gw_interface :: string
  gw_src_port :: u16
  gw_dst_port :: u16
  gw_dst_ip :: ip

section \<open>The set-up\<close>

definition worker_connection :: "interface_config \<Rightarrow> gateway_config \<Rightarrow> connection" where
  "worker_connection interface config =
     \<lparr>conn_session = \<lparr>sess_src = \<lparr>host_mac = if_mac interface, host_ip = if_ip interface\<rparr>,
        sess_dst = \<lparr>host_mac = if_gateway_mac interface, host_ip = gw_dst_ip config\<rparr>\<rparr>,
      conn_src_port = Port (gw_src_port config), conn_dst_port = Port (gw_dst_port config)\<rparr>"

text \<open>The random sequence number and packet number of the TCP client are arguments.\<close>

definition run_worker_setup ::
    "'w dpdk_api \<Rightarrow> eal_api \<Rightarrow> 'w ssl_api \<Rightarrow> interface_config list \<Rightarrow> gateway_config \<Rightarrow> u32 \<Rightarrow> u16 \<Rightarrow> 'w \<Rightarrow> bool \<Rightarrow>
       (error + host \<times> 'w wss_client) option" where
  "run_worker_setup api eal ssl interfaces config random_seq random_ip_id w initialized =
     (case get_interface interfaces (gw_interface config) of
        Inl e \<Rightarrow> Some (Inl e)
      | Inr interface \<Rightarrow>
     (case fst (Dpdk_new api eal interfaces [\<lparr>di_interface_name = gw_interface config, di_cpu_affinity = gw_cpu_affinity config,
          di_queue_id = gw_queue_id config\<rparr>] w initialized) of
        Inl e \<Rightarrow> Some (Inl e)
      | Inr dpdk \<Rightarrow>
     (case Dpdk_get_device dpdk (gw_interface config) of
        Inl e \<Rightarrow> Some (Inl e)
      | Inr device \<Rightarrow>
     (case Device_clear_receive_queue api device of
        None \<Rightarrow> None
      | Some (Inl e, _) \<Rightarrow> Some (Inl e)
      | Some (Inr _, device') \<Rightarrow>
     (let local_host = \<lparr>host_mac = if_mac interface, host_ip = if_ip interface\<rparr>;
          tcp = Client_new (worker_connection interface config) random_seq random_ip_id device'
      in case Wss_ctor api ssl (Wss_new (gw_host config) (gw_path config) tcp) of
        (Inl e, _) \<Rightarrow> Some (Inl e)
      | (Inr _, connection) \<Rightarrow> Some (Inr (local_host, connection)))))))"

section \<open>One packet\<close>

definition process_payload :: "bytes \<Rightarrow> bytes list \<Rightarrow> bytes list" where
  "process_payload payload out = out @ [payload]"

text \<open>The branches of the loop up to the web socket client; whether the packet went to it.\<close>

definition dispatch_packet :: "'w dpdk_api \<Rightarrow> host \<Rightarrow> packet_view \<Rightarrow> (('w, 'z) wss_client_scheme, bool) prog" where
  "dispatch_packet api local_host raw =
     bindM (Eth_header raw) (\<lambda>eth.
     if be_eq (eth_type eth) (BE EthernetType_Arp) then thenM (ArpHandler_handle_packet api local_host raw) (ret False)
     else if \<not> be_eq (eth_type eth) (BE EthernetType_Ipv4) then ret False
     else bindM (IP_header raw) (\<lambda>ip.
       if ip_protocol ip \<noteq> IpProtocol_Tcp then ret False
       else thenM (Wss_process_packet api raw) (ret True)))"

partial_function (option) message_loop ::
    "'w dpdk_api \<Rightarrow> 'w ssl_api \<Rightarrow> 'w wss_api \<Rightarrow> bytes list \<Rightarrow> ('w, 'z) wss_client_scheme \<Rightarrow>
       ((error + unit) \<times> bytes list \<times> ('w, 'z) wss_client_scheme) option" where
  "message_loop api ssl wss out s = (case next_message api ssl wss s of
     None \<Rightarrow> None
   | Some (Inl e, t) \<Rightarrow> Some (Inl e, out, t)
   | Some (Inr None, t) \<Rightarrow> Some (Inr (), out, t)
   | Some (Inr (Some payload), t) \<Rightarrow> message_loop api ssl wss (process_payload payload out) t)"

text \<open>The end of the scope of the packet frees its buffer, on every way out.\<close>

definition end_scope ::
    "'w dpdk_api \<Rightarrow> mbuf \<Rightarrow> (error + unit) \<times> bytes list \<times> ('w, 'z) wss_client_scheme \<Rightarrow>
       (error + unit) \<times> bytes list \<times> ('w, 'z) wss_client_scheme" where
  "end_scope api m r = (case r of (e, out, t) \<Rightarrow> (e, out, t\<lparr>world := rte_pktmbuf_free api m (world t)\<rparr>))"

definition worker_iteration ::
    "'w dpdk_api \<Rightarrow> 'w ssl_api \<Rightarrow> 'w wss_api \<Rightarrow> host \<Rightarrow> bytes list \<Rightarrow> ('w, 'z) wss_client_scheme \<Rightarrow>
       ((error + unit) \<times> bytes list \<times> ('w, 'z) wss_client_scheme) option" where
  "worker_iteration api ssl wss local_host out s = (case Device_receive api s of
     (Inl e, t) \<Rightarrow> Some (Inl e, out, t)
   | (Inr None, t) \<Rightarrow> Some (Inr (), out, t)
   | (Inr (Some m), t) \<Rightarrow> map_option (end_scope api m) (case dispatch_packet api local_host (RxPacket_bytes m) t of
       (Inl e, u) \<Rightarrow> Some (Inl e, out, u)
     | (Inr False, u) \<Rightarrow> Some (Inr (), out, u)
     | (Inr True, u) \<Rightarrow> message_loop api ssl wss out u))"

text \<open>The loop until the flag is set, for the number of iterations that takes.\<close>

fun run_worker_loop ::
    "'w dpdk_api \<Rightarrow> 'w ssl_api \<Rightarrow> 'w wss_api \<Rightarrow> host \<Rightarrow> nat \<Rightarrow> bytes list \<Rightarrow> ('w, 'z) wss_client_scheme \<Rightarrow>
       ((error + unit) \<times> bytes list \<times> ('w, 'z) wss_client_scheme) option" where
  "run_worker_loop api ssl wss local_host 0 out s = Some (Inr (), out, s)"
| "run_worker_loop api ssl wss local_host (Suc n) out s = (case worker_iteration api ssl wss local_host out s of
     None \<Rightarrow> None
   | Some (Inl e, out', t) \<Rightarrow> Some (Inl e, out', t)
   | Some (Inr _, out', t) \<Rightarrow> run_worker_loop api ssl wss local_host n out' t)"

section \<open>What is on its way to the user\<close>

text \<open>
  The bytes the server sent and the user has not seen: those in the web socket stream, and behind them the
  contents of the complete records the TLS client holds. \<open>rest\<close> is the incomplete record at the end.
\<close>

definition incoming :: "'w ssl_api \<Rightarrow> ('w, 'z) wss_client_scheme \<Rightarrow> bytes \<Rightarrow> bytes \<Rightarrow> bytes \<Rightarrow> bytes \<Rightarrow> bool" where
  "incoming ssl s key fixed rest bytes \<longleftrightarrow> wss_state s = Wss_Connected \<and> incomplete_record rest \<and> length bytes \<le> 200000 \<and>
     (\<exists>ms bs. (\<forall>(seq, data) \<in> set ms. data \<noteq> [] \<and> length data < 65512) \<and>
        reading s key fixed (sealed_stream ssl key fixed ms @ rest) bs \<and> bytes = bs @ concat (map snd ms))"

text \<open>
  Frames as the server sends them: those the client can read, and among them those that carry messages. The loop hands
  out the messages up to the first frame of another kind; the frames behind that one stay back.
\<close>

type_synonym frame = "bool \<times> byte \<times> bytes"

definition frame_bytes :: "frame list \<Rightarrow> bytes" where
  "frame_bytes fs = concat (map (\<lambda>(fin, code, p). enc_frame fin code p) fs)"

definition payloads :: "frame list \<Rightarrow> bytes list" where
  "payloads fs = map (\<lambda>(fin, code, p). p) fs"

definition message_frame :: "frame \<Rightarrow> bool" where
  "message_frame f = (case f of (fin, code, p) \<Rightarrow> data_code code \<and> length p \<noteq> 125)"

definition readable_frame :: "frame \<Rightarrow> bool" where
  "readable_frame f = (case f of (fin, code, p) \<Rightarrow> unat (code AND 0x0F) \<le> 10 \<and> length p \<noteq> 125)"

definition handed :: "frame list \<Rightarrow> bytes list" where
  "handed fs = payloads (takeWhile message_frame fs)"

definition kept_back :: "frame list \<Rightarrow> frame list" where
  "kept_back fs = tl (dropWhile message_frame fs)"

lemma data_code_le: "data_code code \<Longrightarrow> unat (code AND 0x0F) \<le> 10"
  by (auto simp: data_code_def OpCode_Text_def OpCode_Binary_def)

lemma messages_only: "\<forall>f \<in> set fs. message_frame f \<Longrightarrow> handed fs = payloads fs \<and> kept_back fs = []"
  by (simp add: handed_def kept_back_def takeWhile_eq_all_conv [THEN iffD2] dropWhile_eq_Nil_conv [THEN iffD2])

lemma incoming_reading:
  "wss_state s = Wss_Connected \<Longrightarrow> incomplete_record rest \<Longrightarrow> length bytes \<le> 200000 \<Longrightarrow> reading s key fixed rest bytes \<Longrightarrow>
     incoming ssl s key fixed rest bytes"
  unfolding incoming_def by (intro conjI exI [of _ "[]"] exI [of _ bytes]) (auto simp: sealed_stream_def)

lemma incomingE:
  assumes "incoming ssl s key fixed rest bytes"
  obtains ms bs where "wss_state s = Wss_Connected" "incomplete_record rest" "\<forall>(seq, data) \<in> set ms. data \<noteq> [] \<and> length data < 65512"
    "reading s key fixed (sealed_stream ssl key fixed ms @ rest) bs" "bs @ concat (map snd ms) = bytes"
    "length bs + length (concat (map snd ms)) \<le> 200000" "length bytes \<le> 200000"
  using assms unfolding incoming_def by (elim conjE exE) (rule that, simp_all)

lemma next_incoming_frame:
  assumes "ssl_ok ssl wire" and "incoming ssl s key fixed rest (enc_frame fin code p @ later)" and "length p \<noteq> 125"
    and "unat (code AND 0x0F) \<le> 10"
  shows "returns (next_message api ssl wss s)
     (\<lambda>r t. r = (if data_code code then Some p else None) \<and> reading t key fixed rest later \<and> kept_by_reading wire s t)
     (\<lambda>_ t. \<not> evp_reliable ssl)"
proof -
  from assms(2) obtain ms bs where i: "wss_state s = Wss_Connected" "incomplete_record rest"
    "\<forall>(seq, data) \<in> set ms. data \<noteq> [] \<and> length data < 65512" "reading s key fixed (sealed_stream ssl key fixed ms @ rest) bs"
    "bs @ concat (map snd ms) = enc_frame fin code p @ later" "length bs + length (concat (map snd ms)) \<le> 200000"
    "length (enc_frame fin code p @ later) \<le> 200000" by (rule incomingE)
  show ?thesis
    by (rule returns_mono [OF next_message_frame [OF assms(1) i(1-3,6,4,5) assms(3,4)]])
       simp_all
qed

lemma next_incoming_partial:
  fixes s :: "('w, 'z) wss_client_scheme"
  assumes "ssl_ok ssl wire" and "incoming ssl s key fixed rest bytes" and "partial_frame bytes"
  shows "returns (next_message api ssl wss s)
     (\<lambda>r t. r = None \<and> reading t key fixed rest bytes \<and> kept_by_reading wire s t) (\<lambda>_ t. \<not> evp_reliable ssl)"
proof -
  from assms(2) obtain ms bs where i: "wss_state s = Wss_Connected" "incomplete_record rest"
    "\<forall>(seq, data) \<in> set ms. data \<noteq> [] \<and> length data < 65512" "reading s key fixed (sealed_stream ssl key fixed ms @ rest) bs"
    "bs @ concat (map snd ms) = bytes" "length bs + length (concat (map snd ms)) \<le> 200000" "length bytes \<le> 200000" by (rule incomingE)
  from assms(3) obtain k fin code p where f: "bytes = take k (enc_frame fin code p)" "k < length (enc_frame fin code p)"
    "length p \<noteq> 125" "length p < 2 ^ 63" unfolding partial_frame_def by metis
  show ?thesis
  proof (rule next_message_rule, rule returns_mono [OF drain_sealed_stream [OF assms(1) i(2,3,6,4)]])
    fix t :: "('w, 'z) wss_client_scheme"
    assume "reading t key fixed rest (bs @ concat (map snd ms)) \<and> kept_by_reading wire s t"
    then have t: "reading t key fixed rest bytes" "wss_state t = Wss_Connected" "kept_by_reading wire s t"
      using i(1,5) by (auto simp: kept_by_reading_def)
    have "deliver_frame t = (Inr None, t)"
      using deliver_partial_frame [of t k fin code p] t(1) f by (simp add: reading_def)
    then show "wp (after_drain api ssl wss) (\<lambda>r t. r = None \<and> reading t key fixed rest bytes \<and> kept_by_reading wire s t)
        (\<lambda>_ t. \<not> evp_reliable ssl) t"
      using t by (simp add: wp_after_drain_connected wp_result)
  qed simp
qed

section \<open>The message loop\<close>

lemma message_rule:
  assumes "returns (next_message api ssl wss s) (\<lambda>r t. case r of None \<Rightarrow> Q () (out, t)
     | Some p \<Rightarrow> returns (message_loop api ssl wss (process_payload p out) t) Q E) (\<lambda>e t. E e (out, t))"
  shows "returns (message_loop api ssl wss out s) Q E"
proof (cases "next_message api ssl wss s")
  case None
  with assms show ?thesis by (simp add: returns_def)
next
  case (Some rt)
  obtain r t where rt: "rt = (r, t)" by (cases rt)
  have "returns (message_loop api ssl wss out s) Q E = (case r of Inl e \<Rightarrow> E e (out, t) | Inr None \<Rightarrow> Q () (out, t)
     | Inr (Some p) \<Rightarrow> returns (message_loop api ssl wss (process_payload p out) t) Q E)"
    by (subst message_loop.simps) (simp add: Some rt returns_def [of "Some _"] split: sum.split option.split)
  with assms show ?thesis by (auto simp: returns_def [of "Some _"] Some rt split: sum.splits option.splits)
qed

lemma message_loop_frames:
  assumes ssl: "ssl_ok ssl wire" and fs: "\<forall>f \<in> set fs. message_frame f"
    and s: "incoming ssl s key fixed rest (frame_bytes fs @ tail)"
    and stop: "\<And>t. incoming ssl t key fixed rest tail \<Longrightarrow> kept_by_reading wire s t \<Longrightarrow>
      returns (message_loop api ssl wss (out @ payloads fs) t) Q E"
    and err: "\<And>e out' t. \<not> evp_reliable ssl \<Longrightarrow> prefix out' (out @ payloads fs) \<Longrightarrow> E e (out', t)"
  shows "returns (message_loop api ssl wss out s) Q E"
  using fs s stop err
proof (induction fs arbitrary: s out)
  case Nil
  then show ?case by (simp add: frame_bytes_def payloads_def kept_by_reading_refl)
next
  case (Cons f fs)
  obtain fin code p where f: "f = (fin, code, p)" by (cases f)
  have m: "data_code code" "length p \<noteq> 125" using Cons.prems(1) by (auto simp: f message_frame_def)
  have i: "incoming ssl s key fixed rest (enc_frame fin code p @ frame_bytes fs @ tail)"
    using Cons.prems(2) by (simp add: f frame_bytes_def)
  have step: "returns (message_loop api ssl wss (process_payload p out) t) Q E"
    if t: "reading t key fixed rest (frame_bytes fs @ tail)" "kept_by_reading wire s t" for t
  proof (rule Cons.IH)
    show "incoming ssl t key fixed rest (frame_bytes fs @ tail)"
      by (rule incoming_reading [OF _ _ _ t(1)]) (use t(2) i in \<open>auto simp: incoming_def kept_by_reading_def\<close>)
    show "returns (message_loop api ssl wss (process_payload p out @ payloads fs) u) Q E"
      if "incoming ssl u key fixed rest tail" "kept_by_reading wire t u" for u
      using Cons.prems(3) [OF that(1) kept_by_reading_trans [OF t(2) that(2)]] by (simp add: f process_payload_def payloads_def)
  qed (use Cons.prems(1,4) in \<open>auto simp: f process_payload_def payloads_def\<close>)
  show ?case
    by (rule message_rule, rule returns_mono [OF next_incoming_frame [OF ssl i m(2) data_code_le [OF m(1)]]])
       (use m(1) step Cons.prems(4) in auto)
qed

section \<open>A segment with data\<close>

lemma same_tls_part:
  fixes s t :: "('w, 'z) wss_client_scheme"
  assumes "tcp_client.more t = tcp_client.more s"
  shows "tls_stream t = tls_stream s" "hs_state t = hs_state s" "dec_ctx t = dec_ctx s" "iv_server_write_iv t = iv_server_write_iv s"
    "wss_stream t = wss_stream s" "wss_state t = wss_state s"
  using assms by (cases s, cases t, simp)+

lemma same_tcp_part:
  fixes s t :: "('w, 'z) tcp_client_scheme"
  assumes "device.more t = device.more s"
  shows "tcp_client.more t = tcp_client.more s" "cl_state t = cl_state s" "cl_seq t = cl_seq s" "cl_ack t = cl_ack s"
    "cl_ip_id t = cl_ip_id s" "cl_connection t = cl_connection s" "unacknowledged_bytes t = unacknowledged_bytes s"
    "last_ack_number t = last_ack_number s" "send_wnd t = send_wnd s" "peer_window_scale t = peer_window_scale s"
  using assms by (cases s, cases t, simp)+

lemma keeps_more_world_call: "keeps device.more (world_call f)"
  by (auto simp: keeps_def world_call_def split: prod.splits)

lemma receive_keeps_more: "keeps device.more (Device_receive api)"
  unfolding Device_receive_def by (intro keeps_intros keeps_more_world_call; simp)

lemma arp_keeps_more: "keeps device.more (ArpHandler_handle_packet api host v)"
  unfolding ArpHandler_handle_packet_def Arp_is_valid_def Arp_header_def Arp_init_reply_def Arp_init_operation_def Eth_init_def load_def store_def
    Sender_send_raw_size_def Device_enqueue_size_def alloc_mbuf_def flush_if_full_def Device_flush_send_queue_def Sender_flush_def Let_def
  by (intro keeps_intros keeps_more_world_call; simp add: fill_last_def)

text \<open>A segment in order for the connection, with or without data, as it lies in the receive buffer.\<close>

definition segment_at :: "packet_view \<Rightarrow> seq_number \<Rightarrow> bytes \<Rightarrow> bool" where
  "segment_at v ack payload \<longleftrightarrow> eth_type (eth_hdr v) = BE EthernetType_Ipv4 \<and> ip_protocol (ip_hdr v) = IpProtocol_Tcp \<and>
     IP_is_valid v () = (Inr True, ()) \<and> 34 \<le> tcp_off v \<and> tcp_off v + 20 \<le> length (v_mem v) \<and>
     SeqNumber (be_value (tcp_seq (tcp_hdr v))) = ack \<and> \<not> has_flag (tcp_flags (tcp_hdr v)) Flags_RST \<and>
     tcp_off v + tcp_data_offset (tcp_hdr v) + tcp_payload_size v \<le> length (v_mem v) \<and>
     payload = chunk (tcp_off v + tcp_data_offset (tcp_hdr v)) (tcp_payload_size v) (v_mem v)"

lemma IP_is_valid_any: "IP_is_valid v s = (Inr True, s) \<Longrightarrow> IP_is_valid v t = (Inr True, t)"
  by (auto simp: IP_is_valid_def IP_header_def load_def prog_defs Let_def split: if_splits)

lemma segment_valid: "segment_at v ack payload \<Longrightarrow> IP_is_valid v s = (Inr True, s)"
  unfolding segment_at_def by (elim conjE) (rule IP_is_valid_any)

text \<open>
  What taking a segment in does to the TCP client. One with data, or the answer to the connection request, is acknowledged
  with one segment that carries the numbers of the client; one without data is not answered.
\<close>

definition tcp_packet :: "packet_view \<Rightarrow> bool" where
  "tcp_packet v \<longleftrightarrow> eth_type (eth_hdr v) = BE EthernetType_Ipv4 \<and> ip_protocol (ip_hdr v) = IpProtocol_Tcp \<and> 34 \<le> length (v_mem v)"

definition bare :: "('w, 'z) tcp_client_scheme \<Rightarrow> packet_view \<Rightarrow> bool" where
  "bare s v \<longleftrightarrow> cl_state s = Connected \<and> tcp_payload_size v = 0"

definition heard :: "('w, 'z) tcp_client_scheme \<Rightarrow> packet_view \<Rightarrow> ('w, 'z) tcp_client_scheme" where
  "heard s v = (if bare s v then acking s v else after_send 0 (acking s v))"

definition acks_sent :: "'w dpdk_api \<Rightarrow> ('w, 'z) tcp_client_scheme \<Rightarrow> packet_view \<Rightarrow> mbuf list \<Rightarrow> bool" where
  "acks_sent api s v ms \<longleftrightarrow> (if tcp_packet v \<and> \<not> bare s v then \<exists>m. ms = [m] \<and> client_frame api (acking s v) Flags_ACK False [] m else ms = [])"

definition segment_taken ::
    "'w dpdk_api \<Rightarrow> ('w \<Rightarrow> mbuf list) \<Rightarrow> ('w, 'z) tcp_client_scheme \<Rightarrow> packet_view \<Rightarrow> ('w, 'z) tcp_client_scheme \<Rightarrow> bool" where
  "segment_taken api wire s v t \<longleftrightarrow> same_segment_state t (heard s v) \<and>
     (\<exists>ms. acks_sent api s v ms \<and> wire (world t) = wire (world s) @ ms)"

definition reliable :: "'w dpdk_api \<Rightarrow> 'w ssl_api \<Rightarrow> bool" where
  "reliable api ssl \<longleftrightarrow> dpdk_reliable api \<and> ssl_reliable ssl"

lemma segment_taken_stream [simp]: "segment_taken api wire s v (t\<lparr>tls_stream := st\<rparr>) = segment_taken api wire s v t"
  by (simp add: segment_taken_def same_segment_state_def)

lemma segment_tcp_packet: "segment_at v ack payload \<Longrightarrow> tcp_packet v"
  by (simp add: segment_at_def tcp_packet_def)

lemma heard_room: "acceptable s v \<Longrightarrow> same_segment_state u (heard s v) \<Longrightarrow> room u 1994"
  by (auto simp: acceptable_def room_def heard_def acking_def after_send_def same_segment_state_def Let_def)

lemma heard_connected:
  "cl_state s = Connected \<Longrightarrow> cl_state (heard s v) = Connected"
  "cl_state s = Connected \<Longrightarrow> segment_at v (cl_ack s) payload \<Longrightarrow> cl_ack (heard s v) = SeqNumber_add (cl_ack s) (of_nat (length payload))"
  by (auto simp: heard_def acking_def after_send_def acked_state_def segment_at_def Let_def)

lemma SeqNumber_add_0: "SeqNumber_add x 0 = x"
  by (cases x) (simp add: SeqNumber_add_def)

lemma length_segment_payload: "segment_at v ack payload \<Longrightarrow> length payload = tcp_payload_size v"
  by (auto simp: segment_at_def)

text \<open>Above the TCP client only the stream of the TLS client differs.\<close>

definition same_but_stream :: "('w, 'z) tls_client_scheme \<Rightarrow> ('w, 'z) tls_client_scheme \<Rightarrow> bool" where
  "same_but_stream s t \<longleftrightarrow> tcp_client.more (t\<lparr>tls_stream := tls_stream s\<rparr>) = tcp_client.more s"

lemma same_but_stream_fields:
  fixes s t :: "('w, 'z) tls_client_scheme"
  assumes "same_but_stream s t"
  shows "hs_state t = hs_state s" "dec_ctx t = dec_ctx s" "enc_ctx t = enc_ctx s" "iv_server_write_iv t = iv_server_write_iv s"
    "client_write_iv t = client_write_iv s" "tls_send_buffer t = tls_send_buffer s" "sni_hostname t = sni_hostname s"
    "handshake_hash t = handshake_hash s" "tls_random_client t = tls_random_client s" "tls_random_server t = tls_random_server s"
    "server_eph_pubkey t = server_eph_pubkey s" "write_sequence_number t = write_sequence_number s" "tls_client.more t = tls_client.more s"
  using assms unfolding same_but_stream_def by (cases s, cases t, simp)+

lemma wp_client_segment:
  assumes dpdk: "dpdk_ok api wire" and conn: "cl_state s = Connected" and v: "segment_at v (cl_ack s) payload"
  shows "wp (Client_process_packet api v) (\<lambda>_ t. segment_taken api wire s v t)
     (\<lambda>_ t. wire (world t) = wire (world s) \<and> (acceptable s v \<longrightarrow> \<not> dpdk_reliable api)) s"
proof (cases "tcp_payload_size v = 0")
  case True
  have "same_segment_state (acked_state s (tcp_hdr v)) (acking s v)" "world (acked_state s (tcp_hdr v)) = world s"
    using conn v True by (simp_all add: acking_def same_segment_state_def acked_state_def Let_def segment_at_def SeqNumber_add_0)
  then show ?thesis
    by (intro wp_mono [OF process_bare_ack [OF conn]])
       (use v segment_valid [OF v] True conn in \<open>auto simp: segment_at_def segment_taken_def heard_def acks_sent_def bare_def\<close>)
next
  case False
  then show ?thesis
    by (intro wp_mono [OF wp_process_segment [OF dpdk conn]])
       (use v segment_valid [OF v] segment_tcp_packet [OF v] in
        \<open>auto simp: segment_at_def segment_taken_def segment_acknowledged_def heard_def acks_sent_def bare_def\<close>)
qed

lemma wp_tls_segment:
  fixes s :: "('w, 'z) wss_client_scheme"
  assumes dpdk: "dpdk_ok api wire" and conn: "cl_state s = Connected" and v: "segment_at v (cl_ack s) payload"
    and p: "pending s rest" and cap: "Stream_capacity (tls_stream s) = 20600" "length rest + length payload \<le> 20600"
  shows "wp (Tls_process_packet api v)
     (\<lambda>_ t. segment_taken api wire s v t \<and> pending t (rest @ payload) \<and> Stream_capacity (tls_stream t) = 20600 \<and>
        same_but_stream s t \<and> burst t = burst s)
     (\<lambda>_ t. wire (world t) = wire (world s) \<and> (acceptable s v \<longrightarrow> \<not> dpdk_reliable api)) s"
proof -
  note d = v [unfolded segment_at_def]
  show ?thesis
    unfolding Tls_process_packet_def wp_thenM
  proof (rule wp_mono [OF wp_and_keeps [OF wp_and_keeps [OF wp_client_segment [OF dpdk conn v] above_tcp.keeps_process_packet] burst_part.keeps_process_packet]])
    fix t :: "('w, 'z) wss_client_scheme"
    assume t: "(segment_taken api wire s v t \<and> tcp_client.more t = tcp_client.more s) \<and> burst t = burst s"
    then have more: "tcp_client.more t = tcp_client.more s" by simp
    have pt: "pending t rest" using p same_tls_part(1) [OF more] by (simp add: pending_def)
    have same: "same_but_stream s (t\<lparr>tls_stream := st\<rparr>)" for st
      using more unfolding same_but_stream_def by (cases s, cases t) simp
    show "wp (Tls_append_payload v)
     (\<lambda>_ t. segment_taken api wire s v t \<and> pending t (rest @ payload) \<and> Stream_capacity (tls_stream t) = 20600 \<and>
        same_but_stream s t \<and> burst t = burst s)
     (\<lambda>_ t. wire (world t) = wire (world s) \<and> (acceptable s v \<longrightarrow> \<not> dpdk_reliable api)) t"
      by (rule wp_append_payload [OF pt])
         (use d cap t length_segment_payload [OF v] same in \<open>simp_all add: same_tls_part [OF more] burst_def\<close>)
  qed simp
qed

section \<open>One iteration\<close>

lemma wp_dispatch_tcp:
  assumes "tcp_packet v"
  shows "wp (dispatch_packet api host v) Q E s = wp (Wss_process_packet api v) (\<lambda>_. Q True) E s"
proof -
  have "BE EthernetType_Ipv4 \<noteq> BE EthernetType_Arp" by (simp add: EthernetType_Ipv4_def EthernetType_Arp_def)
  then show ?thesis
    using assms by (simp add: tcp_packet_def dispatch_packet_def wp_simps)
qed

lemma iteration_rule:
  assumes "wp (Device_receive api) (\<lambda>r t. case r of
       None \<Rightarrow> Q () (out, t)
     | Some m \<Rightarrow> wp (dispatch_packet api host (RxPacket_bytes m)) (\<lambda>went u.
         if went then returns (message_loop api ssl wss out u)
           (\<lambda>_ (out', x). Q () (out', x\<lparr>world := rte_pktmbuf_free api m (world x)\<rparr>))
           (\<lambda>e (out', x). E e (out', x\<lparr>world := rte_pktmbuf_free api m (world x)\<rparr>))
         else Q () (out, u\<lparr>world := rte_pktmbuf_free api m (world u)\<rparr>))
        (\<lambda>e u. E e (out, u\<lparr>world := rte_pktmbuf_free api m (world u)\<rparr>)) t)
     (\<lambda>e t. E e (out, t)) s"
  shows "returns (worker_iteration api ssl wss host out s) Q E"
proof -
  obtain r t where rt: "Device_receive api s = (r, t)" by fastforce
  have scope: "returns (map_option (end_scope api m) x) Q E = returns x
      (\<lambda>_ (out', x). Q () (out', x\<lparr>world := rte_pktmbuf_free api m (world x)\<rparr>))
      (\<lambda>e (out', x). E e (out', x\<lparr>world := rte_pktmbuf_free api m (world x)\<rparr>))" for m x
    by (auto simp: returns_def end_scope_def split: option.splits prod.splits sum.splits)
  show ?thesis
    using assms
    by (auto simp: worker_iteration_def rt wp_def [of "Device_receive api"] scope wp_def [of "dispatch_packet api host _"]
        returns_def [of "Some _"] split: sum.splits option.splits prod.splits bool.splits if_splits)
qed

lemma segment_taken_from:
  assumes "segment_taken api wire t v u" and "device.more t = device.more s" and "wire (world t) = wire (world s)"
  shows "segment_taken api wire s v u"
proof -
  have b: "bare t v = bare s v" using same_tcp_part [OF assms(2)] by (simp add: bare_def)
  have a: "same_segment_state (acking t v) (acking s v)"
    using same_tcp_part [OF assms(2)] by (simp add: same_segment_state_def acking_def acked_state_def Let_def split: sum.split option.split)
  then have "same_segment_state (heard t v) (heard s v)" by (simp add: heard_def b same_segment_state_def after_send_def)
  then have "same_segment_state u (heard t v) \<Longrightarrow> same_segment_state u (heard s v)" by (simp add: same_segment_state_def)
  moreover have "acks_sent api t v = acks_sent api s v" unfolding acks_sent_def b same_segment_frame [OF a] ..
  ultimately show ?thesis using assms(1,3) unfolding segment_taken_def by auto
qed

lemma acceptable_from:
  fixes s t :: "('w, 'z) tcp_client_scheme"
  assumes "device.more t = device.more s"
  shows "acceptable t v = acceptable s v"
  using same_tcp_part [OF assms] by (simp add: acceptable_def ack_accepted_def room_def acked_state_def Let_def)

text \<open>
  An iteration that receives a packet of the connection, for conclusions that do not depend on the buffer being
  freed at its end.
\<close>

definition blind_to_free :: "'w dpdk_api \<Rightarrow> (bytes list \<times> ('w, 'z) wss_client_scheme \<Rightarrow> bool) \<Rightarrow> bool" where
  "blind_to_free api P \<longleftrightarrow> (\<forall>m out t. P (out, t) \<longrightarrow> P (out, t\<lparr>world := rte_pktmbuf_free api m (world t)\<rparr>))"

lemma iteration_tcp:
  fixes s :: "('w, 'z) wss_client_scheme"
  assumes "dpdk_ok api wire" and "Device_inv s" and "fst (Device_receive api s) = Inr (Some m)" and "tcp_packet (RxPacket_bytes m)"
    and "blind_to_free api (Q ())" and "\<forall>e. blind_to_free api (E e)"
    and step: "\<And>t. device.more t = device.more s \<Longrightarrow> wire (world t) = wire (world s) \<Longrightarrow> Device_inv t \<Longrightarrow>
      wp (Tls_process_packet api (RxPacket_bytes m)) (\<lambda>_ u. returns (message_loop api ssl wss out u) Q E) (\<lambda>e u. E e (out, u)) t"
  shows "returns (worker_iteration api ssl wss host out s) Q E"
proof -
  have got: "wp (Device_receive api) (\<lambda>r t. r = Some m) (\<lambda>_ _. False) s"
    using assms(3) by (auto simp: wp_def split: prod.splits)
  have free: "returns (message_loop api ssl wss out u) (\<lambda>_ (out', x). Q () (out', x\<lparr>world := rte_pktmbuf_free api m (world x)\<rparr>))
      (\<lambda>e (out', x). E e (out', x\<lparr>world := rte_pktmbuf_free api m (world x)\<rparr>))" if "returns (message_loop api ssl wss out u) Q E" for u
    by (rule returns_mono [OF that]) (use assms(5,6) in \<open>auto simp: blind_to_free_def\<close>)
  show ?thesis
  proof (rule iteration_rule, rule wp_mono [OF wp_conj [THEN iffD2, OF conjI [OF got wp_and_keeps [OF wp_Device_receive [OF assms(1,2)] receive_keeps_more]]]],
      goal_cases)
    case (1 r t)
    then have t: "r = Some m" "device.more t = device.more s" "wire (world t) = wire (world s)" "Device_inv t" by auto
    show ?case
      unfolding t(1) option.case wp_dispatch_tcp [OF assms(4)] Wss_process_packet_def if_True
      by (rule wp_mono [OF step [OF t(2-4)]]) (use free assms(6) in \<open>auto simp: blind_to_free_def\<close>)
  qed simp
qed

lemma iteration_segment:
  fixes s :: "('w, 'z) wss_client_scheme"
  assumes dpdk: "dpdk_ok api wire" and inv: "Device_inv s" and got: "fst (Device_receive api s) = Inr (Some m)"
    and conn: "cl_state s = Connected" and seg: "segment_at (RxPacket_bytes m) (cl_ack s) payload" and p: "pending s rest"
    and cap: "Stream_capacity (tls_stream s) = 20600" "length rest + length payload \<le> 20600"
    and blind: "blind_to_free api (Q ())" "\<forall>e. blind_to_free api (E e)"
    and err: "\<And>e u. wire (world u) = wire (world s) \<Longrightarrow> acceptable s (RxPacket_bytes m) \<longrightarrow> \<not> dpdk_reliable api \<Longrightarrow> E e (out, u)"
    and step: "\<And>u. segment_taken api wire s (RxPacket_bytes m) u \<Longrightarrow> pending u (rest @ payload) \<Longrightarrow>
      Stream_capacity (tls_stream u) = 20600 \<Longrightarrow> same_but_stream s u \<Longrightarrow> Device_inv u \<Longrightarrow> returns (message_loop api ssl wss out u) Q E"
  shows "returns (worker_iteration api ssl wss host out s) Q E"
proof (rule iteration_tcp [where Q = Q and E = E, OF dpdk inv got segment_tcp_packet [OF seg] blind])
  fix t :: "('w, 'z) wss_client_scheme"
  assume t: "device.more t = device.more s" "wire (world t) = wire (world s)" "Device_inv t"
  note tcp = same_tcp_part [OF t(1)]
  have s: "cl_state t = Connected" "segment_at (RxPacket_bytes m) (cl_ack t) payload" "pending t rest" "Stream_capacity (tls_stream t) = 20600"
    using conn seg p cap(1) tcp same_tls_part(1) [OF tcp(1)] by (simp_all add: pending_def)
  have same: "same_but_stream s u" if "same_but_stream t u" for u
    using that tcp(1) same_tls_part(1) [OF tcp(1)] by (simp add: same_but_stream_def)
  show "wp (Tls_process_packet api (RxPacket_bytes m)) (\<lambda>_ u. returns (message_loop api ssl wss out u) Q E) (\<lambda>e u. E e (out, u)) t"
    by (rule wp_mono [OF wp_tls_segment [OF dpdk s cap(2)]])
       (use t(2,3) acceptable_from [OF t(1)] in \<open>auto intro!: step err same segment_taken_from [OF _ t(1,2)] simp: burst_def Device_inv_def\<close>)
qed

text \<open>The state between two iterations: connected, every record that is complete opened.\<close>

definition idle :: "('w, 'z) wss_client_scheme \<Rightarrow> bytes \<Rightarrow> bytes \<Rightarrow> bytes \<Rightarrow> bytes \<Rightarrow> bool" where
  "idle s key fixed rest bytes \<longleftrightarrow> cl_state s = Connected \<and> wss_state s = Wss_Connected \<and> incomplete_record rest \<and>
     reading s key fixed rest bytes \<and> Stream_capacity (tls_stream s) = 20600"

lemma segment_taken_kept:
  "segment_taken api wire s v t \<Longrightarrow> kept_by_reading wire t u \<Longrightarrow> segment_taken api wire s v u"
  by (simp add: segment_taken_def kept_by_reading_def same_segment_state_def)

lemma idle_cong:
  fixes s t :: "('w, 'z) wss_client_scheme"
  assumes "idle s key fixed rest bytes" and "device.more t = device.more s"
  shows "idle t key fixed rest bytes"
  using assms(1) same_tcp_part [OF assms(2)] same_tls_part [OF same_tcp_part(1) [OF assms(2)]]
  by (auto simp: idle_def reading_def pending_def arrived_def)

lemma message_loop_segment:
  fixes s :: "('w, 'z) wss_client_scheme"
  assumes ssl: "ssl_ok ssl wire" and i: "incoming ssl s key fixed rest (frame_bytes fs @ tail)"
    and fs: "\<forall>f \<in> set fs. readable_frame f" and tail: "partial_frame tail"
  shows "returns (message_loop api ssl wss out s)
     (\<lambda>_ (out', t). out' = out @ handed fs \<and> reading t key fixed rest (frame_bytes (kept_back fs) @ tail) \<and> kept_by_reading wire s t)
     (\<lambda>_ (out', _). prefix out' (out @ handed fs) \<and> \<not> evp_reliable ssl)" (is "returns _ ?Q ?E")
proof -
  let ?ds = "takeWhile message_frame fs" and ?gs = "dropWhile message_frame fs"
  have ds: "\<forall>f \<in> set ?ds. message_frame f" by (auto dest: set_takeWhileD)
  have "frame_bytes fs = frame_bytes ?ds @ frame_bytes ?gs"
    by (metis frame_bytes_def concat_append map_append takeWhile_dropWhile_id)
  then have i': "incoming ssl s key fixed rest (frame_bytes ?ds @ frame_bytes ?gs @ tail)" using i by simp
  show ?thesis
  proof (rule message_loop_frames [OF ssl ds i'])
    fix t :: "('w, 'z) wss_client_scheme"
    assume t: "incoming ssl t key fixed rest (frame_bytes ?gs @ tail)" "kept_by_reading wire s t"
    show "returns (message_loop api ssl wss (out @ payloads ?ds) t) ?Q ?E"
    proof (cases ?gs)
      case Nil
      then have n: "incoming ssl t key fixed rest tail" using t(1) unfolding Nil by (simp add: frame_bytes_def)
      show ?thesis
        by (rule message_rule, rule returns_mono [OF next_incoming_partial [OF ssl n tail]])
           (unfold Nil handed_def kept_back_def, auto intro: kept_by_reading_trans [OF t(2)] simp: frame_bytes_def)
    next
      case (Cons g gs)
      obtain fin code p where g: "g = (fin, code, p)" by (cases g)
      have "g \<in> set fs" using Cons set_dropWhileD [of g message_frame fs] by simp
      then have r: "length p \<noteq> 125" "unat (code AND 0x0F) \<le> 10" using fs by (auto simp: g readable_frame_def)
      have "\<not> message_frame g" using Cons by (metis hd_dropWhile list.distinct(1) list.sel(1))
      then have c: "\<not> data_code code" using r(1) by (simp add: g message_frame_def)
      have n: "incoming ssl t key fixed rest (enc_frame fin code p @ frame_bytes gs @ tail)" using t(1) by (simp add: Cons g frame_bytes_def)
      show ?thesis
        by (rule message_rule, rule returns_mono [OF next_incoming_frame [OF ssl n r]])
           (auto intro: kept_by_reading_trans [OF t(2)] simp: c Cons handed_def kept_back_def)
    qed
  qed (simp add: handed_def)
qed

lemma arrived_world [simp]: "arrived (s\<lparr>world := w\<rparr>) bs = arrived s bs"
  by (simp add: arrived_def)

lemma idle_freed [simp]: "idle (s\<lparr>world := w\<rparr>) key fixed rest bytes = idle s key fixed rest bytes"
  by (simp add: idle_def reading_def pending_def arrived_def)

lemma Device_inv_world [simp]: "Device_inv (s\<lparr>world := w\<rparr>) = Device_inv s"
  by (simp add: Device_inv_def)

lemma segment_taken_freed:
  "dpdk_ok api wire \<Longrightarrow> segment_taken api wire s v (t\<lparr>world := rte_pktmbuf_free api m (world t)\<rparr>) = segment_taken api wire s v t"
  using pool_wire(2) by (auto simp: segment_taken_def)

lemma worker_segment:
  fixes s :: "('w, 'z) wss_client_scheme"
  assumes "dpdk_ok api wire" and "ssl_ok ssl wire" and "Device_inv s" and "fst (Device_receive api s) = Inr (Some m)"
    and "idle s key fixed rest bytes" and "segment_at (RxPacket_bytes m) (cl_ack s) payload"
    and "rest @ payload = sealed_stream ssl key fixed ms @ rest'" and "incomplete_record rest'"
    and "\<forall>(seq, data) \<in> set ms. data \<noteq> [] \<and> length data < 65512"
    and "bytes @ concat (map snd ms) = frame_bytes fs @ tail" and "\<forall>f \<in> set fs. readable_frame f" and "partial_frame tail"
    and "length rest + length payload \<le> 20600" and "length (bytes @ concat (map snd ms)) \<le> 200000"
  shows "returns (worker_iteration api ssl wss host out s)
     (\<lambda>_ (out', t). out' = out @ handed fs \<and> idle t key fixed rest' (frame_bytes (kept_back fs) @ tail) \<and>
        segment_taken api wire s (RxPacket_bytes m) t \<and> Device_inv t)
     (\<lambda>_ (out', t). prefix out' (out @ handed fs) \<and> (wire (world t) = wire (world s) \<or> \<not> evp_reliable ssl) \<and>
        (acceptable s (RxPacket_bytes m) \<longrightarrow> \<not> reliable api ssl))"
    (is "returns _ ?Q ?E")
proof (rule iteration_segment [OF assms(1,3,4) _ assms(6), where rest = rest and Q = ?Q and E = ?E])
  note i = assms(5) [unfolded idle_def reading_def]
  fix u :: "('w, 'z) wss_client_scheme"
  assume u: "segment_taken api wire s (RxPacket_bytes m) u" "pending u (rest @ payload)" "Stream_capacity (tls_stream u) = 20600"
    "same_but_stream s u" "Device_inv u"
  note same = same_but_stream_fields [OF u(4)] same_wss_part [OF same_but_stream_fields(13) [OF u(4)]]
  have r: "reading u key fixed (sealed_stream ssl key fixed ms @ rest') bytes"
    using u(2) i same assms(7) by (simp add: reading_def arrived_def)
  have inc: "incoming ssl u key fixed rest' (frame_bytes fs @ tail)"
    unfolding incoming_def using r i same assms(8-10,14) by (intro conjI exI [of _ ms] exI [of _ bytes]) auto
  have conn: "cl_state u = Connected" using u(1) heard_connected(1) [of s] i by (simp add: segment_taken_def same_segment_state_def)
  have after: "?Q () (out @ handed fs, y)" if "reading y key fixed rest' (frame_bytes (kept_back fs) @ tail)" "kept_by_reading wire u y" for y
    using that u(3,5) i same conn assms(8) segment_taken_kept [OF u(1) that(2)]
    by (auto simp: idle_def kept_by_reading_def burst_def Device_inv_def)
  show "returns (message_loop api ssl wss out u) ?Q ?E"
    by (rule returns_mono [OF message_loop_segment [OF assms(2) inc assms(11,12)]]) (use after in \<open>auto simp: reliable_def ssl_reliable_def\<close>)
qed (use assms(5,13) in \<open>auto simp: idle_def reading_def blind_to_free_def reliable_def segment_taken_freed [OF assms(1)] pool_wire(2) [OF assms(1)]\<close>)

lemma run_rule:
  assumes "returns (worker_iteration api ssl wss host out s)
     (\<lambda>_ (out', t). returns (run_worker_loop api ssl wss host n out' t) Q E) E"
  shows "returns (run_worker_loop api ssl wss host (Suc n) out s) Q E"
  using assms by (auto simp: returns_def split: option.splits prod.splits sum.splits)

text \<open>A packet of the current burst is the next one received.\<close>

lemma receive_from_burst:
  assumes "dpdk_ok api wire" and "Device_inv s" and "Device_pending s = m # packets"
  shows "fst (Device_receive api s) = Inr (Some m)"
  using wp_Device_receive [OF assms(1,2)] assms(3) by (auto simp: wp_def split: prod.splits sum.splits)

section \<open>A concrete worker, for the witnesses\<close>

definition rx_mbuf :: "packet_view \<Rightarrow> mbuf" where
  "rx_mbuf v = blank_mbuf\<lparr>m_data := v_mem v, m_data_len := of_nat (length (v_mem v)), m_pkt_len := of_nat (length (v_mem v))\<rparr>"

lemma RxPacket_bytes_rx_mbuf: "length (v_mem v) = v_size v \<Longrightarrow> v_size v < 2 ^ 32 \<Longrightarrow> RxPacket_bytes (rx_mbuf v) = v"
  by (simp add: RxPacket_bytes_def rx_mbuf_def)

definition demo_worker :: "mbuf list \<Rightarrow> loop_world wss_client" where
  "demo_worker packets = (demo_wss Wss_Connected [] [])\<lparr>tls_stream := Stream_new 20600, receive_mbufs := packets\<rparr>"

definition demo_packet :: "u32 \<Rightarrow> bytes \<Rightarrow> mbuf" where
  "demo_packet seq payload = rx_mbuf (demo_segment Flags_ACK seq 7 payload)"

lemma demo_wss_client_fields [simp]: "cl_state (demo_wss st r bs) = Connected" "cl_ack (demo_wss st r bs) = SeqNumber 100"
  "current_recieve_mbuf_idx (demo_wss st r bs) = 0"
  by (simp_all add: demo_wss_def tls_client.defs wss_client.defs demo_tls_def Tls_new_def demo_client_def Client_new_def
      tcp_client.defs device.defs loop_device_def)

lemma demo_worker_fields [simp]:
  "cl_ack (demo_worker ps) = SeqNumber 100" "lw_wire (world (demo_worker ps)) = []" "Device_pending (demo_worker ps) = ps"
  by (simp_all add: demo_worker_def Device_pending_def)

lemma demo_worker_inv: "length ps \<le> 32 \<Longrightarrow> Device_inv (demo_worker ps)"
  by (simp add: demo_worker_def Device_inv_def kReceiveBurstSize_def)

lemma demo_worker_idle: "idle (demo_worker ps) (replicate 16 2) (replicate 4 0) [] []"
proof -
  have "arrived (demo_worker ps) []"
    using demo_wss_arrived [of "[]" Wss_Connected "[]"] by (simp add: demo_worker_def arrived_def)
  moreover have "pending (demo_worker ps) []" by (simp add: demo_worker_def pending_def)
  ultimately show ?thesis by (simp add: idle_def reading_def demo_worker_def incomplete_record_def)
qed

lemma demo_packet_segment:
  assumes "length payload < 1000"
  shows "segment_at (RxPacket_bytes (demo_packet seq payload)) (SeqNumber seq) payload"
proof -
  let ?v = "demo_segment Flags_ACK seq 7 payload"
  have v: "RxPacket_bytes (rx_mbuf ?v) = ?v"
    by (rule RxPacket_bytes_rx_mbuf) (use assms in \<open>simp_all add: demo_segment_def\<close>)
  have e: "eth_type (eth_hdr ?v) = BE EthernetType_Ipv4"
    by (simp add: eth_hdr_def demo_segment_def chunk_def eth_mem.dec_enc Eth_init_header_def)
  have d: "tcp_data_offset (demo_header Flags_ACK seq 7) = 20"
    by (simp add: demo_header_def tcp_data_offset_def data_offset_scaled_def)
  have c: "chunk 54 (length payload) (v_mem ?v) = payload" by (simp add: demo_segment_def chunk_def)
  have h: "tcp_seq (demo_header Flags_ACK seq 7) = BE seq" "\<not> has_flag Flags_ACK Flags_RST"
    by (simp_all add: demo_header_def has_flag_def Flags_defs)
  show ?thesis
    unfolding v demo_packet_def segment_at_def using assms by (simp add: e d c h IP_init_header_def)
qed

text \<open>The packets announce a large window and acknowledge nothing, as a client accepts it that has little outstanding.\<close>

definition ledger :: "nat \<Rightarrow> ('w, 'z) tcp_client_scheme \<Rightarrow> bool" where
  "ledger n s \<longleftrightarrow> last_ack_number s = SeqNumber 7 \<and> peer_window_scale s = 0 \<and> unat (unacknowledged_bytes s) \<le> n"

lemma demo_segment_facts:
  assumes "length p < 1000"
  shows "RxPacket_bytes (rx_mbuf (demo_segment flags seq 7 p)) = demo_segment flags seq 7 p"
    "be_value (tcp_ack (demo_header flags seq 7)) = 7" "be_value (tcp_window (demo_header flags seq 7)) = 60000"
    "tcp_options (demo_segment flags seq 7 p) = Inr None" "tcp_packet (demo_segment flags seq 7 p)"
proof -
  let ?v = "demo_segment flags seq 7 p"
  show "RxPacket_bytes (rx_mbuf ?v) = ?v"
    by (rule RxPacket_bytes_rx_mbuf) (use assms in \<open>simp_all add: demo_segment_def\<close>)
  show "be_value (tcp_ack (demo_header flags seq 7)) = 7" "be_value (tcp_window (demo_header flags seq 7)) = 60000"
    by (simp_all add: demo_header_def)
  have h: "tcp_data_offset (demo_header flags seq 7) = 20"
    by (simp add: demo_header_def tcp_data_offset_def data_offset_scaled_def)
  show "tcp_options ?v = Inr None" by (subst tcp_options_def, subst parse_options_loop.simps) (simp add: h sub64_def)
  have "eth_type (eth_hdr ?v) = BE EthernetType_Ipv4"
    by (simp add: eth_hdr_def demo_segment_def chunk_def eth_mem.dec_enc Eth_init_header_def)
  then show "tcp_packet ?v" by (simp add: tcp_packet_def IP_init_header_def)
qed

lemma demo_accepted:
  assumes "ledger n s" and "n \<le> 50000" and "length p < 1000"
  shows "acceptable s (RxPacket_bytes (rx_mbuf (demo_segment flags seq 7 p)))"
  using assms(1,2) demo_segment_facts [OF assms(3)]
  by (simp add: acceptable_def ack_accepted_def ledger_def room_def acked_state_def SeqNumber_le_def SeqNumber_compare_def SeqNumber_minus_def Let_def)

lemma demo_worker_ledger: "ledger 0 (demo_worker ps)"
  by (simp add: ledger_def demo_worker_def demo_wss_def tls_client.defs wss_client.defs demo_tls_def Tls_new_def demo_client_def Client_new_def
      tcp_client.defs device.defs loop_device_def)

text \<open>A record with one complete frame and the first byte of another.\<close>

definition demo_sealed :: "(u64 \<times> bytes) list" where
  "demo_sealed = [(0, frame_bytes [(True, 1, [104, 105])] @ [0x81])]"

definition demo_record :: bytes where
  "demo_record = sealed_stream demo_ssl (replicate 16 2) (replicate 4 0) demo_sealed"

lemma demo_record_length: "length demo_record = 34"
  using ssl_ok_sizes(7) [OF demo_ssl_ok]
  by (simp add: demo_record_def demo_sealed_def sealed_stream_def sealed_record_def frame_bytes_def enc_frame_def Let_def tls_record_def)

lemma demo_frames: "message_frame (True, 1, [104, 105])" "partial_frame [0x81]" "concat (map snd demo_sealed) = frame_bytes [(True, 1, [104, 105])] @ [0x81]"
  "\<forall>(seq, data) \<in> set demo_sealed. data \<noteq> [] \<and> length data < 65512" "length (concat (map snd demo_sealed)) = 5"
proof -
  have "[0x81] = take 1 (enc_frame True 1 [])" by (simp add: enc_frame_def Let_def)
  then show "partial_frame [0x81]" unfolding partial_frame_def by (intro exI conjI) (assumption, simp_all add: enc_frame_def Let_def)
qed (simp_all add: message_frame_def data_code_def OpCode_Text_def demo_sealed_def frame_bytes_def enc_frame_def Let_def)

section \<open>Properties\<close>

text \<open>
  C3: from the wire to the user. Between two packets the worker is idle: connected, with an incomplete record in the
  TLS stream and the bytes it has not delivered in the web socket stream. When the next received packet is a segment in
  order that continues the record stream, and all frames in what has arrived then are ones the client can read (operation
  code at most 10, payload not exactly 125 bytes), one iteration acknowledges the segment with one segment if it carries
  data, opens the records that are now complete and hands the payloads of the frames that are now complete to the user,
  each once and in order, up to the first frame that is neither text nor binary. That frame is dropped; the frames behind
  it, the incomplete record and the incomplete frame at the end wait, and the worker is idle again. Otherwise it throws
  before anything was acknowledged, or because a call of the cryptographic library failed, and has handed out nothing
  but the first of these payloads; where the segment gives no reason to throw, one of the libraries has failed.
\<close>

theorem worker_delivers_segment:
  fixes s :: "('w, 'z) wss_client_scheme"
  assumes "dpdk_ok api wire" and "ssl_ok ssl wire" and "Device_inv s" and "fst (Device_receive api s) = Inr (Some m)"
    and "idle s key fixed rest bytes" and "segment_at (RxPacket_bytes m) (cl_ack s) payload"
    and "rest @ payload = sealed_stream ssl key fixed ms @ rest'" and "incomplete_record rest'"
    and "\<forall>(seq, data) \<in> set ms. data \<noteq> [] \<and> length data < 65512"
    and "bytes @ concat (map snd ms) = frame_bytes fs @ tail" and "\<forall>f \<in> set fs. readable_frame f" and "partial_frame tail"
    and "length rest + length payload \<le> 20600" and "length (bytes @ concat (map snd ms)) \<le> 200000"
  shows "returns (worker_iteration api ssl wss host out s)
     (\<lambda>_ (out', t). out' = out @ handed fs \<and> idle t key fixed rest' (frame_bytes (kept_back fs) @ tail) \<and>
        segment_taken api wire s (RxPacket_bytes m) t \<and> Device_inv t)
     (\<lambda>_ (out', t). prefix out' (out @ handed fs) \<and> (wire (world t) = wire (world s) \<or> \<not> evp_reliable ssl) \<and>
        (acceptable s (RxPacket_bytes m) \<longrightarrow> \<not> reliable api ssl))"
  using assms by (rule worker_segment)

theorem worker_delivers_segment_witness:
  "returns (worker_iteration steady_api demo_ssl demo_wss_api (sess_src demo_session) [] (demo_worker [demo_packet 100 demo_record]))
     (\<lambda>_ (out, t). out = [[104, 105]] \<and> (\<exists>m. lw_wire (world t) = [m])) (\<lambda>_ (out, t). False)"
proof -
  have p: "length demo_record < 1000" using demo_record_length by auto
  have r: "Device_inv (demo_worker [demo_packet 100 demo_record])" by (simp add: demo_worker_inv)
  note seg = demo_packet_segment [OF p, of 100]
  have data: "\<not> bare s (RxPacket_bytes (demo_packet 100 demo_record))" for s :: "loop_world wss_client"
    using length_segment_payload [OF seg] demo_record_length by (simp add: bare_def)
  have f: "handed [(True, 1, [104, 105])] = [[104, 105]]"
    using messages_only [of "[(True, 1, [104, 105])]"] demo_frames(1) by (simp add: payloads_def)
  show ?thesis
    by (rule returns_mono [OF worker_delivers_segment [OF steady_api_ok demo_ssl_ok r receive_from_burst [OF steady_api_ok r demo_worker_fields(3)]
          demo_worker_idle, where payload = demo_record and ms = demo_sealed and rest' = "[]" and fs = "[(True, 1, [104, 105])]" and tail = "[0x81]"]])
       (use seg demo_record_length demo_frames data segment_tcp_packet [OF seg] f demo_accepted [OF demo_worker_ledger _ p, of _ Flags_ACK 100] in
        \<open>auto simp: incomplete_record_def segment_taken_def acks_sent_def demo_record_def demo_packet_def readable_frame_def reliable_def\<close>)
qed

text \<open>
  C29: an ARP request for the local address is answered in the middle of a connection with one correct reply, and the
  connection does not notice: the TCP, TLS and web socket states are exactly what they were, and no message is
  handed out.
\<close>

theorem worker_answers_arp:
  fixes s :: "('w, 'z) wss_client_scheme"
  assumes "dpdk_ok api wire" and "Device_inv s" and "Device_pending s = m # packets" and "v = RxPacket_bytes m"
    and "eth_type (eth_hdr v) = BE EthernetType_Arp" and "arp_well_formed v" and "42 \<le> length (v_mem v)"
    and "arp_operation (arp_hdr (v_mem v)) = BE Operation_Request" and "arp_target_ip (arp_hdr (v_mem v)) = host_ip local_host"
  shows "returns (worker_iteration api ssl wss local_host out s)
     (\<lambda>_ (out', t). out' = out \<and> device.more t = device.more s \<and> (\<exists>r. Device_line wire t = Device_line wire s @ [r] \<and>
        arp_frame Operation_Reply (arp_sender_mac (arp_hdr (v_mem v))) (host_mac local_host) (host_ip local_host)
          (arp_sender_mac (arp_hdr (v_mem v))) (arp_sender_ip (arp_hdr (v_mem v))) r))
     (\<lambda>_ (out', t). Device_line wire t = Device_line wire s)"
proof (rule iteration_rule, rule wp_mono [OF wp_and_keeps [OF wp_Device_receive [OF assms(1,2)] receive_keeps_more]], goal_cases)
  case (1 r t)
  then have t: "r = Some m" "device.more t = device.more s" "Device_line wire t = Device_line wire s"
    using assms(3) by (auto simp: Device_line_def)
  have free: "Device_line wire (u\<lparr>world := rte_pktmbuf_free api m (world u)\<rparr>) = Device_line wire u" for u :: "('w, 'z) wss_client_scheme"
    using pool_wire(2) [OF assms(1)] by (simp add: Device_line_def)
  have l: "14 \<le> length (v_mem v)" using assms(7) by simp
  show ?case
    unfolding t(1) option.case assms(4) [symmetric] dispatch_packet_def
    using assms(5) l
    by (simp add: wp_simps free)
       (rule wp_mono [OF wp_and_keeps [OF wp_answer_request [OF assms(1,6-9)] arp_keeps_more]], use t in auto)
qed simp

definition demo_arp :: packet_view where
  "demo_arp = \<lparr>v_mem = poke 14 (enc_arp \<lparr>arp_hardware_type = BE HardwareType_Ethernet, arp_protocol_type = BE ProtocolType_Ipv4,
       arp_hardware_len = 6, arp_protocol_len = 4, arp_operation = BE Operation_Request, arp_sender_mac = Mac_bytes 1 2 3 4 5 6,
       arp_sender_ip = Ip 9, arp_target_mac = Mac_default, arp_target_ip = host_ip (sess_src demo_session)\<rparr>)
       (poke 0 (enc_eth \<lparr>eth_dst_mac = Mac_default, eth_src_mac = Mac_default, eth_type = BE EthernetType_Arp\<rparr>) (replicate 60 0)),
     v_size = 60\<rparr>"

theorem worker_answers_arp_witness:
  "returns (worker_iteration loop_api demo_ssl demo_wss_api (sess_src demo_session) [] (demo_worker [rx_mbuf demo_arp]))
     (\<lambda>_ (out, t). out = [] \<and> (\<exists>r. lw_wire (world t) @ send_mbufs t = [r] \<and> arp_frame Operation_Reply (Mac_bytes 1 2 3 4 5 6)
        (host_mac (sess_src demo_session)) (host_ip (sess_src demo_session)) (Mac_bytes 1 2 3 4 5 6) (Ip 9) r)) (\<lambda>_ _. True)"
proof -
  have v: "demo_arp = RxPacket_bytes (rx_mbuf demo_arp)" by (rule RxPacket_bytes_rx_mbuf [symmetric]) (simp_all add: demo_arp_def)
  have sent: "send_mbufs (demo_worker ps) = []" for ps
    by (simp add: demo_worker_def demo_wss_def tls_client.defs wss_client.defs demo_tls_def Tls_new_def demo_client_def Client_new_def
      tcp_client.defs device.defs loop_device_def)
  show ?thesis
    by (rule returns_mono [OF worker_answers_arp [OF loop_api_ok demo_worker_inv demo_worker_fields(3) v]])
       (auto simp: sent Device_line_def demo_arp_def arp_well_formed_def Let_def eth_hdr_def chunk_poke_before eth_mem.dec_enc)
qed

text \<open>
  A packet that is neither ARP nor TCP over IPv4 is dropped: its buffer is freed and nothing else changes, neither in
  the connection nor on the wire.
\<close>

lemma worker_ignores_other_packets:
  fixes s :: "('w, 'z) wss_client_scheme"
  assumes "dpdk_ok api wire" and "Device_inv s" and got: "fst (Device_receive api s) = Inr (Some m)" and "v = RxPacket_bytes m"
    and "34 \<le> length (v_mem v)" and "eth_type (eth_hdr v) \<noteq> BE EthernetType_Arp"
    and "\<not> (eth_type (eth_hdr v) = BE EthernetType_Ipv4 \<and> ip_protocol (ip_hdr v) = IpProtocol_Tcp)"
  shows "returns (worker_iteration api ssl wss local_host out s)
     (\<lambda>_ (out', t). out' = out \<and> device.more t = device.more s \<and> Device_line wire t = Device_line wire s \<and>
        wire (world t) = wire (world s) \<and> Device_inv t) (\<lambda>_ _. False)"
proof -
  have r: "wp (Device_receive api) (\<lambda>r t. r = Some m) (\<lambda>_ _. False) s"
    using got by (auto simp: wp_def split: prod.splits)
  have free: "wire (rte_pktmbuf_free api m w) = wire w" for w by (rule pool_wire(2) [OF assms(1)])
  show ?thesis
  proof (rule iteration_rule, rule wp_mono [OF wp_conj [THEN iffD2, OF conjI [OF r wp_and_keeps [OF wp_Device_receive [OF assms(1,2)] receive_keeps_more]]]],
      goal_cases)
    case (1 r t)
    then have t: "r = Some m" "device.more t = device.more s" "Device_line wire t = Device_line wire s" "wire (world t) = wire (world s)" "Device_inv t"
      by (auto simp: Device_line_def)
    show ?case
      unfolding t(1) option.case assms(4) [symmetric] dispatch_packet_def
      using assms(5-7) t by (auto simp: wp_simps free Device_line_def)
  qed simp
qed

lemma worker_ignores_other_packets_witness:
  "returns (worker_iteration loop_api demo_ssl demo_wss_api (sess_src demo_session) [[7]]
       (demo_worker [rx_mbuf \<lparr>v_mem = replicate 60 0, v_size = 60\<rparr>]))
     (\<lambda>_ (out, t). out = [[7]] \<and> lw_wire (world t) = []) (\<lambda>_ _. False)"
proof -
  let ?m = "rx_mbuf \<lparr>v_mem = replicate 60 0, v_size = 60\<rparr>"
  have v: "\<lparr>v_mem = replicate 60 0, v_size = 60\<rparr> = RxPacket_bytes ?m"
    by (rule RxPacket_bytes_rx_mbuf [symmetric]) simp_all
  have e: "eth_type (eth_hdr \<lparr>v_mem = replicate 60 0, v_size = 60\<rparr>) = mem_be [0, 0]"
    by (simp add: eth_hdr_def dec_eth_def chunk_def numeral_2_eq_2)
  have z: "be_value (mem_be [0, 0] :: 16 be) = 0" by (subst be_value_mem_be) (simp_all add: of_be_bytes_def)
  have n: "mem_be [0, 0] \<noteq> BE x" if "x \<noteq> (0 :: u16)" for x
  proof
    assume "mem_be [0, 0] = BE x"
    from arg_cong [OF this, of be_value] show False using that z by simp
  qed
  have r: "Device_inv (demo_worker [?m])" by (simp add: demo_worker_inv)
  show ?thesis
    by (rule returns_mono [OF worker_ignores_other_packets [OF loop_api_ok r receive_from_burst [OF loop_api_ok r demo_worker_fields(3)] v]])
       (auto simp: e n EthernetType_Arp_def EthernetType_Ipv4_def)
qed

text \<open>An iteration without a packet changes nothing but the clock of the device.\<close>

lemma worker_polls:
  fixes s :: "('w, 'z) wss_client_scheme"
  assumes "dpdk_ok api wire" and "Device_inv s" and "fst (Device_receive api s) = Inr None"
  shows "returns (worker_iteration api ssl wss local_host out s)
     (\<lambda>_ (out', t). out' = out \<and> device.more t = device.more s \<and> wire (world t) = wire (world s) \<and> Device_inv t) (\<lambda>_ _. False)"
proof -
  have r: "wp (Device_receive api) (\<lambda>r t. r = None) (\<lambda>_ _. False) s"
    using assms(3) by (auto simp: wp_def split: prod.splits)
  show ?thesis
    by (rule iteration_rule, rule wp_mono [OF wp_conj [THEN iffD2, OF conjI [OF r wp_and_keeps [OF wp_Device_receive [OF assms(1,2)] receive_keeps_more]]]])
       auto
qed

text \<open>
  C30: a control frame ends the delivery. When a ping, a pong or a close frame is followed by complete messages, the loop
  stops at it, and the messages behind it stay in the stream although they have arrived; they are looked at only when
  another packet comes in.
\<close>

theorem control_frame_stops_delivery:
  fixes s :: "('w, 'z) wss_client_scheme"
  assumes "ssl_ok ssl wire" and "incoming ssl s key fixed rest (frame_bytes fs @ enc_frame fin code p @ frame_bytes gs)"
    and "\<forall>f \<in> set fs. message_frame f" and "\<not> data_code code" and "unat (code AND 0x0F) \<le> 10" and "length p \<noteq> 125"
  shows "returns (message_loop api ssl wss out s)
     (\<lambda>_ (out', t). out' = out @ payloads fs \<and> reading t key fixed rest (frame_bytes gs) \<and> wire (world t) = wire (world s))
     (\<lambda>_ _. \<not> evp_reliable ssl)"
proof (rule message_loop_frames [OF assms(1,3,2)])
  fix t :: "('w, 'z) wss_client_scheme"
  assume t: "incoming ssl t key fixed rest (enc_frame fin code p @ frame_bytes gs)" "kept_by_reading wire s t"
  show "returns (message_loop api ssl wss (out @ payloads fs) t)
     (\<lambda>_ (out', t). out' = out @ payloads fs \<and> reading t key fixed rest (frame_bytes gs) \<and> wire (world t) = wire (world s))
     (\<lambda>_ _. \<not> evp_reliable ssl)"
    by (rule message_rule, rule returns_mono [OF next_incoming_frame [OF assms(1) t(1) assms(6,5)]])
       (use assms(4) t(2) in \<open>auto simp: kept_by_reading_def\<close>)
qed simp

theorem control_frame_stops_delivery_witness:
  "returns (message_loop loop_api demo_ssl demo_wss_api []
       (demo_wss Wss_Connected [] (frame_bytes [(True, 1, [7])] @ enc_frame True 9 [] @ frame_bytes [(True, 1, [8])])))
     (\<lambda>_ (out, t). out = [[7]] \<and> reading t (replicate 16 2) (replicate 4 0) [] (frame_bytes [(True, 1, [8])])) (\<lambda>_ _. False)"
proof -
  let ?bs = "frame_bytes [(True, 1, [7])] @ enc_frame True 9 [] @ frame_bytes [(True, 1, [8])]"
  have l: "length ?bs \<le> 200000" by (simp add: frame_bytes_def enc_frame_def Let_def)
  have i: "incoming demo_ssl (demo_wss Wss_Connected [] ?bs) (replicate 16 2) (replicate 4 0) [] ?bs"
    by (rule incoming_reading [OF _ _ l demo_wss_reading [OF l]]) (simp_all add: incomplete_record_def)
  show ?thesis
    by (rule returns_mono [OF control_frame_stops_delivery [OF demo_ssl_ok i]])
       (auto simp: message_frame_def data_code_def OpCode_Text_def OpCode_Binary_def payloads_def)
qed

end
