(* ===== verification/Steps.thy ===== *)
theory Steps
  imports Main
begin

text \<open>
  Runs of a step relation with labelled steps, shared by the components whose threads interleave, and the contract of
  an invariant of such a relation: it holds at the start and every step keeps it. The invariant may speak of the labels
  seen so far.
\<close>

fun steps :: "('s \<Rightarrow> 'e \<Rightarrow> 's \<Rightarrow> bool) \<Rightarrow> 's \<Rightarrow> 'e list \<Rightarrow> 's \<Rightarrow> bool" where
  "steps step s [] t \<longleftrightarrow> t = s"
| "steps step s (e # es) t \<longleftrightarrow> (\<exists>u. step s e u \<and> steps step u es t)"

lemma steps_append: "steps step s (es @ fs) t \<longleftrightarrow> (\<exists>u. steps step s es u \<and> steps step u fs t)"
  by (induction es arbitrary: s) auto

lemma steps_one: "step s e t \<Longrightarrow> steps step s [e] t"
  by simp

lemma steps_two: "step s e t \<Longrightarrow> step t f u \<Longrightarrow> steps step s [e, f] u"
  by auto

lemma steps_three: "step s e t \<Longrightarrow> step t f u \<Longrightarrow> step u g v \<Longrightarrow> steps step s [e, f, g] v"
  by auto

lemma steps_preserve:
  assumes "steps step s es t" and "P s" and "\<And>u e v. step u e v \<Longrightarrow> P u \<Longrightarrow> P v"
  shows "P t"
  using assms by (induction es arbitrary: s) auto

locale step_invariant =
  fixes step :: "'s \<Rightarrow> 'e \<Rightarrow> 's \<Rightarrow> bool" and start :: 's and inv :: "'e list \<Rightarrow> 's \<Rightarrow> bool"
  assumes at_start: "inv [] start"
    and kept: "inv es s \<Longrightarrow> step s e t \<Longrightarrow> inv (es @ [e]) t"
begin

lemma from_reached: "inv es s \<Longrightarrow> steps step s fs t \<Longrightarrow> inv (es @ fs) t"
proof (induction fs arbitrary: es s)
  case (Cons f fs)
  then obtain u where "step s f u" "steps step u fs t" by auto
  then show ?case using Cons.IH [of "es @ [f]" u] kept Cons.prems(1) by simp
qed simp

lemma holds: "steps step start es t \<Longrightarrow> inv es t"
  using from_reached [OF at_start] by simp

end

end
