(* ===== verification/Handle.thy ===== *)
theory Handle
  imports Steps
begin

text \<open>
  Ownership of packet buffers by the handles \<^verbatim>\<open>RxPacket\<close> and \<^verbatim>\<open>TxPacket\<close> of src/src/network/dpdk/packet.h, which are
  alike: construction from a buffer, move construction, move assignment, release, and the destructor that frees what is
  still owned. The program's handles are variables of a store, so that the aliasing of pointers is explicit. Buffers are
  told apart by the allocation they come from; an operation the language's rules exclude, like a use of a variable that
  does not exist, is no step.
\<close>

section \<open>The operations\<close>

text \<open>\<open>objs\<close> are the live handles with their pointers, \<open>None\<close> the null pointer; \<open>given\<close> the buffers handles were made from.\<close>

record handles =
  objs :: "nat \<Rightarrow> nat option option"
  given :: "nat set"
  freed :: "nat list"
  released :: "nat list"

datatype handle_call = Construct nat nat | Move_construct nat nat | Move_assign nat nat | Release nat | Destroy nat

fun handle_op :: "handle_call \<Rightarrow> handles \<Rightarrow> handles option" where
  "handle_op (Construct h p) s =
     (if objs s h = None \<and> p \<notin> given s then Some (s\<lparr>objs := (objs s)(h \<mapsto> Some p), given := insert p (given s)\<rparr>) else None)"
| "handle_op (Move_construct h rhs) s = (case objs s rhs of
     Some q \<Rightarrow> if objs s h = None then Some (s\<lparr>objs := (objs s)(h \<mapsto> q, rhs \<mapsto> None)\<rparr>) else None
   | None \<Rightarrow> None)"
| "handle_op (Move_assign h rhs) s = (case objs s rhs of
     Some q \<Rightarrow> if objs s h \<noteq> None then Some (s\<lparr>objs := (objs s)(h \<mapsto> q, rhs \<mapsto> None)\<rparr>) else None
   | None \<Rightarrow> None)"
| "handle_op (Release h) s = (case objs s h of
     Some q \<Rightarrow> Some (s\<lparr>objs := (objs s)(h \<mapsto> None), released := released s @ (case q of None \<Rightarrow> [] | Some p \<Rightarrow> [p])\<rparr>)
   | None \<Rightarrow> None)"
| "handle_op (Destroy h) s = (case objs s h of
     Some q \<Rightarrow> Some (s\<lparr>objs := (objs s)(h := None), freed := freed s @ (case q of None \<Rightarrow> [] | Some p \<Rightarrow> [p])\<rparr>)
   | None \<Rightarrow> None)"

definition handle_step :: "handles \<Rightarrow> handle_call \<Rightarrow> handles \<Rightarrow> bool" where
  "handle_step s e t \<longleftrightarrow> handle_op e s = Some t"

definition no_handles :: handles where
  "no_handles = \<lparr>objs = (\<lambda>_. None), given = {}, freed = [], released = []\<rparr>"

section \<open>The invariant\<close>

definition owns :: "handles \<Rightarrow> nat \<Rightarrow> nat \<Rightarrow> bool" where
  "owns s h p \<longleftrightarrow> objs s h = Some (Some p)"

definition handles_inv :: "handles \<Rightarrow> bool" where
  "handles_inv s \<longleftrightarrow>
     (\<forall>h g p. owns s h p \<and> owns s g p \<longrightarrow> h = g) \<and>
     (\<forall>h p. owns s h p \<longrightarrow> p \<in> given s \<and> p \<notin> set (freed s) \<and> p \<notin> set (released s)) \<and>
     distinct (freed s @ released s) \<and> set (freed s) \<union> set (released s) \<subseteq> given s"

lemma owns_update: "owns (s\<lparr>objs := (objs s)(h := q)\<rparr>) g p \<longleftrightarrow> (if g = h then q = Some (Some p) else owns s g p)"
  by (auto simp: owns_def)

lemma handles_inv_step: "handles_inv s \<Longrightarrow> handle_step s e t \<Longrightarrow> handles_inv t"
  unfolding handle_step_def
proof (cases e)
  case (Construct h p)
  assume "handles_inv s" "handle_op e s = Some t"
  then show "handles_inv t" by (auto simp: Construct handles_inv_def owns_def split: if_splits)
next
  case (Move_construct h g)
  assume "handles_inv s" "handle_op e s = Some t"
  then show "handles_inv t"
    by (auto simp: Move_construct handles_inv_def owns_def split: if_splits option.splits)
next
  case (Move_assign h g)
  assume "handles_inv s" "handle_op e s = Some t"
  then show "handles_inv t"
    by (auto simp: Move_assign handles_inv_def owns_def split: if_splits option.splits)
next
  case (Release h)
  assume "handles_inv s" "handle_op e s = Some t"
  then show "handles_inv t"
    by (auto simp: Release handles_inv_def owns_def split: if_splits option.splits)
next
  case (Destroy h)
  assume "handles_inv s" "handle_op e s = Some t"
  then show "handles_inv t"
    by (auto simp: Destroy handles_inv_def owns_def split: if_splits option.splits)
qed

text \<open>Nothing is lost by the other operations; an assignment loses what its target owned.\<close>

definition accounted :: "handles \<Rightarrow> bool" where
  "accounted s \<longleftrightarrow> (\<forall>p \<in> given s. (\<exists>h. owns s h p) \<or> p \<in> set (freed s) \<or> p \<in> set (released s))"

definition is_assignment :: "handle_call \<Rightarrow> bool" where
  "is_assignment e = (case e of Move_assign _ _ \<Rightarrow> True | _ \<Rightarrow> False)"

interpretation ownership: step_invariant handle_step no_handles "\<lambda>_. handles_inv"
proof
  show "handles_inv no_handles" by (simp add: handles_inv_def no_handles_def owns_def)
qed (rule handles_inv_step)

lemma accounted_kept:
  assumes "accounted s" and "given t = given s" and "set (freed s) \<subseteq> set (freed t)" and "set (released s) \<subseteq> set (released t)"
    and kept: "\<And>k p. owns s k p \<Longrightarrow> (\<exists>k'. owns t k' p) \<or> p \<in> set (freed t) \<or> p \<in> set (released t)"
  shows "accounted t"
  unfolding accounted_def
proof
  fix p assume "p \<in> given t"
  then consider k where "owns s k p" | "p \<in> set (freed s)" | "p \<in> set (released s)"
    using assms(1,2) by (auto simp: accounted_def)
  then show "(\<exists>h. owns t h p) \<or> p \<in> set (freed t) \<or> p \<in> set (released t)"
    using kept assms(3,4) by cases auto
qed

lemma accounted_step:
  assumes "accounted s" and "handle_step s e t" and "\<not> is_assignment e"
  shows "accounted t"
proof (cases e)
  case (Construct h p)
  then show ?thesis using assms by (force simp: handle_step_def accounted_def owns_def split: if_splits)
next
  case (Move_construct h g)
  then obtain q where t: "objs s g = Some q" "objs s h = None" "t = s\<lparr>objs := (objs s)(h \<mapsto> q, g \<mapsto> None)\<rparr>"
    using assms(2) by (auto simp: handle_step_def split: option.splits if_splits)
  have "\<exists>k'. owns t k' p" if "owns s k p" for k p
    using that t by (intro exI [of _ "if k = g then h else k"]) (auto simp: owns_def)
  then show ?thesis by (intro accounted_kept [OF assms(1)]) (auto simp: t(3))
next
  case (Move_assign h g)
  then show ?thesis using assms(3) by (simp add: is_assignment_def)
next
  case (Release h)
  then obtain q where t: "objs s h = Some q"
      "t = s\<lparr>objs := (objs s)(h \<mapsto> None), released := released s @ (case q of None \<Rightarrow> [] | Some p \<Rightarrow> [p])\<rparr>"
    using assms(2) by (auto simp: handle_step_def split: option.splits)
  have "owns t k p \<or> p \<in> set (released t)" if "owns s k p" for k p using that t by (auto simp: owns_def)
  then show ?thesis by (intro accounted_kept [OF assms(1)]) (auto simp: t(2))
next
  case (Destroy h)
  then obtain q where t: "objs s h = Some q"
      "t = s\<lparr>objs := (objs s)(h := None), freed := freed s @ (case q of None \<Rightarrow> [] | Some p \<Rightarrow> [p])\<rparr>"
    using assms(2) by (auto simp: handle_step_def split: option.splits)
  have "owns t k p \<or> p \<in> set (freed t)" if "owns s k p" for k p using that t by (auto simp: owns_def)
  then show ?thesis by (intro accounted_kept [OF assms(1)]) (auto simp: t(2))
qed

lemma accounted_run:
  "steps handle_step s es t \<Longrightarrow> accounted s \<Longrightarrow> list_all (Not \<circ> is_assignment) es \<Longrightarrow> accounted t"
  by (induction es arbitrary: s) (auto dest: accounted_step)

text \<open>A move assignment onto a handle that owns a buffer: nobody owns that buffer any more, and nobody freed it.\<close>

lemma assignment_leaks:
  assumes "handles_inv s" and "owns s h p" and "objs s g = Some q" and "g \<noteq> h"
  shows "\<exists>t. handle_step s (Move_assign h g) t \<and> p \<in> given t \<and> p \<notin> set (freed t) \<and> p \<notin> set (released t) \<and> (\<forall>k. \<not> owns t k p)"
  using assms by (auto simp: handle_step_def handles_inv_def owns_def split: option.splits)

section \<open>Properties\<close>

text \<open>
  C16: Whatever a program does with its packet handles, no two own the same buffer, no buffer is freed or given away
  twice, and none that was is still owned. Without move assignments no buffer is lost either: each one is owned, freed
  or given away.
\<close>

theorem handles_own_uniquely:
  assumes "steps handle_step no_handles es t"
  shows "(\<forall>h g p. owns t h p \<and> owns t g p \<longrightarrow> h = g) \<and> distinct (freed t @ released t) \<and>
    (\<forall>h p. owns t h p \<longrightarrow> p \<notin> set (freed t) \<and> p \<notin> set (released t)) \<and>
    (list_all (Not \<circ> is_assignment) es \<longrightarrow>
       (\<forall>p \<in> given t. (\<exists>h. owns t h p) \<or> p \<in> set (freed t) \<or> p \<in> set (released t)))"
proof -
  have "accounted no_handles" by (simp add: accounted_def no_handles_def)
  then show ?thesis using ownership.holds [OF assms] accounted_run [OF assms]
    unfolding handles_inv_def accounted_def by blast
qed

theorem handles_own_uniquely_witness:
  "\<exists>t. steps handle_step no_handles [Construct 0 7, Move_construct 1 0, Destroy 0, Destroy 1] t \<and> distinct (freed t @ released t) \<and> freed t = [7]"
proof -
  obtain t where t: "steps handle_step no_handles [Construct 0 7, Move_construct 1 0, Destroy 0, Destroy 1] t" "freed t = [7]"
    by (auto simp: handle_step_def no_handles_def)
  then show ?thesis using handles_own_uniquely [OF t(1)] by blast
qed

end
