(* ===== verification/Master_Service.thy ===== *)
theory Master_Service
  imports Dpdk_Setup
begin

unbundle bit_operations_syntax

text \<open>
  The DPDK master service of src/src/network/dpdk/master_serivce.cpp: the process that configures every port, fills
  the table by which the card spreads the flows over the two receive queues, and takes everything down again.

  DPDK is outside the program. Every call to it is a value of \<open>port_call\<close>, the state keeps the calls in their order,
  and the parameter \<open>port_env\<close> answers each from the calls before it: the answers are arbitrary, and what the program
  asks for, and in which order, is what the theorems speak of. Log lines have no effect and are left out, but the
  reads their arguments perform are kept.
\<close>

section \<open>The calls\<close>

text \<open>\<^verbatim>\<open>rte_eth_rss_reta_entry64\<close>: 64 entries of the redirection table, and the mask of those that are meant.\<close>

record reta_entry64 =
  re_mask :: u64
  re_reta :: "u16 list"

definition RTE_ETH_RETA_GROUP_SIZE :: nat where
  "RTE_ETH_RETA_GROUP_SIZE = 64"

record dev_info =
  max_rx_queues :: u16
  max_tx_queues :: u16
  reta_size :: u16
  flow_type_rss_offloads :: u64

datatype rss_type = RSS_IP | RSS_TCP | RSS_UDP | RSS_NONFRAG_IPV4_UDP | RSS_NONFRAG_IPV4_TCP
  | RSS_NONFRAG_IPV6_UDP | RSS_NONFRAG_IPV6_TCP

text \<open>The two fields of \<^verbatim>\<open>rte_eth_conf\<close> the code sets; the others stay zero.\<close>

record eth_conf =
  mq_rss :: bool
  rss_hf :: u64

type_synonym mempool = nat

datatype port_call =
    Eal_init "string list"
  | Dev_info_get u16
  | Dev_configure u16 u16 u16 eth_conf
  | Adjust_nb_rx_tx_desc u16 u16 u16
  | Pool_create string nat nat nat u16
  | Rx_queue_setup u16 u16 u16 mempool
  | Tx_queue_setup u16 u16 u16
  | Dev_start u16
  | Promiscuous_enable u16
  | Reta_update u16 "reta_entry64 list" u16
  | Reta_query u16 "reta_entry64 list" u16
  | Dev_stop u16
  | Dev_close u16
  | Mempool_free mempool
  | Eal_cleanup

text \<open>
  The answers: return codes, and what the calls write through their pointers. The socket numbers and the default queue
  configurations, which the code takes from DPDK and hands back to it unread, are left out of the calls; the table a
  query reads back goes to the log only.
\<close>

record port_env =
  return_code :: "port_call list \<Rightarrow> port_call \<Rightarrow> int"
  ports_avail :: "u16 list"
  info_of :: "u16 \<Rightarrow> dev_info"
  desc_of :: "port_call list \<Rightarrow> u16 \<Rightarrow> u16 \<times> u16"
  pool_of :: "port_call list \<Rightarrow> port_call \<Rightarrow> mempool option"
  rss_flag :: "rss_type \<Rightarrow> u64"
  RTE_MBUF_DEFAULT_BUF_SIZE :: u16

record master =
  mbuf_pools :: "mempool option list"
  port_ids :: "u16 list"
  calls :: "port_call list"

definition Master_new :: master where
  "Master_new = \<lparr>mbuf_pools = replicate 32 None, port_ids = [], calls = []\<rparr>"

definition call :: "port_env \<Rightarrow> port_call \<Rightarrow> (master, int) prog" where
  "call env c = bindM (gets (\<lambda>s. return_code env (calls s) c)) (\<lambda>rc.
     thenM (modify (\<lambda>s. s\<lparr>calls := calls s @ [c]\<rparr>)) (ret rc))"

text \<open>
  \<^verbatim>\<open>REQUIRE_EQ(call, 0, message)\<close>: the macro names its first argument again in the log line of the failure, so a call that
  failed is made a second time before the exception.
\<close>

definition require_ok :: "port_env \<Rightarrow> port_call \<Rightarrow> string \<Rightarrow> (master, unit) prog" where
  "require_ok env c msg = bindM (call env c) (\<lambda>rc.
     if rc = 0 then ret () else thenM (call env c) (throw (Runtime_error msg)))"

section \<open>The redirection table\<close>

definition set_reta :: "nat \<Rightarrow> u16 \<Rightarrow> reta_entry64 \<Rightarrow> reta_entry64" where
  "set_reta pos queue e = e\<lparr>re_mask := re_mask e OR push_bit pos 1, re_reta := (re_reta e)[pos := queue]\<rparr>"

definition reta_target :: "u16 \<Rightarrow> u16 \<Rightarrow> nat \<Rightarrow> u16" where
  "reta_target sz nb_rx_queues i = (if i < unat sz div unat nb_rx_queues then 0 else 1)"

function fill_reta :: "u16 \<Rightarrow> u16 \<Rightarrow> u16 \<Rightarrow> reta_entry64 list \<Rightarrow> error + reta_entry64 list" where
  "fill_reta i sz nb_rx_queues conf =
     (if i < sz
      then let reta_idx = unat i div RTE_ETH_RETA_GROUP_SIZE; reta_pos = unat i mod RTE_ETH_RETA_GROUP_SIZE in
        if reta_idx < length conf
        then fill_reta (i + 1) sz nb_rx_queues
          (conf[reta_idx := set_reta reta_pos (reta_target sz nb_rx_queues (unat i)) (conf ! reta_idx)])
        else Inl (Undefined_behaviour ''vector index'')
      else Inr conf)"
  by pat_completeness auto

termination fill_reta
  by (relation "measure (\<lambda>(i, sz, _). unat sz - unat i)") (auto intro: step_less_measure)

declare fill_reta.simps [simp del]

definition reta_conf_size :: "u16 \<Rightarrow> nat" where
  "reta_conf_size sz = (unat sz + RTE_ETH_RETA_GROUP_SIZE - 1) div RTE_ETH_RETA_GROUP_SIZE"

definition reta_zero :: reta_entry64 where
  "reta_zero = \<lparr>re_mask = 0, re_reta = replicate RTE_ETH_RETA_GROUP_SIZE 0\<rparr>"

definition configure_reta :: "port_env \<Rightarrow> u16 \<Rightarrow> dev_info \<Rightarrow> u16 \<Rightarrow> (master, unit) prog" where
  "configure_reta env port_id info nb_rx_queues =
     (let n = reta_conf_size (reta_size info) in
      case fill_reta 0 (reta_size info) nb_rx_queues (replicate n reta_zero) of
        Inl e \<Rightarrow> throw e
      | Inr reta_conf \<Rightarrow>
          thenM (require_ok env (Reta_update port_id reta_conf (reta_size info))
            (''Failed to update RETA for port '' @ nat_digits (unat port_id)))
          (bindM (call env (Reta_query port_id (replicate n (reta_zero\<lparr>re_mask := - 1\<rparr>)) (reta_size info))) (\<lambda>rc.
           if rc = 0 then defined_if (3 < n) ''vector index'' else ret ())))"

section \<open>Ports\<close>

definition rss_requested :: "port_env \<Rightarrow> u64" where
  "rss_requested env = rss_flag env RSS_IP OR rss_flag env RSS_TCP OR rss_flag env RSS_UDP OR
     rss_flag env RSS_NONFRAG_IPV4_UDP OR rss_flag env RSS_NONFRAG_IPV4_TCP OR
     rss_flag env RSS_NONFRAG_IPV6_UDP OR rss_flag env RSS_NONFRAG_IPV6_TCP"

definition port_conf :: "port_env \<Rightarrow> dev_info \<Rightarrow> u16 \<Rightarrow> eth_conf" where
  "port_conf env info nb_rx_queues =
     (if nb_rx_queues > 1 then \<lparr>mq_rss = True, rss_hf = rss_requested env AND flow_type_rss_offloads info\<rparr>
      else \<lparr>mq_rss = False, rss_hf = 0\<rparr>)"

definition queue_ids :: "u16 \<Rightarrow> u16 list" where
  "queue_ids n = map of_nat [0..<unat n]"

definition queue_error :: "string \<Rightarrow> u16 \<Rightarrow> u16 \<Rightarrow> string" where
  "queue_error kind queue_id port_id =
     ''Failed to setup '' @ kind @ '' queue '' @ nat_digits (unat queue_id) @ '' on port '' @ nat_digits (unat port_id)"

definition create_pool :: "port_env \<Rightarrow> nat \<Rightarrow> u16 \<Rightarrow> (master, mempool) prog" where
  "create_pool env i port_id =
     (let c = Pool_create (''pool_'' @ nat_digits (unat port_id)) 16384 256 0 (RTE_MBUF_DEFAULT_BUF_SIZE env) in
      bindM (gets (\<lambda>s. pool_of env (calls s) c)) (\<lambda>pool.
      thenM (call env c)
      (thenM (defined_if (i < 32) ''array index'')
      (thenM (modify (\<lambda>s. s\<lparr>mbuf_pools := (mbuf_pools s)[i := pool]\<rparr>))
      (thenM (require (pool \<noteq> None) '''') (ret (the pool)))))))"

definition setup_queues :: "port_env \<Rightarrow> u16 \<Rightarrow> u16 \<Rightarrow> u16 \<Rightarrow> u16 \<Rightarrow> u16 \<Rightarrow> mempool \<Rightarrow> (master, unit) prog" where
  "setup_queues env port_id nb_rx_queues nb_tx_queues nb_rxd nb_txd pool =
     thenM (foreach (\<lambda>q. require_ok env (Rx_queue_setup port_id q nb_rxd pool) (queue_error ''RX'' q port_id)) (queue_ids nb_rx_queues))
     (foreach (\<lambda>q. require_ok env (Tx_queue_setup port_id q nb_txd) (queue_error ''TX'' q port_id)) (queue_ids nb_tx_queues))"

definition start_port :: "port_env \<Rightarrow> u16 \<Rightarrow> dev_info \<Rightarrow> u16 \<Rightarrow> (master, unit) prog" where
  "start_port env port_id info nb_rx_queues =
     thenM (require_ok env (Dev_start port_id) '''')
     (thenM (if nb_rx_queues > 1 then thenM (call env (Promiscuous_enable port_id)) (ret ()) else ret ())
     (thenM (if nb_rx_queues > 1 then configure_reta env port_id info nb_rx_queues else ret ())
     (modify (\<lambda>s. s\<lparr>port_ids := port_ids s @ [port_id]\<rparr>))))"

definition init_port :: "port_env \<Rightarrow> nat \<Rightarrow> u16 \<Rightarrow> (master, unit) prog" where
  "init_port env i port_id =
     (let info = info_of env port_id in
     thenM (require_ok env (Dev_info_get port_id) '''')
     (let nb_rx_queues = min 2 (max_rx_queues info); nb_tx_queues = min 2 (max_tx_queues info) in
      thenM (require_ok env (Dev_configure port_id nb_rx_queues nb_tx_queues (port_conf env info nb_rx_queues)) '''')
      (bindM (gets (\<lambda>s. desc_of env (calls s) port_id)) (\<lambda>desc.
       thenM (require_ok env (Adjust_nb_rx_tx_desc port_id 512 512) '''')
       (bindM (create_pool env i port_id) (\<lambda>pool.
        thenM (setup_queues env port_id nb_rx_queues nb_tx_queues (fst desc) (snd desc) pool)
        (start_port env port_id info nb_rx_queues)))))))"

fun init_ports :: "port_env \<Rightarrow> nat \<Rightarrow> u16 list \<Rightarrow> (master, unit) prog" where
  "init_ports env i [] = ret ()"
| "init_ports env i (port_id # ports) = thenM (init_port env i port_id) (init_ports env (i + 1) ports)"

definition Master_init :: "port_env \<Rightarrow> (master, unit) prog" where
  "Master_init env =
     thenM (require_ok env (Eal_init [''dpdk_primary -l 0 --proc-type=primary'']) '''')
     (init_ports env 0 (ports_avail env))"

definition close_port :: "port_env \<Rightarrow> nat \<Rightarrow> u16 \<Rightarrow> (master, unit) prog" where
  "close_port env i port_id =
     thenM (call env (Dev_stop port_id))
     (thenM (call env (Dev_close port_id))
     (thenM (defined_if (i < 32) ''array index'')
     (bindM (gets (\<lambda>s. mbuf_pools s ! i)) (\<lambda>pool. case pool of
        None \<Rightarrow> ret ()
      | Some m \<Rightarrow> thenM (call env (Mempool_free m)) (ret ())))))"

fun close_ports :: "port_env \<Rightarrow> nat \<Rightarrow> u16 list \<Rightarrow> (master, unit) prog" where
  "close_ports env i [] = ret ()"
| "close_ports env i (port_id # ports) = thenM (close_port env i port_id) (close_ports env (i + 1) ports)"

definition Master_delete :: "port_env \<Rightarrow> (master, unit) prog" where
  "Master_delete env = bindM (gets port_ids) (\<lambda>ports.
     thenM (close_ports env 0 ports) (thenM (call env Eal_cleanup) (ret ())))"

section \<open>The table that is written\<close>

text \<open>Entry \<open>k\<close> of the whole table: whether its mask bit is set, and its queue.\<close>

definition reta_at :: "reta_entry64 list \<Rightarrow> nat \<Rightarrow> bool \<times> u16" where
  "reta_at conf k = (bit (re_mask (conf ! (k div 64))) (k mod 64), re_reta (conf ! (k div 64)) ! (k mod 64))"

definition reta_wf :: "reta_entry64 list \<Rightarrow> bool" where
  "reta_wf conf \<longleftrightarrow> list_all (\<lambda>e. length (re_reta e) = 64) conf"

lemma reta_wf_replicate [simp]: "reta_wf (replicate n reta_zero)"
  by (simp add: reta_wf_def reta_zero_def RTE_ETH_RETA_GROUP_SIZE_def list_all_length)

lemma reta_wf_update [simp]: "reta_wf conf \<Longrightarrow> i < length conf \<Longrightarrow> reta_wf (conf[i := set_reta p q (conf ! i)])"
  by (auto simp: reta_wf_def list_all_length set_reta_def nth_list_update)

lemma reta_at_zero: "k < 64 * n \<Longrightarrow> reta_at (replicate n reta_zero) k = (False, 0)"
  by (simp add: reta_at_def reta_zero_def RTE_ETH_RETA_GROUP_SIZE_def less_mult_imp_div_less mult.commute)

lemma reta_at_update:
  assumes "reta_wf conf" and "i div 64 < length conf"
  shows "reta_at (conf[i div 64 := set_reta (i mod 64) q (conf ! (i div 64))]) k =
    (if k = i then (True, q) else reta_at conf k)"
proof (cases "k div 64 = i div 64")
  case True
  then have "k = i \<longleftrightarrow> k mod 64 = i mod 64" by (metis div_mult_mod_eq)
  moreover have "length (re_reta (conf ! (i div 64))) = 64" using assms by (simp add: reta_wf_def list_all_length)
  ultimately show ?thesis using True assms(2)
    by (auto simp: reta_at_def set_reta_def nth_list_update bit_or_iff bit_exp_iff)
next
  case False
  then show ?thesis by (auto simp: reta_at_def)
qed

lemma fill_reta_table:
  assumes "reta_wf conf" and "unat sz \<le> 64 * length conf"
  shows "\<exists>conf'. fill_reta i sz nb conf = Inr conf' \<and> length conf' = length conf \<and> reta_wf conf' \<and>
    (\<forall>k. reta_at conf' k = (if unat i \<le> k \<and> k < unat sz then (True, reta_target sz nb k) else reta_at conf k))"
  using assms
proof (induction i sz nb conf rule: fill_reta.induct)
  case (1 i sz nb conf)
  show ?case
  proof (cases "i < sz")
    case False
    then show ?thesis using "1.prems" by (subst fill_reta.simps) (auto simp: word_less_nat_alt)
  next
    case True
    define conf1 where "conf1 = conf[unat i div 64 := set_reta (unat i mod 64) (reta_target sz nb (unat i)) (conf ! (unat i div 64))]"
    have lt: "unat i < unat sz" using True by (simp add: word_less_nat_alt)
    then have idx: "unat i div 64 < length conf" using "1.prems"(2) by (simp add: less_mult_imp_div_less mult.commute)
    have wf1: "reta_wf conf1" "length conf1 = length conf" using "1.prems"(1) idx by (simp_all add: conf1_def)
    have at1: "reta_at conf1 k = (if k = unat i then (True, reta_target sz nb k) else reta_at conf k)" for k
      using reta_at_update [OF "1.prems"(1) idx] by (simp add: conf1_def)
    have "fill_reta i sz nb conf = fill_reta (i + 1) sz nb conf1"
      using True idx by (subst fill_reta.simps) (simp add: conf1_def RTE_ETH_RETA_GROUP_SIZE_def Let_def)
    moreover obtain conf' where c: "fill_reta (i + 1) sz nb conf1 = Inr conf'" "length conf' = length conf1" "reta_wf conf'"
      "\<forall>k. reta_at conf' k = (if unat (i + 1) \<le> k \<and> k < unat sz then (True, reta_target sz nb k) else reta_at conf1 k)"
      using "1.IH" [OF True refl refl] idx wf1 "1.prems"(2) by (auto simp: RTE_ETH_RETA_GROUP_SIZE_def conf1_def)
    ultimately show ?thesis using wf1 lt
      by (intro exI [of _ conf']) (auto simp: at1 unat_step [OF True])
  qed
qed

lemma le_groups: "(n::nat) \<le> 64 * ((n + 64 - 1) div 64)"
  by presburger

lemma unat_le_groups: "unat sz \<le> 64 * reta_conf_size sz"
  unfolding reta_conf_size_def RTE_ETH_RETA_GROUP_SIZE_def by (rule le_groups)

definition reta_table :: "u16 \<Rightarrow> u16 \<Rightarrow> reta_entry64 list" where
  "reta_table sz nb = projr (fill_reta 0 sz nb (replicate (reta_conf_size sz) reta_zero))"

lemma fill_reta_all:
  "fill_reta 0 sz nb (replicate (reta_conf_size sz) reta_zero) = Inr (reta_table sz nb)"
  "length (reta_table sz nb) = reta_conf_size sz"
  "k < 64 * reta_conf_size sz \<Longrightarrow>
     reta_at (reta_table sz nb) k = (if k < unat sz then (True, reta_target sz nb k) else (False, 0))"
  using fill_reta_table [of "replicate (reta_conf_size sz) reta_zero" sz 0 nb] unat_le_groups [of sz]
  by (auto simp: reta_table_def reta_at_zero)

section \<open>The calls of a set-up\<close>

text \<open>What DPDK answered for a port, and the calls the set-up of that port consists of.\<close>

record port_setup =
  ps_port :: u16
  ps_info :: dev_info
  ps_rxd :: u16
  ps_txd :: u16
  ps_pool :: mempool

definition ps_rx_queues :: "port_setup \<Rightarrow> u16" where
  "ps_rx_queues c = min 2 (max_rx_queues (ps_info c))"

definition ps_tx_queues :: "port_setup \<Rightarrow> u16" where
  "ps_tx_queues c = min 2 (max_tx_queues (ps_info c))"

definition reta_calls :: "port_setup \<Rightarrow> port_call list" where
  "reta_calls c = (let sz = reta_size (ps_info c) in
     [Reta_update (ps_port c) (reta_table sz (ps_rx_queues c)) sz,
      Reta_query (ps_port c) (replicate (reta_conf_size sz) (reta_zero\<lparr>re_mask := - 1\<rparr>)) sz])"

definition port_script :: "port_env \<Rightarrow> port_setup \<Rightarrow> port_call list" where
  "port_script env c =
     [Dev_info_get (ps_port c),
      Dev_configure (ps_port c) (ps_rx_queues c) (ps_tx_queues c) (port_conf env (ps_info c) (ps_rx_queues c)),
      Adjust_nb_rx_tx_desc (ps_port c) 512 512,
      Pool_create (''pool_'' @ nat_digits (unat (ps_port c))) 16384 256 0 (RTE_MBUF_DEFAULT_BUF_SIZE env)] @
     map (\<lambda>q. Rx_queue_setup (ps_port c) q (ps_rxd c) (ps_pool c)) (queue_ids (ps_rx_queues c)) @
     map (\<lambda>q. Tx_queue_setup (ps_port c) q (ps_txd c)) (queue_ids (ps_tx_queues c)) @
     [Dev_start (ps_port c)] @
     (if ps_rx_queues c > 1 then Promiscuous_enable (ps_port c) # reta_calls c else [])"

definition close_script :: "port_setup \<Rightarrow> port_call list" where
  "close_script c = [Dev_stop (ps_port c), Dev_close (ps_port c), Mempool_free (ps_pool c)]"

definition port_opened :: "port_env \<Rightarrow> port_setup \<Rightarrow> nat \<Rightarrow> master \<Rightarrow> master" where
  "port_opened env c i s = s\<lparr>mbuf_pools := (mbuf_pools s)[i := Some (ps_pool c)],
     calls := calls s @ port_script env c, port_ids := port_ids s @ [ps_port c]\<rparr>"

lemma wp_call [wp_simps]:
  "wp (call env c) Q E s = Q (return_code env (calls s) c) (s\<lparr>calls := calls s @ [c]\<rparr>)"
  by (simp add: call_def wp_simps)

lemma wp_require_ok [wp_simps]:
  "wp (require_ok env c msg) Q E s =
     (if return_code env (calls s) c = 0 then Q () (s\<lparr>calls := calls s @ [c]\<rparr>)
      else E (Runtime_error msg) (s\<lparr>calls := calls s @ [c, c]\<rparr>))"
  by (simp add: require_ok_def wp_simps)

lemma wp_require_all:
  assumes "\<And>e t. E e t" and "Q () (s\<lparr>calls := calls s @ map f xs\<rparr>)"
  shows "wp (foreach (\<lambda>x. require_ok env (f x) (m x)) xs) Q E s"
  using assms by (induction xs arbitrary: s) (auto simp: wp_simps)

lemma wp_configure_reta:
  assumes "\<And>e t. E e t"
    and "Q () (s\<lparr>calls := calls s @ reta_calls c\<rparr>)" and "nb = ps_rx_queues c" and "info = ps_info c" and "port = ps_port c"
  shows "wp (configure_reta env port info nb) Q E s"
  using assms by (simp add: configure_reta_def fill_reta_all(1) Let_def wp_simps reta_calls_def)

lemma wp_create_pool:
  assumes "\<And>e t. E e t"
    and "\<And>pool. i < 32 \<Longrightarrow> Q pool (s\<lparr>calls := calls s @
      [Pool_create (''pool_'' @ nat_digits (unat port)) 16384 256 0 (RTE_MBUF_DEFAULT_BUF_SIZE env)],
      mbuf_pools := (mbuf_pools s)[i := Some pool]\<rparr>)"
  shows "wp (create_pool env i port) Q E s"
  using assms by (auto simp: create_pool_def wp_simps Let_def)

lemma wp_setup_queues:
  assumes "\<And>e t. E e t"
    and "Q () (s\<lparr>calls := calls s @ map (\<lambda>q. Rx_queue_setup port q rxd pool) (queue_ids nrx) @
      map (\<lambda>q. Tx_queue_setup port q txd) (queue_ids ntx)\<rparr>)"
  shows "wp (setup_queues env port nrx ntx rxd txd pool) Q E s"
  unfolding setup_queues_def wp_simps using assms by (intro wp_require_all) simp_all

lemma wp_start_port:
  assumes "\<And>e t. E e t"
    and "Q () (s\<lparr>calls := calls s @ Dev_start port # (if nb > 1 then Promiscuous_enable port # reta_calls c else []),
      port_ids := port_ids s @ [port]\<rparr>)" and "nb = ps_rx_queues c" and "info = ps_info c" and "port = ps_port c"
  shows "wp (start_port env port info nb) Q E s"
  using assms by (auto simp: start_port_def wp_simps intro!: wp_configure_reta)

lemma wp_init_port:
  assumes E: "\<And>e t. E e t"
    and Q: "\<And>c. i < 32 \<Longrightarrow> ps_port c = port \<Longrightarrow> ps_info c = info_of env port \<Longrightarrow> Q () (port_opened env c i s)"
  shows "wp (init_port env i port) Q E s"
proof -
  define info where "info = info_of env port"
  define conf where "conf = Dev_configure port (min 2 (max_rx_queues info)) (min 2 (max_tx_queues info))
    (port_conf env info (min 2 (max_rx_queues info)))"
  define desc where "desc = desc_of env (calls s @ [Dev_info_get port, conf]) port"
  define c where "c pool = \<lparr>ps_port = port, ps_info = info, ps_rxd = fst desc, ps_txd = snd desc, ps_pool = pool\<rparr>" for pool
  show ?thesis
    unfolding init_port_def Let_def wp_simps
    apply (simp add: E info_def [symmetric] conf_def [symmetric] desc_def [symmetric])
    apply (intro impI wp_create_pool wp_setup_queues E)
    subgoal for pool
      apply (rule wp_start_port [where c = "c pool"], rule E)
      using Q [of "c pool"]
      apply (simp_all add: port_opened_def port_script_def ps_rx_queues_def ps_tx_queues_def c_def conf_def info_def split: if_splits)
      done
    done
qed

lemma wp_init_ports:
  assumes E: "\<And>e t. E e t"
    and Q: "\<And>cs :: port_setup list. map ps_port cs = ports \<Longrightarrow> map ps_info cs = map (info_of env) ports \<Longrightarrow> i + length ports \<le> max i 32 \<Longrightarrow>
      Q () (fold (\<lambda>(k, c). port_opened env c k) (enumerate i cs) s)"
  shows "wp (init_ports env i ports) Q E s"
  using Q
proof (induction ports arbitrary: i s)
  case Nil
  then show ?case by (simp add: wp_simps)
next
  case (Cons port ports)
  show ?case
    unfolding init_ports.simps wp_simps
  proof (rule wp_init_port, rule E, rule Cons.IH)
    fix c :: port_setup and cs :: "port_setup list" assume "i < 32" "ps_port c = port" "ps_info c = info_of env port"
      "map ps_port cs = ports" "map ps_info cs = map (info_of env) ports" "i + 1 + length ports \<le> max (i + 1) 32"
    then show "Q () (fold (\<lambda>(k, c). port_opened env c k) (enumerate (i + 1) cs) (port_opened env c i s))"
      using Cons.prems [of "c # cs"] by simp
  qed
qed

lemma opened_all:
  assumes "i + length cs \<le> length (mbuf_pools s)"
  shows "fold (\<lambda>(k, c). port_opened env c k) (enumerate i cs) s =
    s\<lparr>mbuf_pools := take i (mbuf_pools s) @ map (Some \<circ> ps_pool) cs @ drop (i + length cs) (mbuf_pools s),
      calls := calls s @ concat (map (port_script env) cs), port_ids := port_ids s @ map ps_port cs\<rparr>"
  using assms
proof (induction cs arbitrary: i s)
  case (Cons c cs)
  then show ?case
    by (simp add: port_opened_def take_Suc_conv_app_nth [of i] drop_update_cancel nth_list_update)
qed simp

lemma close_all:
  assumes "i + length cs \<le> 32" and "take (length cs) (drop i (mbuf_pools s)) = map (Some \<circ> ps_pool) cs"
    and "length (mbuf_pools s) = 32"
  shows "close_ports env i (map ps_port cs) s = (Inr (), s\<lparr>calls := calls s @ concat (map close_script cs)\<rparr>)"
  using assms
proof (induction cs arbitrary: i s)
  case Nil
  then show ?case by (simp add: ret_def)
next
  case (Cons c cs)
  have i: "i < length (mbuf_pools s)" using Cons.prems by simp
  then have "mbuf_pools s ! i = Some (ps_pool c)" and rest: "take (length cs) (drop (i + 1) (mbuf_pools s)) = map (Some \<circ> ps_pool) cs"
    using Cons.prems(2) by (simp_all add: Cons_nth_drop_Suc [symmetric])
  then have "close_port env i (ps_port c) s = (Inr (), s\<lparr>calls := calls s @ close_script c\<rparr>)"
    using Cons.prems(1) by (simp add: close_port_def call_def prog_defs close_script_def)
  then show ?case using Cons.IH [of "i + 1" "s\<lparr>calls := calls s @ close_script c\<rparr>"] rest Cons.prems(1,3)
    by (simp add: thenM_def bindM_def)
qed

section \<open>A set-up where every call succeeds\<close>

definition env_succeeds :: "port_env \<Rightarrow> bool" where
  "env_succeeds env \<longleftrightarrow> (\<forall>h c. return_code env h c = 0) \<and> (\<forall>h c. pool_of env h c \<noteq> None)"

text \<open>The ports the samples of the read-back can be taken from, or for which none are taken.\<close>

definition samples_exist :: "port_env \<Rightarrow> u16 \<Rightarrow> bool" where
  "samples_exist env port \<longleftrightarrow> max_rx_queues (info_of env port) < 2 \<or> 192 < unat (reta_size (info_of env port))"

lemma four_groups: "3 < ((n::nat) + 64 - 1) div 64 \<longleftrightarrow> 192 < n"
  using less_eq_div_iff_mult_less_eq [of 64 4 "n + 64 - 1"] by auto

lemma samples_conf_size: "3 < reta_conf_size sz \<longleftrightarrow> 192 < unat sz"
  unfolding reta_conf_size_def RTE_ETH_RETA_GROUP_SIZE_def by (rule four_groups)

lemma two_queues: "1 < (n :: u16) \<longleftrightarrow> \<not> n < 2"
  by (auto simp: word_less_nat_alt)

lemma wp_require_all_succeeds:
  assumes "env_succeeds env"
  shows "wp (foreach (\<lambda>x. require_ok env (f x) (m x)) xs) Q E s = Q () (s\<lparr>calls := calls s @ map f xs\<rparr>)"
  using assms by (induction xs arbitrary: s) (auto simp: wp_simps env_succeeds_def)

lemma wp_init_port_succeeds:
  assumes env: "env_succeeds env" and "i < 32"
  shows "wp (init_port env i port) (\<lambda>_ _. samples_exist env port)
    (\<lambda>e _. e = Undefined_behaviour ''vector index'' \<and> \<not> samples_exist env port) s"
proof -
  have ok: "return_code env h c = 0" "\<not> Option.is_none (pool_of env h c)" "\<exists>y. pool_of env h c = Some y" for h c
    using env by (auto simp: env_succeeds_def Option.is_none_def)
  show ?thesis using \<open>i < 32\<close>
    by (simp add: init_port_def create_pool_def setup_queues_def start_port_def configure_reta_def Let_def wp_simps ok
      wp_require_all_succeeds [OF env] fill_reta_all(1) samples_conf_size samples_exist_def two_queues min_def not_less not_le)
qed

lemma wp_init_ports_succeeds:
  assumes env: "env_succeeds env" and "i + length ports \<le> 32"
  shows "wp (init_ports env i ports) (\<lambda>_ _. list_all (samples_exist env) ports)
    (\<lambda>e _. e = Undefined_behaviour ''vector index'' \<and> \<not> list_all (samples_exist env) ports) s"
  using assms(2)
proof (induction ports arbitrary: i s)
  case Nil
  then show ?case by (simp add: wp_simps)
next
  case (Cons port ports i s)
  have "wp (init_port env i port) (\<lambda>_ _. samples_exist env port)
    (\<lambda>e _. e = Undefined_behaviour ''vector index'' \<and> \<not> samples_exist env port) s"
    using Cons.prems by (intro wp_init_port_succeeds [OF env]) simp
  then show ?case unfolding init_ports.simps wp_simps
  proof (rule wp_mono)
    fix t assume "samples_exist env port"
    then show "wp (init_ports env (i + 1) ports) (\<lambda>_ _. list_all (samples_exist env) (port # ports))
        (\<lambda>e _. e = Undefined_behaviour ''vector index'' \<and> \<not> list_all (samples_exist env) (port # ports)) t"
      using Cons.IH [of "i + 1" t] Cons.prems by simp
  qed simp
qed

text \<open>A port whose set-up fails is not among the ports the destructor closes, even if it was started.\<close>

lemma init_port_failed_not_closed:
  "wp (init_port env i port) (\<lambda>_ t. port_ids t = port_ids s @ [port]) (\<lambda>_ t. port_ids t = port_ids s) s"
proof -
  have *: "wp (foreach (\<lambda>x. require_ok env (f x) (m x)) xs) Q E u"
    if "\<And>e t. port_ids t = port_ids u \<Longrightarrow> E e t" "\<And>t. port_ids t = port_ids u \<Longrightarrow> Q () t"
    for f :: "u16 \<Rightarrow> port_call" and m xs Q E u
    using that by (induction xs arbitrary: u) (auto simp: wp_simps)
  show ?thesis
    by (auto simp: init_port_def create_pool_def setup_queues_def start_port_def configure_reta_def Let_def wp_simps
      fill_reta_all(1) intro!: *)
qed

text \<open>A card with two queues and a table of 256 entries, where every call succeeds.\<close>

definition demo_port_env :: "u16 \<Rightarrow> port_env" where
  "demo_port_env sz = \<lparr>return_code = (\<lambda>_ _. 0), ports_avail = [0, 1],
     info_of = (\<lambda>_. \<lparr>max_rx_queues = 8, max_tx_queues = 8, reta_size = sz, flow_type_rss_offloads = 0x38D34\<rparr>),
     desc_of = (\<lambda>_ _. (512, 512)), pool_of = (\<lambda>h _. Some (length h)), rss_flag = (\<lambda>_. 0x10),
     RTE_MBUF_DEFAULT_BUF_SIZE = 2176\<rparr>"

lemma demo_port_env_succeeds [simp]: "env_succeeds (demo_port_env sz)" "ports_avail (demo_port_env sz) = [0, 1]"
  "samples_exist (demo_port_env sz) p \<longleftrightarrow> 192 < unat sz"
  by (simp_all add: env_succeeds_def demo_port_env_def samples_exist_def)

section \<open>Properties\<close>

text \<open>The table in detail: the entries of the first half go to queue 0, the rest to queue 1.\<close>

lemma reta_table_halves:
  "\<exists>conf. fill_reta 0 sz 2 (replicate (reta_conf_size sz) reta_zero) = Inr conf \<and>
     length conf = reta_conf_size sz \<and>
     (\<forall>k < 64 * reta_conf_size sz. reta_at conf k =
        (if k < unat sz div 2 then (True, 0) else if k < unat sz then (True, 1) else (False, 0)))"
  using fill_reta_all [where sz = sz and nb = 2] by (intro exI [of _ "reta_table sz 2"]) (auto simp: reta_target_def)

text \<open>
  C35: With two receive queues, the loop that fills the redirection table stays inside its vector for every table size
  the card can report. It marks exactly the entries of the table and leaves those behind its end unmarked; every entry
  goes to one of the two queues, and the two queues get equally many, or queue 1 one more where the size is odd.
\<close>

theorem reta_table_balanced:
  "\<exists>conf. fill_reta 0 sz 2 (replicate (reta_conf_size sz) reta_zero) = Inr conf \<and>
     length conf = reta_conf_size sz \<and>
     (\<forall>k < 64 * reta_conf_size sz. fst (reta_at conf k) \<longleftrightarrow> k < unat sz) \<and>
     (\<forall>k < unat sz. snd (reta_at conf k) \<in> {0, 1}) \<and>
     card {k. k < unat sz \<and> snd (reta_at conf k) = 0} = unat sz div 2 \<and>
     card {k. k < unat sz \<and> snd (reta_at conf k) = 1} = unat sz div 2 + unat sz mod 2"
proof -
  obtain conf where c: "fill_reta 0 sz 2 (replicate (reta_conf_size sz) reta_zero) = Inr conf" "length conf = reta_conf_size sz"
    "\<And>k. k < 64 * reta_conf_size sz \<Longrightarrow> reta_at conf k =
      (if k < unat sz div 2 then (True, 0) else if k < unat sz then (True, 1) else (False, 0))"
    using reta_table_halves [of sz] by blast
  have at: "reta_at conf k = (True, if k < unat sz div 2 then 0 else 1)" if "k < unat sz" for k
    using c(3) [of k] that unat_le_groups [of sz] by (auto split: if_splits)
  have "{k. k < unat sz \<and> snd (reta_at conf k) = 0} = {..< unat sz div 2}" using at by (auto split: if_splits)
  moreover have "{k. k < unat sz \<and> snd (reta_at conf k) = 1} = {unat sz div 2 ..< unat sz}" using at by (auto split: if_splits)
  moreover have "unat sz - unat sz div 2 = unat sz div 2 + unat sz mod 2" by presburger
  ultimately show ?thesis using c at by (intro exI [of _ conf]) auto
qed

theorem reta_table_balanced_witness:
  "\<exists>conf. fill_reta 0 128 2 (replicate 2 reta_zero) = Inr conf \<and>
     card {k. k < 128 \<and> snd (reta_at conf k) = 0} = 64 \<and> card {k. k < 128 \<and> snd (reta_at conf k) = 1} = 64"
  using reta_table_balanced [of 128] by (auto simp: reta_conf_size_def RTE_ETH_RETA_GROUP_SIZE_def)

text \<open>
  C33: When the set-up of a new master returns, the calls it made are those of every available port in turn: for each
  port its capabilities, the configuration with at most two queues of each kind, descriptors, one pool, the queues on
  that pool, the start, and only then, for two receive queues, promiscuous mode and the redirection table. The
  destructor then stops and closes each of these ports and frees its pool, once each and in the same order, and cleans
  up last. There were no more ports than the array of pools has places.
\<close>

theorem Master_calls:
  assumes "Master_init env Master_new = (Inr (), t)"
  shows "\<exists>cs u. map ps_port cs = ports_avail env \<and> map ps_info cs = map (info_of env) (ports_avail env) \<and> length cs \<le> 32 \<and>
    Master_delete env t = (Inr (), u) \<and>
    calls u = [Eal_init [''dpdk_primary -l 0 --proc-type=primary'']] @ concat (map (port_script env) cs) @
      concat (map close_script cs) @ [Eal_cleanup]"
proof -
  have "wp (Master_init env) (\<lambda>_ t. \<exists>cs u. map ps_port cs = ports_avail env \<and>
    map ps_info cs = map (info_of env) (ports_avail env) \<and> length cs \<le> 32 \<and>
    Master_delete env t = (Inr (), u) \<and>
    calls u = [Eal_init [''dpdk_primary -l 0 --proc-type=primary'']] @ concat (map (port_script env) cs) @
      concat (map close_script cs) @ [Eal_cleanup]) (\<lambda>_ _. True) Master_new"
    unfolding Master_init_def wp_simps
  proof (simp, intro impI, rule wp_init_ports)
    fix cs :: "port_setup list"
    let ?s = "Master_new\<lparr>calls := calls Master_new @ [Eal_init [''dpdk_primary -l 0 --proc-type=primary'']]\<rparr>"
    let ?t = "fold (\<lambda>(k, c). port_opened env c k) (enumerate 0 cs) ?s"
    assume cs: "map ps_port cs = ports_avail env" "map ps_info cs = map (info_of env) (ports_avail env)"
      "0 + length (ports_avail env) \<le> max 0 32"
    then have n: "length cs \<le> 32" by (metis add_0 length_map max_0L)
    then have t: "?t = ?s\<lparr>mbuf_pools := map (Some \<circ> ps_pool) cs @ replicate (32 - length cs) None,
      calls := calls ?s @ concat (map (port_script env) cs), port_ids := map ps_port cs\<rparr>"
      by (subst opened_all) (auto simp: Master_new_def)
    have "\<exists>u. Master_delete env ?t = (Inr (), u) \<and> calls u = calls ?s @ concat (map (port_script env) cs) @
        concat (map close_script cs) @ [Eal_cleanup]"
      unfolding t using n by (simp add: Master_delete_def prog_defs close_all call_def)
    then show "\<exists>cs. map ps_port cs = ports_avail env \<and> map ps_info cs = map (info_of env) (ports_avail env) \<and>
      length cs \<le> 32 \<and> (\<exists>u. Master_delete env ?t = (Inr (), u) \<and>
      calls u = Eal_init [''dpdk_primary -l 0 --proc-type=primary''] # concat (map (port_script env) cs) @
        concat (map close_script cs) @ [Eal_cleanup])"
      using cs n by (intro exI [of _ cs]) (simp add: Master_new_def)
  qed simp
  then show ?thesis using assms by (simp add: wp_def)
qed

text \<open>
  C34: On a machine with at most 32 ports where every call to DPDK succeeds, the set-up returns exactly when every port
  has a single receive queue or a redirection table of more than 192 entries; for any other port it reads the log
  samples outside the read-back vector.
\<close>

theorem Master_init_returns_iff:
  assumes "env_succeeds env" and "length (ports_avail env) \<le> 32"
  shows "fst (Master_init env Master_new) =
    (if list_all (samples_exist env) (ports_avail env) then Inr () else Inl (Undefined_behaviour ''vector index''))"
proof -
  have "wp (Master_init env) (\<lambda>_ _. list_all (samples_exist env) (ports_avail env))
    (\<lambda>e _. e = Undefined_behaviour ''vector index'' \<and> \<not> list_all (samples_exist env) (ports_avail env)) Master_new"
    unfolding Master_init_def wp_simps using wp_init_ports_succeeds [OF assms(1), of 0 "ports_avail env"] assms
    by (auto simp: env_succeeds_def)
  then show ?thesis by (auto simp: wp_def split: prod.splits sum.splits)
qed

theorem Master_init_returns_iff_witness:
  "fst (Master_init (demo_port_env 128) Master_new) = Inl (Undefined_behaviour ''vector index'') \<and>
   fst (Master_init (demo_port_env 512) Master_new) = Inr ()"
  using Master_init_returns_iff [of "demo_port_env 128"] Master_init_returns_iff [of "demo_port_env 512"] by simp

lemma demo_master_returns: "\<exists>t. Master_init (demo_port_env 512) Master_new = (Inr (), t)"
proof -
  have "wp (Master_init (demo_port_env 512)) (\<lambda>_ _. list_all (samples_exist (demo_port_env 512)) [0, 1])
    (\<lambda>e _. \<not> list_all (samples_exist (demo_port_env 512)) [0, 1]) Master_new"
    unfolding Master_init_def wp_simps
    using wp_mono [OF wp_init_ports_succeeds [OF demo_port_env_succeeds(1), of 0 "[0, 1]" 512]]
    by (simp add: demo_port_env_succeeds(1) [unfolded env_succeeds_def])
  then show ?thesis by (auto simp: wp_def split: prod.splits sum.splits)
qed

theorem Master_calls_witness:
  "\<exists>t cs u. Master_init (demo_port_env 512) Master_new = (Inr (), t) \<and> map ps_port cs = [0, 1] \<and>
    Master_delete (demo_port_env 512) t = (Inr (), u) \<and>
    calls u = [Eal_init [''dpdk_primary -l 0 --proc-type=primary'']] @ concat (map (port_script (demo_port_env 512)) cs) @
      concat (map close_script cs) @ [Eal_cleanup]"
proof -
  obtain t where "Master_init (demo_port_env 512) Master_new = (Inr (), t)" using demo_master_returns by blast
  with Master_calls [OF this] show ?thesis by (metis demo_port_env_succeeds(2))
qed

end
