(* ===== verification/Logger.thy ===== *)
theory Logger
  imports Prelude
begin

text \<open>
  The logger of src/src/base/logger (logger.cpp, loggable_component.cpp): how the process-wide logger is set up, how
  components get theirs, and the level.

  The log library's registry of sinks and loggers is outside the program; it is the parameter \<open>frontend_api\<close> over a
  world of its own. What the code relies on is the predicate \<open>frontend_ok\<close>: a logger that was created is found by its
  name, creation leaves an existing logger as it is, and a level that was set is the level read. A null pointer is
  \<open>None\<close>; a call through one is undefined. The mutex orders the two functions that take it, which are single steps here.
\<close>

section \<open>The log library\<close>

text \<open>The levels in their order.\<close>

datatype log_level = TraceL3 | TraceL2 | TraceL1 | Debug | Info | Notice | Warning | Error | Critical

datatype sink_kind = ConsoleSink | FileSink | RotatingFileSink

type_synonym sink = nat
type_synonym logger_ptr = nat

text \<open>The two patterns of the code: the second has a carriage return in front.\<close>

datatype log_format = Plain_format | Console_format

datatype log_clock = Tsc_clock | Default_clock

record logger_config =
  lc_sinks :: "sink option list"
  lc_format :: log_format
  lc_clock :: log_clock

record 'w frontend_api =
  create_or_get_sink :: "sink_kind \<Rightarrow> string \<Rightarrow> 'w \<Rightarrow> sink \<times> 'w"
  create_or_get_logger :: "string \<Rightarrow> logger_config \<Rightarrow> 'w \<Rightarrow> logger_ptr \<times> 'w"
  find_logger :: "string \<Rightarrow> 'w \<Rightarrow> logger_ptr option"
  get_all_loggers :: "'w \<Rightarrow> logger_ptr option list"
  config_of :: "logger_ptr \<Rightarrow> 'w \<Rightarrow> logger_config"
  set_log_level :: "logger_ptr \<Rightarrow> log_level \<Rightarrow> 'w \<Rightarrow> 'w"
  get_log_level :: "logger_ptr \<Rightarrow> 'w \<Rightarrow> log_level"
  remove_logger_blocking :: "logger_ptr option \<Rightarrow> 'w \<Rightarrow> 'w"
  backend_start :: "'w \<Rightarrow> 'w"
  backend_stop :: "'w \<Rightarrow> 'w"

record log_params =
  logfile :: "string option"
  metrics_root :: "string option"
  rotate :: bool

record 'w logging =
  params_opt :: "log_params option"
  log_world :: 'w

definition frontend :: "('w \<Rightarrow> 'a \<times> 'w) \<Rightarrow> ('w logging, 'a) prog" where
  "frontend f = (\<lambda>s. case f (log_world s) of (a, w) \<Rightarrow> (Inr a, s\<lparr>log_world := w\<rparr>))"

definition frontend_do :: "('w \<Rightarrow> 'w) \<Rightarrow> ('w logging, unit) prog" where
  "frontend_do f = modify (\<lambda>s. s\<lparr>log_world := f (log_world s)\<rparr>)"

definition deref :: "'a option \<Rightarrow> ('s, 'a) prog" where
  "deref p = (case p of None \<Rightarrow> throw (Undefined_behaviour ''null pointer'') | Some a \<Rightarrow> ret a)"

section \<open>The logger\<close>

definition kDefaultLogger :: string where "kDefaultLogger = ''default''"
definition kSystemLogger :: string where "kSystemLogger = ''system''"

text \<open>
  The sink of the default logger. The rotating sink is created, but the variable that holds it is a local one of its
  block, so the outer pointer stays null.
\<close>

definition select_sink ::
    "'w frontend_api \<Rightarrow> log_params \<Rightarrow> sink \<Rightarrow> ('w logging, sink option \<times> log_format) prog" where
  "select_sink fe params console = (case logfile params of
     Some file \<Rightarrow>
       if rotate params
       then bindM (frontend (create_or_get_sink fe RotatingFileSink file)) (\<lambda>file_sink. ret (None, Plain_format))
       else bindM (frontend (create_or_get_sink fe FileSink file)) (\<lambda>sink. ret (Some sink, Plain_format))
   | None \<Rightarrow> ret (Some console, Console_format))"

definition Logger_new :: "'w frontend_api \<Rightarrow> log_params \<Rightarrow> ('w logging, unit) prog" where
  "Logger_new fe params =
     bindM (frontend (create_or_get_sink fe ConsoleSink ''console'')) (\<lambda>console.
     bindM (select_sink fe params console) (\<lambda>(sink, formatter).
     bindM (frontend (create_or_get_logger fe kSystemLogger
       \<lparr>lc_sinks = [Some console], lc_format = Console_format, lc_clock = Default_clock\<rparr>)) (\<lambda>system_logger.
     bindM (frontend (create_or_get_logger fe kDefaultLogger
       \<lparr>lc_sinks = [sink], lc_format = formatter, lc_clock = Tsc_clock\<rparr>)) (\<lambda>_.
     thenM (frontend_do (backend_start fe))
     (modify (\<lambda>s. s\<lparr>params_opt := Some params\<rparr>))))))"

definition Logger_delete :: "'w frontend_api \<Rightarrow> ('w logging, unit) prog" where
  "Logger_delete fe = frontend_do (backend_stop fe)"

definition Logger_get_logger :: "'w frontend_api \<Rightarrow> ('w logging, logger_ptr option) prog" where
  "Logger_get_logger fe = gets (\<lambda>s. find_logger fe kDefaultLogger (log_world s))"

definition get_system_logger :: "'w frontend_api \<Rightarrow> ('w logging, logger_ptr option) prog" where
  "get_system_logger fe = gets (\<lambda>s. find_logger fe kSystemLogger (log_world s))"

definition remove_logger :: "'w frontend_api \<Rightarrow> logger_ptr option \<Rightarrow> ('w logging, unit) prog" where
  "remove_logger fe logger = frontend_do (remove_logger_blocking fe logger)"

definition Logger_set_level :: "'w frontend_api \<Rightarrow> log_level \<Rightarrow> ('w logging, unit) prog" where
  "Logger_set_level fe level =
     bindM (bindM (Logger_get_logger fe) deref) (\<lambda>l.
     thenM (frontend_do (set_log_level fe l level))
     (bindM (gets (\<lambda>s. get_all_loggers fe (log_world s))) (\<lambda>loggers.
      foreach (\<lambda>logger. case logger of None \<Rightarrow> ret () | Some m \<Rightarrow> frontend_do (set_log_level fe m level)) loggers)))"

definition Logger_get_level :: "'w frontend_api \<Rightarrow> ('w logging, log_level) prog" where
  "Logger_get_level fe = bindM (bindM (Logger_get_logger fe) deref) (\<lambda>l. gets (\<lambda>s. get_log_level fe l (log_world s)))"

definition get_params :: "('w logging, log_params) prog" where
  "get_params = bindM (gets params_opt) (\<lambda>p. case p of
     None \<Rightarrow> throw (Runtime_error ''Logger is not initialised.'') | Some x \<Rightarrow> ret x)"

text \<open>The logger of a component; the class \<^verbatim>\<open>LoggableComponent\<close> gets its own in the same way.\<close>

definition get_component_logger :: "'w frontend_api \<Rightarrow> string \<Rightarrow> ('w logging, logger_ptr) prog" where
  "get_component_logger fe name =
     bindM (bindM (Logger_get_logger fe) deref) (\<lambda>l.
     bindM (gets (\<lambda>s. config_of fe l (log_world s))) (\<lambda>cfg.
     bindM (frontend (create_or_get_logger fe name cfg)) (\<lambda>logger.
     bindM (Logger_get_level fe) (\<lambda>level.
     thenM (frontend_do (set_log_level fe logger level)) (ret logger)))))"

record loggable_component =
  lgc_logger :: "logger_ptr option"

definition LoggableComponent_new :: "'w frontend_api \<Rightarrow> string \<Rightarrow> ('w logging, loggable_component) prog" where
  "LoggableComponent_new fe name = bindM (get_component_logger fe name) (\<lambda>logger. ret \<lparr>lgc_logger = Some logger\<rparr>)"

definition LoggableComponent_of :: "logger_ptr option \<Rightarrow> loggable_component" where
  "LoggableComponent_of logger = \<lparr>lgc_logger = logger\<rparr>"

definition LoggableComponent_get_logger :: "loggable_component \<Rightarrow> logger_ptr option" where
  "LoggableComponent_get_logger c = lgc_logger c"

section \<open>Levels by name\<close>

text \<open>
  \<^verbatim>\<open>std::tolower\<close> of a \<^verbatim>\<open>char\<close>, which is signed: for a negative one other than -1 the call is undefined.
\<close>

definition to_lower :: "char \<Rightarrow> error + char" where
  "to_lower c = (let n = of_char c :: nat in
     if 128 \<le> n \<and> n < 255 then Inl (Undefined_behaviour ''tolower'')
     else if 65 \<le> n \<and> n \<le> 90 then Inr (char_of (n + 32)) else Inr c)"

fun lower_string :: "string \<Rightarrow> error + string" where
  "lower_string [] = Inr []"
| "lower_string (c # cs) = (case to_lower c of Inl e \<Rightarrow> Inl e
    | Inr d \<Rightarrow> (case lower_string cs of Inl e \<Rightarrow> Inl e | Inr ds \<Rightarrow> Inr (d # ds)))"

definition parse_log_level :: "string \<Rightarrow> error + log_level" where
  "parse_log_level s = (case lower_string s of Inl e \<Rightarrow> Inl e | Inr lower \<Rightarrow>
     if lower = ''trace_l3'' then Inr TraceL3
     else if lower = ''trace_l2'' then Inr TraceL2
     else if lower = ''trace_l1'' then Inr TraceL1
     else if lower = ''debug'' then Inr Debug
     else if lower = ''info'' then Inr Info
     else if lower = ''warn'' \<or> lower = ''warning'' then Inr Warning
     else if lower = ''notice'' then Inr Notice
     else if lower = ''error'' then Inr Error
     else if lower = ''critical'' then Inr Critical
     else Inl (Invalid_argument (''Invalid log level: '' @ s)))"

section \<open>What the log library promises\<close>

text \<open>What a step of the library leaves of the loggers that exist.\<close>

definition same_loggers :: "'w frontend_api \<Rightarrow> 'w \<Rightarrow> 'w \<Rightarrow> bool" where
  "same_loggers fe w w' \<longleftrightarrow> (\<forall>n. find_logger fe n w' = find_logger fe n w) \<and> get_all_loggers fe w' = get_all_loggers fe w \<and>
     (\<forall>l. config_of fe l w' = config_of fe l w)"

definition logger_created :: "'w frontend_api \<Rightarrow> string \<Rightarrow> logger_config \<Rightarrow> 'w \<Rightarrow> logger_ptr \<Rightarrow> 'w \<Rightarrow> bool" where
  "logger_created fe name cfg w l w' \<longleftrightarrow>
     (\<forall>n. find_logger fe n w' = (if n = name then Some l else find_logger fe n w)) \<and>
     (\<forall>k. find_logger fe name w = Some k \<longrightarrow> l = k) \<and>
     (find_logger fe name w = None \<longrightarrow> config_of fe l w' = cfg) \<and>
     (\<forall>n k. find_logger fe n w = Some k \<longrightarrow> config_of fe k w' = config_of fe k w \<and> get_log_level fe k w' = get_log_level fe k w)"

definition frontend_ok :: "'w frontend_api \<Rightarrow> bool" where
  "frontend_ok fe \<longleftrightarrow>
     (\<forall>kind name w. same_loggers fe w (snd (create_or_get_sink fe kind name w))) \<and>
     (\<forall>w. same_loggers fe w (backend_start fe w)) \<and>
     (\<forall>name cfg w. case create_or_get_logger fe name cfg w of (l, w') \<Rightarrow> logger_created fe name cfg w l w') \<and>
     (\<forall>l level w. same_loggers fe w (set_log_level fe l level w)) \<and>
     (\<forall>l m level w. get_log_level fe m (set_log_level fe l level w) = (if m = l then level else get_log_level fe m w)) \<and>
     (\<forall>name l w. find_logger fe name w = Some l \<longrightarrow> Some l \<in> set (get_all_loggers fe w))"

lemma wp_frontend [wp_simps]:
  "wp (frontend f) Q E s = (case f (log_world s) of (a, w) \<Rightarrow> Q a (s\<lparr>log_world := w\<rparr>))"
  by (simp add: wp_def frontend_def split: prod.splits)

lemma wp_frontend_do [wp_simps]: "wp (frontend_do f) Q E s = Q () (s\<lparr>log_world := f (log_world s)\<rparr>)"
  by (simp add: frontend_do_def wp_simps)

lemma wp_deref [wp_simps]:
  "wp (deref p) Q E = (case p of None \<Rightarrow> E (Undefined_behaviour ''null pointer'') | Some a \<Rightarrow> Q a)"
  by (cases p) (simp_all add: deref_def wp_simps)

text \<open>Setting the level of a list of loggers, one after the other.\<close>

definition set_levels :: "'w frontend_api \<Rightarrow> log_level \<Rightarrow> logger_ptr option list \<Rightarrow> ('w logging, unit) prog" where
  "set_levels fe level = foreach (\<lambda>logger. case logger of None \<Rightarrow> ret () | Some m \<Rightarrow> frontend_do (set_log_level fe m level))"

lemma frontend_okD:
  assumes "frontend_ok fe"
  shows "same_loggers fe w (set_log_level fe l level w)"
    and "get_log_level fe m (set_log_level fe l level w) = (if m = l then level else get_log_level fe m w)"
    and "find_logger fe name w = Some l \<Longrightarrow> Some l \<in> set (get_all_loggers fe w)"
    and "same_loggers fe w (backend_start fe w)"
    and "create_or_get_sink fe kind file w = (x, w') \<Longrightarrow> same_loggers fe w w'"
    and "create_or_get_logger fe name cfg w = (l, w') \<Longrightarrow> logger_created fe name cfg w l w'"
proof -
  note ok = assms [unfolded frontend_ok_def]
  show "same_loggers fe w (set_log_level fe l level w)" "same_loggers fe w (backend_start fe w)"
    "get_log_level fe m (set_log_level fe l level w) = (if m = l then level else get_log_level fe m w)"
    "find_logger fe name w = Some l \<Longrightarrow> Some l \<in> set (get_all_loggers fe w)"
    using ok by blast+
  have "same_loggers fe w (snd (create_or_get_sink fe kind file w))" using ok by blast
  then show "create_or_get_sink fe kind file w = (x, w') \<Longrightarrow> same_loggers fe w w'" by simp
  have "\<forall>name cfg w. case create_or_get_logger fe name cfg w of (l, w') \<Rightarrow> logger_created fe name cfg w l w'"
    using ok by (elim conjE)
  then have "case create_or_get_logger fe name cfg w of (l, w') \<Rightarrow> logger_created fe name cfg w l w'" by (elim allE)
  then show "create_or_get_logger fe name cfg w = (l, w') \<Longrightarrow> logger_created fe name cfg w l w'" by simp
qed

lemma same_loggersD:
  assumes "same_loggers fe w w'"
  shows "find_logger fe n w' = find_logger fe n w" and "get_all_loggers fe w' = get_all_loggers fe w"
    and "config_of fe l w' = config_of fe l w"
  using assms by (simp_all add: same_loggers_def)

lemma wp_set_levels:
  assumes fe: "frontend_ok fe"
    and Q: "\<And>w. same_loggers fe (log_world s) w \<Longrightarrow>
      (\<And>m. get_log_level fe m w = (if Some m \<in> set ls then level else get_log_level fe m (log_world s))) \<Longrightarrow>
      Q () (s\<lparr>log_world := w\<rparr>)"
  shows "wp (set_levels fe level ls) Q E s"
  using Q
proof (induction ls arbitrary: s)
  case Nil
  then show ?case using Nil [of "log_world s"] by (simp add: set_levels_def wp_simps same_loggers_def)
next
  case (Cons x ls s)
  show ?case
  proof (cases x)
    case None
    then show ?thesis using Cons.IH [of s] Cons.prems by (simp add: set_levels_def wp_simps)
  next
    case (Some l)
    let ?s = "s\<lparr>log_world := set_log_level fe l level (log_world s)\<rparr>"
    have "wp (set_levels fe level ls) Q E ?s"
    proof (rule Cons.IH)
      fix w assume w: "same_loggers fe (log_world ?s) w"
        "\<And>m. get_log_level fe m w = (if Some m \<in> set ls then level else get_log_level fe m (log_world ?s))"
      have "same_loggers fe (log_world s) w" using w(1) frontend_okD(1) [OF fe, of "log_world s" l level] by (simp add: same_loggers_def)
      then have "Q () (s\<lparr>log_world := w\<rparr>)" using w(2) Some by (intro Cons.prems) (auto simp: frontend_okD(2) [OF fe])
      then show "Q () (?s\<lparr>log_world := w\<rparr>)" by simp
    qed
    then show ?thesis using Some by (simp add: set_levels_def wp_simps)
  qed
qed

lemma same_loggers_trans: "same_loggers fe u v \<Longrightarrow> same_loggers fe v w \<Longrightarrow> same_loggers fe u w"
  by (simp add: same_loggers_def)

lemma default_created:
  assumes fe: "frontend_ok fe" and "find_logger fe kDefaultLogger w = None" and "same_loggers fe w w1"
    and "create_or_get_logger fe kSystemLogger c w1 = (a, w2)" and "create_or_get_logger fe kDefaultLogger cfg w2 = (l, w3)"
  shows "find_logger fe kDefaultLogger (backend_start fe w3) = Some l \<and> config_of fe l (backend_start fe w3) = cfg"
proof -
  have "find_logger fe kDefaultLogger w2 = None"
    using frontend_okD(6) [OF fe assms(4)] assms(2) same_loggersD(1) [OF assms(3)]
    by (simp add: logger_created_def kDefaultLogger_def kSystemLogger_def)
  then have "find_logger fe kDefaultLogger w3 = Some l \<and> config_of fe l w3 = cfg"
    using frontend_okD(6) [OF fe assms(5)] by (simp add: logger_created_def)
  then show ?thesis using frontend_okD(4) [OF fe, of w3] by (simp add: same_loggers_def)
qed

lemma set_level_cases:
  assumes "frontend_ok fe"
  shows "case find_logger fe kDefaultLogger (log_world s) of
     None \<Rightarrow> Logger_set_level fe level s = (Inl (Undefined_behaviour ''null pointer''), s)
   | Some l \<Rightarrow> \<exists>t. Logger_set_level fe level s = (Inr (), t) \<and> Logger_get_level fe t = (Inr level, t) \<and>
       same_loggers fe (log_world s) (log_world t) \<and> params_opt t = params_opt s \<and>
       (\<forall>m. Some m \<in> set (get_all_loggers fe (log_world t)) \<longrightarrow> get_log_level fe m (log_world t) = level)"
proof (cases "find_logger fe kDefaultLogger (log_world s)")
  case None
  then show ?thesis by (simp add: Logger_set_level_def Logger_get_logger_def deref_def prog_defs)
next
  case (Some l)
  let ?s = "s\<lparr>log_world := set_log_level fe l level (log_world s)\<rparr>"
  have same: "same_loggers fe (log_world s) (log_world ?s)" using frontend_okD(1) [OF assms] by simp
  have "wp (set_levels fe level (get_all_loggers fe (log_world ?s))) (\<lambda>_ t. Logger_get_level fe t = (Inr level, t) \<and>
      same_loggers fe (log_world s) (log_world t) \<and> params_opt t = params_opt s \<and>
      (\<forall>m. Some m \<in> set (get_all_loggers fe (log_world t)) \<longrightarrow> get_log_level fe m (log_world t) = level)) (\<lambda>_ _. False) ?s"
  proof (rule wp_set_levels [OF assms])
    fix w assume w: "same_loggers fe (log_world ?s) w"
      "\<And>m. get_log_level fe m w = (if Some m \<in> set (get_all_loggers fe (log_world ?s)) then level else get_log_level fe m (log_world ?s))"
    have sw: "same_loggers fe (log_world s) w" by (rule same_loggers_trans [OF same w(1)])
    then have l: "find_logger fe kDefaultLogger w = Some l" using Some by (simp add: same_loggers_def)
    then have "get_log_level fe l w = level"
      using w frontend_okD(3) [OF assms l] by (simp add: same_loggers_def)
    moreover have "Some m \<in> set (get_all_loggers fe w) \<Longrightarrow> get_log_level fe m w = level" for m
      using w by (simp add: same_loggers_def)
    ultimately show "Logger_get_level fe (?s\<lparr>log_world := w\<rparr>) = (Inr level, ?s\<lparr>log_world := w\<rparr>) \<and>
      same_loggers fe (log_world s) (log_world (?s\<lparr>log_world := w\<rparr>)) \<and> params_opt (?s\<lparr>log_world := w\<rparr>) = params_opt s \<and>
      (\<forall>m. Some m \<in> set (get_all_loggers fe (log_world (?s\<lparr>log_world := w\<rparr>))) \<longrightarrow>
         get_log_level fe m (log_world (?s\<lparr>log_world := w\<rparr>)) = level)"
      using sw l by (simp add: Logger_get_level_def Logger_get_logger_def deref_def prog_defs)
  qed
  then show ?thesis using Some
    by (simp add: Logger_set_level_def set_levels_def [symmetric] Logger_get_logger_def deref_def prog_defs frontend_do_def wp_def
      split: prod.splits sum.splits)
qed

lemma set_level_then_get:
  assumes "frontend_ok fe" and "find_logger fe kDefaultLogger (log_world s) = Some l"
  shows "\<exists>t. Logger_set_level fe level s = (Inr (), t) \<and> Logger_get_level fe t = (Inr level, t)"
  using set_level_cases [OF assms(1), where s = s and level = level] assms(2) by auto

section \<open>A registry\<close>

text \<open>The registry as a list of named loggers with their configurations, and their levels; a pointer is a position.\<close>

type_synonym registry = "(string \<times> logger_config) list \<times> (nat \<Rightarrow> log_level)"

fun position :: "string \<Rightarrow> (string \<times> 'a) list \<Rightarrow> nat option" where
  "position n [] = None"
| "position n ((m, c) # r) = (if n = m then Some 0 else map_option Suc (position n r))"

definition registry_config :: "nat \<Rightarrow> registry \<Rightarrow> logger_config" where
  "registry_config l w = (if l < length (fst w) then snd (fst w ! l) else \<lparr>lc_sinks = [], lc_format = Plain_format, lc_clock = Tsc_clock\<rparr>)"

definition demo_frontend :: "registry frontend_api" where
  "demo_frontend = \<lparr>
     create_or_get_sink = (\<lambda>kind name w. (case kind of ConsoleSink \<Rightarrow> 0 | FileSink \<Rightarrow> 1 | RotatingFileSink \<Rightarrow> 2, w)),
     create_or_get_logger = (\<lambda>name cfg w. case position name (fst w) of
        Some l \<Rightarrow> (l, w) | None \<Rightarrow> (length (fst w), (fst w @ [(name, cfg)], snd w))),
     find_logger = (\<lambda>n w. position n (fst w)), get_all_loggers = (\<lambda>w. map Some [0..<length (fst w)]),
     config_of = registry_config, set_log_level = (\<lambda>l v w. (fst w, (snd w)(l := v))), get_log_level = (\<lambda>l w. snd w l),
     remove_logger_blocking = (\<lambda>_ w. w), backend_start = id, backend_stop = id\<rparr>"

lemma position_less: "position n r = Some l \<Longrightarrow> l < length r"
  by (induction n r arbitrary: l rule: position.induct) (auto split: if_splits)

lemma position_append:
  "position n (r @ [(m, c)]) = (case position n r of Some l \<Rightarrow> Some l | None \<Rightarrow> if n = m then Some (length r) else None)"
  by (induction n r rule: position.induct) (auto split: option.splits)

lemma demo_creates:
  "case create_or_get_logger demo_frontend name cfg w of (l, w') \<Rightarrow> logger_created demo_frontend name cfg w l w'"
  by (cases "position name (fst w)")
    (auto simp: demo_frontend_def logger_created_def position_append registry_config_def nth_append
      dest: position_less split: option.splits)

lemma demo_frontend_ok: "frontend_ok demo_frontend"
  unfolding frontend_ok_def
proof (intro conjI allI)
  show "case create_or_get_logger demo_frontend name cfg w of (l, w') \<Rightarrow> logger_created demo_frontend name cfg w l w'" for name cfg w
    by (rule demo_creates)
qed (auto simp: demo_frontend_def same_loggers_def registry_config_def dest: position_less)

definition demo_logging :: "registry logging" where
  "demo_logging = \<lparr>params_opt = None, log_world = ([], \<lambda>_. Info)\<rparr>"

lemma demo_empty: "find_logger demo_frontend n (log_world demo_logging) = None"
  by (simp add: demo_frontend_def demo_logging_def)

section \<open>Properties\<close>

text \<open>
  In a process that has no default logger yet, constructing the logger gives it one and remembers the parameters.
  Its only sink is the console when no file is named and the file otherwise; when the file is to be rotated, the sink
  pointer is null.
\<close>

lemma Logger_new_default:
  assumes "frontend_ok fe" and "find_logger fe kDefaultLogger (log_world s) = None"
  shows "\<exists>t l. Logger_new fe params s = (Inr (), t) \<and> get_params t = (Inr params, t) \<and>
    find_logger fe kDefaultLogger (log_world t) = Some l \<and> length (lc_sinks (config_of fe l (log_world t))) = 1 \<and>
    (lc_sinks (config_of fe l (log_world t)) = [None] \<longleftrightarrow> logfile params \<noteq> None \<and> rotate params) \<and>
    (lc_format (config_of fe l (log_world t)) = Console_format \<longleftrightarrow> logfile params = None)"
proof -
  note sink = frontend_okD(5) [OF assms(1)] and made = default_created [OF assms]
  note two = same_loggers_trans [OF sink sink]
  show ?thesis
    by (cases "logfile params"; cases "rotate params")
      (auto simp: Logger_new_def select_sink_def prog_defs frontend_def frontend_do_def get_params_def
        split: prod.splits dest!: made [rotated 1] intro: sink two)
qed

lemma Logger_new_default_witness:
  "\<exists>t l. Logger_new demo_frontend \<lparr>logfile = Some ''app.log'', metrics_root = None, rotate = True\<rparr> demo_logging = (Inr (), t) \<and>
    find_logger demo_frontend kDefaultLogger (log_world t) = Some l \<and>
    lc_sinks (config_of demo_frontend l (log_world t)) = [None]"
  using Logger_new_default [OF demo_frontend_ok demo_empty, of "\<lparr>logfile = Some ''app.log'', metrics_root = None, rotate = True\<rparr>"]
  by auto

text \<open>
  Setting the level sets it on every registered logger and is what a later query returns; the loggers, their names
  and their sinks stay as they are. Before there is a default logger, the call goes through a null pointer.
\<close>

lemma Logger_set_level_all:
  assumes "frontend_ok fe"
  shows "case find_logger fe kDefaultLogger (log_world s) of
     None \<Rightarrow> Logger_set_level fe level s = (Inl (Undefined_behaviour ''null pointer''), s)
   | Some l \<Rightarrow> \<exists>t. Logger_set_level fe level s = (Inr (), t) \<and> Logger_get_level fe t = (Inr level, t) \<and>
       same_loggers fe (log_world s) (log_world t) \<and> params_opt t = params_opt s \<and>
       (\<forall>m. Some m \<in> set (get_all_loggers fe (log_world t)) \<longrightarrow> get_log_level fe m (log_world t) = level)"
  by (rule set_level_cases [OF assms])

definition demo_running :: "registry logging" where
  "demo_running = demo_logging\<lparr>log_world := ([(kDefaultLogger, \<lparr>lc_sinks = [Some 0], lc_format = Console_format, lc_clock = Tsc_clock\<rparr>)], \<lambda>_. Info)\<rparr>"

lemma demo_running_default: "find_logger demo_frontend kDefaultLogger (log_world demo_running) = Some 0"
  by (simp add: demo_running_def demo_frontend_def)

lemma Logger_set_level_all_witness:
  "\<exists>t. Logger_set_level demo_frontend Debug demo_running = (Inr (), t) \<and> Logger_get_level demo_frontend t = (Inr Debug, t)"
  using Logger_set_level_all [OF demo_frontend_ok, where s = demo_running and level = Debug] demo_running_default by auto

text \<open>
  The logger of a component is registered under its name, and its level is that of the default logger. A new one
  writes where the default logger writes, in the same format; one that existed keeps its sinks.
\<close>

lemma component_logger_inherits:
  assumes "frontend_ok fe" and "find_logger fe kDefaultLogger (log_world s) = Some l"
  shows "\<exists>m t. get_component_logger fe name s = (Inr m, t) \<and>
    find_logger fe name (log_world t) = Some m \<and>
    find_logger fe kDefaultLogger (log_world t) = Some l \<and>
    get_log_level fe m (log_world t) = get_log_level fe l (log_world s) \<and>
    config_of fe m (log_world t) =
      (case find_logger fe name (log_world s) of None \<Rightarrow> config_of fe l (log_world s) | Some k \<Rightarrow> config_of fe k (log_world s))"
proof -
  obtain m w where c: "create_or_get_logger fe name (config_of fe l (log_world s)) (log_world s) = (m, w)" by (rule prod.exhaust)
  note made = frontend_okD(6) [OF assms(1) c, unfolded logger_created_def]
  have l: "find_logger fe kDefaultLogger w = Some l" using made assms(2) by auto
  have lev: "get_log_level fe l w = get_log_level fe l (log_world s)" using made assms(2) by blast
  let ?w = "set_log_level fe m (get_log_level fe l (log_world s)) w"
  have same: "same_loggers fe w ?w" by (rule frontend_okD(1) [OF assms(1)])
  have "get_component_logger fe name s = (Inr m, s\<lparr>log_world := ?w\<rparr>)"
    using assms(2) c l lev by (simp add: get_component_logger_def Logger_get_level_def Logger_get_logger_def deref_def prog_defs
      frontend_def frontend_do_def)
  moreover have "config_of fe m w = (case find_logger fe name (log_world s) of
      None \<Rightarrow> config_of fe l (log_world s) | Some k \<Rightarrow> config_of fe k (log_world s))"
    using made by (auto split: option.splits)
  ultimately show ?thesis using made l lev
    by (simp add: same_loggersD [OF same] frontend_okD(2) [OF assms(1)])
qed

lemma component_logger_inherits_witness:
  "\<exists>m t. get_component_logger demo_frontend ''tcp'' demo_running = (Inr m, t) \<and>
    lc_sinks (config_of demo_frontend m (log_world t)) = [Some 0] \<and> get_log_level demo_frontend m (log_world t) = Info"
proof -
  have "find_logger demo_frontend ''tcp'' (log_world demo_running) = None"
    "config_of demo_frontend 0 (log_world demo_running) = \<lparr>lc_sinks = [Some 0], lc_format = Console_format, lc_clock = Tsc_clock\<rparr>"
    "get_log_level demo_frontend 0 (log_world demo_running) = Info"
    by (simp_all add: demo_running_def demo_frontend_def registry_config_def kDefaultLogger_def)
  then show ?thesis using component_logger_inherits [OF demo_frontend_ok demo_running_default, of "''tcp''"] by auto
qed

text \<open>Level names are read whatever the case of their letters.\<close>

lemma parse_log_level_case:
  "lower_string s = lower_string t \<Longrightarrow> parse_log_level s = Inr v \<Longrightarrow> parse_log_level t = Inr v"
  by (cases "lower_string t") (auto simp: parse_log_level_def split: if_splits)

lemma get_params_uninitialised: "params_opt s = None \<Longrightarrow> get_params s = (Inl (Runtime_error ''Logger is not initialised.''), s)"
  by (simp add: get_params_def prog_defs)

end
