(* ===== verification/Launcher.thy ===== *)
theory Launcher
  imports Logger Steps
begin

text \<open>
  The launcher of the services, src/src/base/launcher: the command line (arg_parser.h), the start of a service
  (tool_launcher.h), and how a signal ends one.

  The parser of the command line is outside the program. What is registered with it is a list of \<open>registered\<close>; what it
  found is the parameter \<open>parsed\<close>. The members of the argument structure are a list of \<open>arg_field\<close>, since the code
  treats them one by one through reflection. Threads and signal handlers are steps of a relation.
\<close>

section \<open>Arguments\<close>

text \<open>The types \<^verbatim>\<open>add_argument\<close> accepts: any other does not compile.\<close>

datatype arg_type = String_arg | Bool_arg | Integral_arg | Optional_arg arg_type

datatype arg_value = String_value string | Bool_value bool | Integral_value int

record arg_field =
  af_name :: string
  af_type :: arg_type
  af_help :: string

text \<open>\<^verbatim>\<open>kRequired\<close> of the three specialisations of \<^verbatim>\<open>Argument\<close>.\<close>

fun arg_required :: "arg_type \<Rightarrow> bool" where
  "arg_required (Optional_arg t) = False"
| "arg_required t = True"

datatype arg_reader = Read_string | Read_flag | Scan_integral

record registered =
  rg_name :: string
  rg_reader :: arg_reader
  rg_help :: string
  rg_required :: bool

fun add_argument :: "arg_type \<Rightarrow> string \<Rightarrow> string \<Rightarrow> registered" where
  "add_argument String_arg name help = \<lparr>rg_name = name, rg_reader = Read_string, rg_help = help, rg_required = False\<rparr>"
| "add_argument Bool_arg name help = \<lparr>rg_name = name, rg_reader = Read_flag, rg_help = help, rg_required = False\<rparr>"
| "add_argument Integral_arg name help = \<lparr>rg_name = name, rg_reader = Scan_integral, rg_help = help, rg_required = False\<rparr>"
| "add_argument (Optional_arg t) name help = add_argument t name help"

definition arg_name :: "string \<Rightarrow> string" where
  "arg_name field = map (\<lambda>c. if c = CHR ''_'' then CHR ''-'' else c) (''--'' @ field)"

definition verbosity_arguments :: "registered list" where
  "verbosity_arguments =
     [\<lparr>rg_name = ''-v'', rg_reader = Read_flag, rg_help = ''Debug output'', rg_required = False\<rparr>,
      \<lparr>rg_name = ''-vv'', rg_reader = Read_flag, rg_help = ''Trace L1 output'', rg_required = False\<rparr>,
      \<lparr>rg_name = ''-vvv'', rg_reader = Read_flag, rg_help = ''Trace L2 output'', rg_required = False\<rparr>,
      \<lparr>rg_name = ''-vvvv'', rg_reader = Read_flag, rg_help = ''Trace L3 output'', rg_required = False\<rparr>]"

definition register_field :: "arg_field \<Rightarrow> registered" where
  "register_field f = (let argument = add_argument (af_type f) (arg_name (af_name f)) (af_help f) in
     if arg_required (af_type f) then argument\<lparr>rg_required := True\<rparr> else argument)"

definition register_fields :: "arg_field list \<Rightarrow> registered list" where
  "register_fields params = verbosity_arguments @ map register_field params"

text \<open>What the parser found: the flags, which names were used, and the values under a name, or why there is none.\<close>

record parsed =
  pr_is_used :: "string \<Rightarrow> bool"
  pr_get_bool :: "string \<Rightarrow> error + bool"
  pr_get_string :: "string \<Rightarrow> error + string"
  pr_get_integral :: "string \<Rightarrow> error + int"

fun get_value :: "parsed \<Rightarrow> arg_type \<Rightarrow> string \<Rightarrow> error + arg_value" where
  "get_value parser Bool_arg name = map_sum id Bool_value (pr_get_bool parser name)"
| "get_value parser String_arg name = map_sum id String_value (pr_get_string parser name)"
| "get_value parser Integral_arg name = map_sum id Integral_value (pr_get_integral parser name)"
| "get_value parser (Optional_arg t) name = get_value parser t name"

fun set_verbosity :: "'w frontend_api \<Rightarrow> parsed \<Rightarrow> (string \<times> log_level) list \<Rightarrow> ('w logging, unit) prog" where
  "set_verbosity fe parser [] = ret ()"
| "set_verbosity fe parser ((flag, level) # rest) = (case pr_get_bool parser flag of
     Inl e \<Rightarrow> throw e
   | Inr used \<Rightarrow> if used then Logger_set_level fe level else set_verbosity fe parser rest)"

definition verbosity_levels :: "(string \<times> log_level) list" where
  "verbosity_levels = [(''-v'', Debug), (''-vv'', TraceL1), (''-vvv'', TraceL2), (''-vvvv'', TraceL3)]"

text \<open>The members keep their initial value, \<open>None\<close>, unless the name was used.\<close>

fun populate_fields :: "parsed \<Rightarrow> arg_field list \<Rightarrow> error + arg_value option list" where
  "populate_fields parser [] = Inr []"
| "populate_fields parser (f # fs) =
     (case (if pr_is_used parser (arg_name (af_name f))
            then map_sum id Some (get_value parser (af_type f) (arg_name (af_name f))) else Inr None) of
        Inl e \<Rightarrow> Inl e
      | Inr v \<Rightarrow> map_sum id (\<lambda>vs. v # vs) (populate_fields parser fs))"

definition populate_values :: "'w frontend_api \<Rightarrow> parsed \<Rightarrow> arg_field list \<Rightarrow> ('w logging, arg_value option list) prog" where
  "populate_values fe parser params =
     thenM (set_verbosity fe parser verbosity_levels)
     (case populate_fields parser params of Inl e \<Rightarrow> throw e | Inr vs \<Rightarrow> ret vs)"

text \<open>
  \<^verbatim>\<open>parse\<close>: the help action ends the process with code 0 while the arguments are parsed, an exception ends it with
  code 1. \<open>parse_args\<close> is what the parser makes of the registered arguments and the command line; undefined behaviour
  is no exception.
\<close>

datatype 'a outcome = Returned 'a | Exited nat | Undefined string

datatype parse_args_result = Parsed parsed | Help_shown | Parse_failed string

definition help_argument :: registered where
  "help_argument = \<lparr>rg_name = ''--help'', rg_reader = Read_flag, rg_help = ''shows help message'', rg_required = False\<rparr>"

definition arg_parse ::
    "'w frontend_api \<Rightarrow> (registered list \<Rightarrow> string list \<Rightarrow> parse_args_result) \<Rightarrow> registered list \<Rightarrow> arg_field list \<Rightarrow>
       string list \<Rightarrow> 'w logging \<Rightarrow> arg_value option list outcome \<times> 'w logging" where
  "arg_parse fe parse_args before params argv s =
     (case parse_args (before @ register_fields params @ [help_argument]) argv of
        Help_shown \<Rightarrow> (Exited 0, s)
      | Parse_failed what \<Rightarrow> (Exited 1, s)
      | Parsed parser \<Rightarrow> (case populate_values fe parser params s of
          (Inl (Undefined_behaviour u), t) \<Rightarrow> (Undefined u, t)
        | (Inl e, t) \<Rightarrow> (Exited 1, t)
        | (Inr vs, t) \<Rightarrow> (Returned vs, t)))"

section \<open>Starting a service\<close>

definition config_argument :: registered where
  "config_argument = \<lparr>rg_name = ''--config'', rg_reader = Read_string, rg_help = ''Path to configuration file'', rg_required = False\<rparr>"

text \<open>The arguments the constructor of a launcher registers, with the one for services that have a configuration.\<close>

definition launcher_arguments :: "bool \<Rightarrow> arg_field list \<Rightarrow> registered list" where
  "launcher_arguments has_config params = (if has_config then [config_argument] else []) @ register_fields params @ [help_argument]"

definition Launcher_new ::
    "'w frontend_api \<Rightarrow> (registered list \<Rightarrow> string list \<Rightarrow> parse_args_result) \<Rightarrow> bool \<Rightarrow> arg_field list \<Rightarrow>
       string list \<Rightarrow> 'w logging \<Rightarrow> arg_value option list outcome \<times> 'w logging" where
  "Launcher_new fe parse_args has_config params argv =
     arg_parse fe parse_args (if has_config then [config_argument] else []) params argv"

text \<open>
  A launcher and its service: whether it was launched, whether the handlers are installed, and the state of the
  service. \<open>impl_run\<close> is the service's \<^verbatim>\<open>run\<close>.
\<close>

record 's launcher =
  launch_called :: bool
  handlers_installed :: bool
  impl :: 's

definition Launcher_run :: "('s, int) prog \<Rightarrow> ('s launcher, int) prog" where
  "Launcher_run impl_run =
     bindM (gets launch_called) (\<lambda>called.
     thenM (require (\<not> called) ''launch was already called'')
     (thenM (modify (\<lambda>s. s\<lparr>launch_called := True, handlers_installed := True\<rparr>))
     (\<lambda>s. case impl_run (impl s) of
        (Inr code, t) \<Rightarrow> (Inr code, s\<lparr>impl := t\<rparr>)
      | (Inl (Undefined_behaviour u), t) \<Rightarrow> (Inl (Undefined_behaviour u), s\<lparr>impl := t\<rparr>)
      | (Inl e, t) \<Rightarrow> (Inr 1, s\<lparr>impl := t\<rparr>))))"

section \<open>Signals\<close>

text \<open>
  A service that waits for its end, the loop of \<^verbatim>\<open>DpdkMasterServiceImpl::run\<close>: test the flag, and block in a read from the
  pipe when it is clear. The handler of a signal sets the flag and then writes a byte to the pipe; handlers of several
  signals may overlap, so the state counts those between the two. \<^verbatim>\<open>stop()\<close> sets the flag only.
\<close>

datatype main_pc = Testing | Reading | Ended

record sig_state =
  sg_stopped :: bool
  sg_pipe :: nat
  sg_writing :: nat
  sg_main :: main_pc

datatype sig_event = Test_flag | Read_pipe | Handler_sets_flag | Handler_writes | Stop_called

inductive sig_step :: "sig_state \<Rightarrow> sig_event \<Rightarrow> sig_state \<Rightarrow> bool" where
  test_flag: "sg_main s = Testing \<Longrightarrow>
    sig_step s Test_flag (s\<lparr>sg_main := (if sg_stopped s then Ended else Reading)\<rparr>)"
| read_pipe: "sg_main s = Reading \<Longrightarrow> sg_pipe s > 0 \<Longrightarrow>
    sig_step s Read_pipe (s\<lparr>sg_main := Testing, sg_pipe := sg_pipe s - 1\<rparr>)"
| handler_sets_flag: "sig_step s Handler_sets_flag (s\<lparr>sg_stopped := True, sg_writing := sg_writing s + 1\<rparr>)"
| handler_writes: "sg_writing s > 0 \<Longrightarrow>
    sig_step s Handler_writes (s\<lparr>sg_writing := sg_writing s - 1, sg_pipe := sg_pipe s + 1\<rparr>)"
| stop_called: "sig_step s Stop_called (s\<lparr>sg_stopped := True\<rparr>)"

inductive_cases sig_stepE: "sig_step s e t"

abbreviation sig_run :: "sig_state \<Rightarrow> sig_event list \<Rightarrow> sig_state \<Rightarrow> bool" where
  "sig_run \<equiv> steps sig_step"

definition sig_start :: sig_state where
  "sig_start = \<lparr>sg_stopped = False, sg_pipe = 0, sg_writing = 0, sg_main = Testing\<rparr>"

text \<open>A byte is taken from the pipe only after the flag was set, so the service never blocks again after it.\<close>

definition sig_inv :: "sig_event list \<Rightarrow> sig_state \<Rightarrow> bool" where
  "sig_inv es s \<longleftrightarrow>
     (Handler_sets_flag \<in> set es \<longrightarrow> sg_stopped s) \<and>
     (sg_pipe s > 0 \<or> sg_writing s > 0 \<longrightarrow> Handler_sets_flag \<in> set es) \<and>
     (sg_main s = Reading \<and> Handler_sets_flag \<in> set es \<longrightarrow> sg_pipe s + sg_writing s > 0)"

lemmas sig_one = steps_one [where step = sig_step]
  and sig_two = steps_two [where step = sig_step]
  and sig_three = steps_three [where step = sig_step]

interpretation signals: step_invariant sig_step sig_start sig_inv
proof
  show "sig_inv [] sig_start" by (simp add: sig_inv_def sig_start_def)
next
  fix es s e t assume "sig_inv es s" "sig_step s e t"
  from this(2,1) show "sig_inv (es @ [e]) t"
    by (cases rule: sig_step.cases) (auto simp: sig_inv_def split: if_splits)
qed

text \<open>After \<^verbatim>\<open>stop()\<close> alone, a service that is blocked in the read stays there.\<close>

lemma stop_does_not_wake:
  "\<exists>t. sig_run sig_start [Test_flag, Stop_called] t \<and> sg_stopped t \<and> sg_main t = Reading \<and>
     (\<forall>e u. e \<in> {Test_flag, Read_pipe} \<longrightarrow> \<not> sig_step t e u)"
proof -
  have "sig_run sig_start [Test_flag, Stop_called] (sig_start\<lparr>sg_main := Reading, sg_stopped := True\<rparr>)"
    using sig_two [OF test_flag stop_called, of sig_start] by (simp add: sig_start_def)
  moreover have "\<not> sig_step (sig_start\<lparr>sg_main := Reading, sg_stopped := True\<rparr>) e u" if "e \<in> {Test_flag, Read_pipe}" for e u
    using that by (auto simp: sig_start_def elim: sig_stepE)
  ultimately show ?thesis by (intro exI conjI) auto
qed

lemma add_argument_name: "rg_name (add_argument t name help) = name"
  by (induction t) simp_all

lemma register_field_name [simp]: "rg_name (register_field f) = arg_name (af_name f)"
  by (simp add: register_field_def add_argument_name Let_def)

lemma arg_name_inj:
  assumes "CHR ''-'' \<notin> set a" and "CHR ''-'' \<notin> set b"
  shows "arg_name a = arg_name b \<longleftrightarrow> a = b"
proof -
  have "inj_on (\<lambda>c. if c = CHR ''_'' then CHR ''-'' else c) (set a \<union> set b)"
    using assms by (auto simp: inj_on_def)
  then show ?thesis by (simp add: arg_name_def inj_on_map_eq_map)
qed

lemma populate_fields_spec:
  "populate_fields parser params = Inr vs \<Longrightarrow>
     list_all2 (\<lambda>f v. v = (if pr_is_used parser (arg_name (af_name f))
       then Some (projr (get_value parser (af_type f) (arg_name (af_name f)))) else None)) params vs"
proof (induction params arbitrary: vs)
  case (Cons f fs)
  then show ?case
    by (cases "get_value parser (af_type f) (arg_name (af_name f))"; cases "populate_fields parser fs")
      (auto split: if_splits)
qed simp

section \<open>Properties\<close>

text \<open>
  C32: No wake-up is lost: however the handlers of signals interleave with the service's loop, once a signal has been
  handled the service is not blocked, and it ends within two steps of its own.
\<close>

theorem signal_ends_service:
  assumes "sig_run sig_start es t" and "Handler_sets_flag \<in> set es" and "sg_writing t = 0"
  shows "\<exists>ms u. sig_run t ms u \<and> sg_main u = Ended \<and> set ms \<subseteq> {Test_flag, Read_pipe} \<and> length ms \<le> 2"
proof -
  have inv: "sg_stopped t" "sg_main t = Reading \<longrightarrow> sg_pipe t > 0"
    using signals.holds [OF assms(1)] assms(2,3) by (auto simp: sig_inv_def)
  show ?thesis
  proof (cases "sg_main t")
    case Ended
    then show ?thesis by (intro exI [of _ "[]"]) auto
  next
    case Testing
    then show ?thesis using sig_one [OF test_flag, of t] inv by (intro exI [of _ "[Test_flag]"]) auto
  next
    case Reading
    let ?t = "t\<lparr>sg_main := Testing, sg_pipe := sg_pipe t - 1\<rparr>"
    have "sig_run t [Read_pipe, Test_flag] (?t\<lparr>sg_main := Ended\<rparr>)"
      using sig_two [OF read_pipe test_flag, of t] Reading inv by simp
    then show ?thesis by (intro exI [of _ "[Read_pipe, Test_flag]"] exI [of _ "?t\<lparr>sg_main := Ended\<rparr>"]) simp
  qed
qed

theorem signal_ends_service_witness:
  "\<exists>t ms u. sig_run sig_start [Test_flag, Handler_sets_flag, Handler_writes] t \<and> sg_main t = Reading \<and>
     sig_run t ms u \<and> sg_main u = Ended"
proof -
  let ?t = "\<lparr>sg_stopped = True, sg_pipe = 1, sg_writing = 0, sg_main = Reading\<rparr>"
  have r: "sig_run sig_start [Test_flag, Handler_sets_flag, Handler_writes] ?t"
    using sig_three [OF test_flag handler_sets_flag handler_writes, of sig_start]
    by (simp add: sig_start_def del: steps.simps)
  then show ?thesis using signal_ends_service [OF r] by (intro exI [of _ ?t]) auto
qed

text \<open>
  A launcher runs its service at most once: whatever the first call ended with, a second one throws and changes
  nothing. The first call returns the service's own code, and code 1 for every exception of the service.
\<close>

lemma Launcher_run_once:
  assumes "\<not> launch_called s"
  shows "\<exists>t. launch_called t \<and> impl t = snd (impl_run (impl s)) \<and>
    Launcher_run impl_run s = (case fst (impl_run (impl s)) of
      Inr code \<Rightarrow> Inr code | Inl (Undefined_behaviour u) \<Rightarrow> Inl (Undefined_behaviour u) | Inl e \<Rightarrow> Inr 1, t) \<and>
    Launcher_run impl_run t = (Inl (Runtime_error ''launch was already called''), t)"
  using assms
  by (cases "fst (impl_run (impl s))"; cases "impl_run (impl s)"; cases "projl (fst (impl_run (impl s)))")
    (simp_all add: Launcher_run_def prog_defs)

lemma Launcher_run_once_witness:
  "\<exists>t. Launcher_run (\<lambda>n. (Inl (Runtime_error ''no config''), n + 1)) \<lparr>launch_called = False, handlers_installed = False, impl = (0::nat)\<rparr> = (Inr 1, t) \<and>
     impl t = 1"
  using Launcher_run_once [of "\<lparr>launch_called = False, handlers_installed = False, impl = (0::nat)\<rparr>"
    "\<lambda>n. (Inl (Runtime_error ''no config''), n + 1)"] by auto

text \<open>
  Members of an argument structure whose names are identifiers get options of their own: no two options of a
  service coincide, and none is a verbosity flag; only a member called \<^verbatim>\<open>help\<close> would meet the help option.
\<close>

lemma options_distinct:
  assumes "distinct (map af_name params)" and "list_all (\<lambda>f. CHR ''-'' \<notin> set (af_name f)) params"
    and "''help'' \<notin> set (map af_name params)"
  shows "distinct (map rg_name (launcher_arguments False params))"
proof -
  have names: "rg_name \<circ> register_field = arg_name \<circ> af_name" by (simp add: fun_eq_iff)
  have "distinct (map (arg_name \<circ> af_name) params)"
    using assms(1,2) by (auto simp: distinct_map list_all_iff inj_on_def arg_name_inj)
  moreover have "x \<notin> set (map (arg_name \<circ> af_name) params)" if "x \<in> {''-v'', ''-vv'', ''-vvv'', ''-vvvv''}" for x
    using that by (auto simp: arg_name_def)
  moreover have "''--help'' \<notin> set (map (arg_name \<circ> af_name) params)"
  proof
    assume "''--help'' \<in> set (map (arg_name \<circ> af_name) params)"
    then obtain f where f: "f \<in> set params" "arg_name (af_name f) = arg_name ''help''" by (auto simp: arg_name_def)
    then have "af_name f = ''help''" using assms(2) by (subst arg_name_inj [symmetric]) (auto simp: list_all_iff)
    then show False using f(1) assms(3) by force
  qed
  ultimately show ?thesis
    unfolding launcher_arguments_def register_fields_def by (simp add: names verbosity_arguments_def help_argument_def)
qed

definition master_args :: "arg_field list" where
  "master_args = [\<lparr>af_name = ''config'', af_type = Optional_arg String_arg, af_help = ''help for custom_parameter''\<rparr>]"

definition gateway_args :: "arg_field list" where
  "gateway_args = [\<lparr>af_name = ''config'', af_type = String_arg, af_help = ''path to config''\<rparr>,
     \<lparr>af_name = ''interface_config'', af_type = Optional_arg String_arg, af_help = ''path to interfaces config''\<rparr>]"

lemma options_distinct_witness:
  "distinct (map rg_name (launcher_arguments False gateway_args)) \<and>
   map rg_name (launcher_arguments False gateway_args) =
     [''-v'', ''-vv'', ''-vvv'', ''-vvvv'', ''--config'', ''--interface-config'', ''--help'']"
  using options_distinct [of gateway_args]
  by (simp add: gateway_args_def launcher_arguments_def register_fields_def verbosity_arguments_def register_field_def
    arg_name_def help_argument_def)

text \<open>The gateway has a configuration type and a member of that name, so its option is registered twice.\<close>

lemma gateway_config_twice: "\<not> distinct (map rg_name (launcher_arguments True gateway_args))"
  by (simp add: gateway_args_def launcher_arguments_def register_fields_def verbosity_arguments_def register_field_def
    arg_name_def config_argument_def)

text \<open>
  With a default logger in place and every option readable, taking over the parsed arguments sets the level of all
  loggers to that of the shortest verbosity flag given, and leaves it alone when none is; every member whose option was
  used gets the parser's value, every other keeps none.
\<close>

lemma populate_values_result:
  assumes "frontend_ok fe" and "find_logger fe kDefaultLogger (log_world s) = Some l"
    and "\<forall>name. pr_get_bool parser name = Inr (flags name)"
    and "populate_fields parser params = Inr vs"
  shows "\<exists>t. populate_values fe parser params s = (Inr vs, t) \<and>
    list_all2 (\<lambda>f v. v = (if pr_is_used parser (arg_name (af_name f))
      then Some (projr (get_value parser (af_type f) (arg_name (af_name f)))) else None)) params vs \<and>
    Logger_get_level fe t = (Inr (if flags ''-v'' then Debug else if flags ''-vv'' then TraceL1
      else if flags ''-vvv'' then TraceL2 else if flags ''-vvvv'' then TraceL3
      else get_log_level fe l (log_world s)), t)"
proof -
  have "\<exists>t. set_verbosity fe parser verbosity_levels s = (Inr (), t) \<and>
    Logger_get_level fe t = (Inr (if flags ''-v'' then Debug else if flags ''-vv'' then TraceL1
      else if flags ''-vvv'' then TraceL2 else if flags ''-vvvv'' then TraceL3
      else get_log_level fe l (log_world s)), t)"
    using set_level_then_get [OF assms(1,2)] assms(2)
    by (auto simp: verbosity_levels_def assms(3) ret_def Logger_get_level_def Logger_get_logger_def deref_def prog_defs)
  then show ?thesis using assms(4) populate_fields_spec [OF assms(4)]
    by (auto simp: populate_values_def prog_defs)
qed

definition demo_parsed :: parsed where
  "demo_parsed = \<lparr>pr_is_used = (\<lambda>n. n = ''--config''), pr_get_bool = (\<lambda>n. Inr (n = ''-vv'')),
     pr_get_string = (\<lambda>_. Inr ''gateway.yml''), pr_get_integral = (\<lambda>_. Inr 0)\<rparr>"

lemma populate_values_result_witness:
  "\<exists>t. populate_values demo_frontend demo_parsed gateway_args demo_running = (Inr [Some (String_value ''gateway.yml''), None], t) \<and>
     Logger_get_level demo_frontend t = (Inr TraceL1, t)"
proof -
  have "populate_fields demo_parsed gateway_args = Inr [Some (String_value ''gateway.yml''), None]"
    by (simp add: demo_parsed_def gateway_args_def arg_name_def)
  moreover have "\<forall>name. pr_get_bool demo_parsed name = Inr (name = ''-vv'')" by (simp add: demo_parsed_def)
  ultimately show ?thesis
    using populate_values_result [OF demo_frontend_ok demo_running_default, of demo_parsed "\<lambda>n. n = ''-vv''" gateway_args] by auto
qed

end
