(* ===== verification/Config_File.thy ===== *)
theory Config_File
  imports Dpdk_Setup
begin

text \<open>
  Reading configuration files, src/src/base/serialiser: the dispatch on the extension (auto/read_file.h) and the two
  readers (yaml/yaml.h, json/json.h). The file system and the parsers of the two formats are outside the program and
  are parameters; the extension of a path is computed as \<^verbatim>\<open>std::filesystem\<close> defines it.
\<close>

section \<open>Paths\<close>

definition filename :: "string \<Rightarrow> string" where
  "filename path = rev (takeWhile (\<lambda>c. c \<noteq> CHR ''/'') (rev path))"

text \<open>From the last dot of the file name, unless the name has none, starts with its only one, or is a dot directory.\<close>

definition extension :: "string \<Rightarrow> string" where
  "extension path = (let name = filename path; suffix = rev (takeWhile (\<lambda>c. c \<noteq> CHR ''.'') (rev name)) in
     if name = ''.'' \<or> name = ''..'' \<or> length suffix + 1 \<ge> length name then ''''
     else CHR ''.'' # suffix)"

section \<open>Files\<close>

text \<open>The contents of the files that exist, and those that can be opened.\<close>

record file_system =
  file_content :: "string \<Rightarrow> string option"
  file_opens :: "string \<Rightarrow> bool"

definition file_exists :: "file_system \<Rightarrow> string \<Rightarrow> bool" where
  "file_exists fs path \<longleftrightarrow> file_content fs path \<noteq> None"

definition read_content :: "file_system \<Rightarrow> string \<Rightarrow> error + string" where
  "read_content fs path =
     (if \<not> file_exists fs path then Inl (Runtime_error (''File does not exist: '' @ path))
      else if \<not> file_opens fs path then Inl (Runtime_error (''Could not open file: '' @ path))
      else Inr (the (file_content fs path)))"

text \<open>The parsers of the formats, for one type: the value, or the message of the failure, which \<^verbatim>\<open>value()\<close> throws.\<close>

record 'a parsers =
  yaml_read :: "string \<Rightarrow> string + 'a"
  json_read :: "string \<Rightarrow> string + 'a"

definition from_yaml_string :: "'a parsers \<Rightarrow> string \<Rightarrow> error + 'a" where
  "from_yaml_string ps s = map_sum Runtime_error id (yaml_read ps s)"

definition from_json_string :: "'a parsers \<Rightarrow> string \<Rightarrow> error + 'a" where
  "from_json_string ps s = map_sum Runtime_error id (json_read ps s)"

definition from_yaml_file :: "file_system \<Rightarrow> 'a parsers \<Rightarrow> string \<Rightarrow> error + 'a" where
  "from_yaml_file fs ps path = (case read_content fs path of Inl e \<Rightarrow> Inl e | Inr content \<Rightarrow> from_yaml_string ps content)"

definition from_json_file :: "file_system \<Rightarrow> 'a parsers \<Rightarrow> string \<Rightarrow> error + 'a" where
  "from_json_file fs ps path = (case read_content fs path of Inl e \<Rightarrow> Inl e | Inr content \<Rightarrow> from_json_string ps content)"

definition parse_file :: "file_system \<Rightarrow> 'a parsers \<Rightarrow> string \<Rightarrow> error + 'a" where
  "parse_file fs ps path =
     (if \<not> file_exists fs path then Inl (Runtime_error (''File does not exist: '' @ path))
      else if extension path = '''' then Inl (Runtime_error ''File extension not found'')
      else if extension path = ''.yaml'' \<or> extension path = ''.yml'' then from_yaml_file fs ps path
      else if extension path = ''.json'' then from_json_file fs ps path
      else Inl (Runtime_error (''Unknown file extension: '' @ extension path)))"

text \<open>The reader that allows extra fields, and the writers, which hand the value to the library.\<close>

definition from_json_string_lenient :: "(string \<Rightarrow> string + 'a) \<Rightarrow> string \<Rightarrow> error + 'a" where
  "from_json_string_lenient json_read_extra s = map_sum Runtime_error id (json_read_extra s)"

definition to_json_string :: "('a \<Rightarrow> string) \<Rightarrow> 'a \<Rightarrow> string" where
  "to_json_string json_write obj = json_write obj"

definition to_yaml_string :: "('a \<Rightarrow> string) \<Rightarrow> 'a \<Rightarrow> string" where
  "to_yaml_string yaml_write obj = yaml_write obj"

section \<open>Lemmas\<close>

text \<open>What the library reads back of its own output, the program reads back from a file.\<close>

lemma written_file_read_back:
  assumes "\<And>v. json_read ps (json_write v) = Inr v" and "file_content fs path = Some (to_json_string json_write v)"
    and "file_opens fs path" and "extension path = ''.json''"
  shows "parse_file fs ps path = Inr v"
  using assms by (simp add: parse_file_def from_json_file_def from_json_string_def read_content_def file_exists_def to_json_string_def)

lemma takeWhile_until: "x \<notin> set xs \<Longrightarrow> takeWhile (\<lambda>c. c \<noteq> x) (xs @ x # ys) = xs"
  by (induction xs) auto

lemma filename_last: "CHR ''/'' \<notin> set name \<Longrightarrow> filename (dir @ CHR ''/'' # name) = name"
  using takeWhile_until [of "CHR ''/''" "rev name" "rev dir"] by (simp add: filename_def)

text \<open>The extension of an ordinary file is what follows the last dot of its name, dots in the directories apart.\<close>

lemma extension_of_file:
  assumes "CHR ''/'' \<notin> set base" and "base \<noteq> ''''" and "CHR ''/'' \<notin> set ext" and "CHR ''.'' \<notin> set ext" and "base \<noteq> ''.'' \<or> ext \<noteq> ''''"
  shows "extension (dir @ CHR ''/'' # base @ CHR ''.'' # ext) = CHR ''.'' # ext"
proof -
  have "filename (dir @ CHR ''/'' # base @ CHR ''.'' # ext) = base @ CHR ''.'' # ext"
    using assms(1,3) by (intro filename_last) simp
  moreover have "takeWhile (\<lambda>c. c \<noteq> CHR ''.'') (rev ext @ CHR ''.'' # rev base) = rev ext"
    using assms(4) by (intro takeWhile_until) simp
  ultimately show ?thesis using assms(2,5) by (auto simp: extension_def Let_def append_eq_Cons_conv Cons_eq_append_conv)
qed

lemma read_content_iff:
  "read_content fs path = Inr content \<longleftrightarrow> file_content fs path = Some content \<and> file_opens fs path"
  by (auto simp: read_content_def file_exists_def)

section \<open>Properties\<close>

text \<open>
  A configuration file is read as a value exactly when it exists, can be opened, and the parser its extension
  selects accepts its content: YAML for \<^verbatim>\<open>.yaml\<close> and \<^verbatim>\<open>.yml\<close>, JSON for \<^verbatim>\<open>.json\<close>; every other file is refused with an
  exception.
\<close>

lemma parse_file_returns_iff:
  "parse_file fs ps path = Inr v \<longleftrightarrow>
     (\<exists>content. file_content fs path = Some content \<and> file_opens fs path \<and>
       (extension path \<in> {''.yaml'', ''.yml''} \<and> yaml_read ps content = Inr v \<or>
        extension path = ''.json'' \<and> json_read ps content = Inr v))"
proof -
  have m: "map_sum Runtime_error id r = Inr v \<longleftrightarrow> r = Inr v" for r :: "string + 'a" by (cases r) auto
  have y: "from_yaml_file fs ps path = Inr v \<longleftrightarrow> (\<exists>c. read_content fs path = Inr c \<and> yaml_read ps c = Inr v)"
    and j: "from_json_file fs ps path = Inr v \<longleftrightarrow> (\<exists>c. read_content fs path = Inr c \<and> json_read ps c = Inr v)"
    by (auto simp: from_yaml_file_def from_yaml_string_def from_json_file_def from_json_string_def m split: sum.splits)
  show ?thesis
    by (auto simp: parse_file_def y j read_content_iff file_exists_def)
qed

text \<open>The interface configuration without a path of its own is the YAML file of the system.\<close>

lemma default_interfaces:
  "InterfaceManager_new (parse_file fs ps) None = Inr interfaces \<longleftrightarrow>
     (\<exists>content. file_content fs ''/etc/idk/interfaces.yml'' = Some content \<and> file_opens fs ''/etc/idk/interfaces.yml'' \<and>
       yaml_read ps content = Inr interfaces)"
proof -
  have "extension ''/etc/idk/interfaces.yml'' = ''.yml''" by (simp add: extension_def filename_def)
  then show ?thesis
    by (auto simp: InterfaceManager_new_def parse_file_def from_yaml_file_def from_yaml_string_def read_content_def
      file_exists_def map_sum_def split: sum.splits)
qed

end
