(* ===== verification/Literal.thy ===== *)
theory Literal
  imports Prelude
begin

text \<open>
  \<^verbatim>\<open>rfl::LiteralWithDefault\<close> of src/src/base/logger/rfl_chrono_crutch/_literal_with_default.h: a value that names one
  of a fixed list of strings. The template arguments are the list \<open>fields\<close>, which every operation takes; the value is
  the position in it, as a natural number that the conversion to the code's \<^verbatim>\<open>ValueType\<close> keeps below its limit.
  A failed \<^verbatim>\<open>Result\<close> is the message on the left; taking the value of one throws it.
\<close>

section \<open>Fields and values\<close>

type_synonym fields = "string list"

datatype literal = Literal (lit_value: nat)

definition num_fields :: "fields \<Rightarrow> nat" where
  "num_fields fields = length fields"

text \<open>One byte for at most 255 fields, otherwise two.\<close>

definition value_limit :: "fields \<Rightarrow> nat" where
  "value_limit fields = (if num_fields fields \<le> 255 then 256 else 65536)"

definition lit_of_int :: "fields \<Rightarrow> nat \<Rightarrow> literal" where
  "lit_of_int fields v = Literal (v mod value_limit fields)"

text \<open>What the static assertions of the class demand of its fields.\<close>

definition has_duplicates :: "fields \<Rightarrow> bool" where
  "has_duplicates fields \<longleftrightarrow> \<not> distinct fields"

definition fields_ok :: "fields \<Rightarrow> bool" where
  "fields_ok fields \<longleftrightarrow> num_fields fields \<le> value_limit fields - 1 \<and> (num_fields fields \<le> 1 \<or> \<not> has_duplicates fields)"

section \<open>Finding names and values\<close>

definition find_value_set_if_matches :: "fields \<Rightarrow> string \<Rightarrow> nat \<Rightarrow> bool \<times> nat \<Rightarrow> bool \<times> nat" where
  "find_value_set_if_matches fields str i r =
     (case r of (found, idx) \<Rightarrow> if \<not> found \<and> fields ! i = str then (True, i) else (found, idx))"

definition find_value_set_idx :: "fields \<Rightarrow> string \<Rightarrow> bool \<times> nat" where
  "find_value_set_idx fields str = fold (find_value_set_if_matches fields str) [0..<num_fields fields] (False, 0)"

definition allowed_strings_vec :: "fields \<Rightarrow> string list" where
  "allowed_strings_vec fields = fold (\<lambda>i values. values @ [fields ! i]) [0..<num_fields fields] []"

definition allowed_strings :: "fields \<Rightarrow> string" where
  "allowed_strings fields = (let vec = allowed_strings_vec fields in
     fold (\<lambda>i str. let head = [CHR 0x27] @ vec ! i @ [CHR 0x27] in str @ (if i = 0 then head else '', '' @ head))
       [0..<length vec] '''')"

definition find_value :: "fields \<Rightarrow> string \<Rightarrow> string + nat" where
  "find_value fields str = (case find_value_set_idx fields str of (found, idx) \<Rightarrow>
     if \<not> found then Inl (''LiteralWithDefault does not support string '' @ [CHR 0x27] @ str @ [CHR 0x27] @
       ''. The following strings are supported: '' @ allowed_strings fields @ ''.'')
     else Inr idx)"

definition find_name_set_if_matches :: "fields \<Rightarrow> literal \<Rightarrow> nat \<Rightarrow> string \<Rightarrow> string" where
  "find_name_set_if_matches fields l i name = (if i = lit_value l then fields ! i else name)"

definition find_name :: "fields \<Rightarrow> literal \<Rightarrow> string" where
  "find_name fields l = fold (find_name_set_if_matches fields l) [0..<num_fields fields] ''''"

text \<open>The search at compile time, from position \<open>i\<close>; \<open>-1\<close> when there is none.\<close>

fun find_value_of_from :: "fields \<Rightarrow> string \<Rightarrow> nat \<Rightarrow> int" where
  "find_value_of_from [] name i = - 1"
| "find_value_of_from (f # fs) name i = (if f = name then int i else find_value_of_from fs name (i + 1))"

definition find_value_of :: "fields \<Rightarrow> string \<Rightarrow> int" where
  "find_value_of fields name = find_value_of_from fields name 0"

text \<open>\<^verbatim>\<open>value()\<close> of a \<^verbatim>\<open>Result\<close>.\<close>

definition result_value :: "string + 'a \<Rightarrow> error + 'a" where
  "result_value r = (case r of Inl msg \<Rightarrow> Inl (Runtime_error msg) | Inr a \<Rightarrow> Inr a)"

section \<open>Construction\<close>

definition lit_of_string :: "fields \<Rightarrow> string \<Rightarrow> error + literal" where
  "lit_of_string fields str = map_sum id (lit_of_int fields) (result_value (find_value fields str))"

definition lit_default :: "fields \<Rightarrow> error + literal" where
  "lit_default fields = lit_of_string fields ''nanoseconds''"

text \<open>\<^verbatim>\<open>value_of\<close> and with it \<^verbatim>\<open>make\<close> and \<^verbatim>\<open>from_name\<close> do not compile for another name.\<close>

definition value_of :: "fields \<Rightarrow> string \<Rightarrow> nat option" where
  "value_of fields name = (let value = find_value_of fields name in if value \<ge> 0 then Some (nat value) else None)"

definition lit_make :: "fields \<Rightarrow> string \<Rightarrow> literal option" where
  "lit_make fields name = map_option (lit_of_int fields) (value_of fields name)"

definition from_value :: "fields \<Rightarrow> nat \<Rightarrow> string + literal" where
  "from_value fields v = (if v \<ge> num_fields fields then Inl ''Value cannot exceed number of fields.'' else Inr (lit_of_int fields v))"

definition from_string :: "fields \<Rightarrow> string \<Rightarrow> string + literal" where
  "from_string fields str = map_sum id (lit_of_int fields) (find_value fields str)"

text \<open>The assignment from a string: the object is changed only when the value is found.\<close>

definition lit_assign :: "fields \<Rightarrow> string \<Rightarrow> (literal, unit) prog" where
  "lit_assign fields str = (case result_value (find_value fields str) of
     Inl e \<Rightarrow> throw e | Inr v \<Rightarrow> modify (\<lambda>_. lit_of_int fields v))"

text \<open>\<^verbatim>\<open>name_of\<close> constructs, with the default constructor, the literal whose only field is the name.\<close>

definition name_of :: "fields \<Rightarrow> nat \<Rightarrow> error + literal" where
  "name_of fields v = lit_default [fields ! v]"

section \<open>Queries\<close>

definition lit_contains :: "fields \<Rightarrow> string \<Rightarrow> bool" where
  "lit_contains fields str = fst (find_value_set_idx fields str)"

definition lit_contains_static :: "fields \<Rightarrow> string \<Rightarrow> bool" where
  "lit_contains_static fields name \<longleftrightarrow> find_value_of fields name \<noteq> - 1"

fun contains_any :: "fields \<Rightarrow> fields \<Rightarrow> bool" where
  "contains_any [] other = False"
| "contains_any (f # fs) other \<longleftrightarrow> lit_contains_static other f \<or> contains_any fs other"

fun contains_all_from :: "fields \<Rightarrow> fields \<Rightarrow> nat \<Rightarrow> bool" where
  "contains_all_from [] other n_found \<longleftrightarrow> n_found = num_fields other"
| "contains_all_from (f # fs) other n_found =
     (if lit_contains_static other f then contains_all_from fs other (n_found + 1) else contains_all_from fs other n_found)"

definition contains_all :: "fields \<Rightarrow> fields \<Rightarrow> bool" where
  "contains_all fields other = contains_all_from fields other 0"

definition lit_names :: "fields \<Rightarrow> string list" where
  "lit_names fields = allowed_strings_vec fields"

definition lit_hash :: "(int \<Rightarrow> nat) \<Rightarrow> literal \<Rightarrow> nat" where
  "lit_hash hash_int l = hash_int (int (lit_value l))"

section \<open>Comparison\<close>

text \<open>\<^verbatim>\<open>std::string::compare\<close>: by unsigned characters, a prefix first.\<close>

fun string_compare :: "string \<Rightarrow> string \<Rightarrow> strong_ordering" where
  "string_compare [] [] = Equal_ordering"
| "string_compare [] (d # ds) = Less_ordering"
| "string_compare (c # cs) [] = Greater_ordering"
| "string_compare (c # cs) (d # ds) =
     (if (of_char c :: nat) < of_char d then Less_ordering
      else if (of_char d :: nat) < of_char c then Greater_ordering else string_compare cs ds)"

definition lit_compare :: "literal \<Rightarrow> literal \<Rightarrow> strong_ordering" where
  "lit_compare a b = (if lit_value a < lit_value b then Less_ordering
     else if lit_value a = lit_value b then Equal_ordering else Greater_ordering)"

definition lit_compare_other :: "fields \<Rightarrow> literal \<Rightarrow> fields \<Rightarrow> literal \<Rightarrow> strong_ordering" where
  "lit_compare_other fields a other b = string_compare (find_name fields a) (find_name other b)"

definition lit_compare_string :: "fields \<Rightarrow> literal \<Rightarrow> string \<Rightarrow> strong_ordering" where
  "lit_compare_string fields a str = string_compare (find_name fields a) str"

definition lit_eq :: "literal \<Rightarrow> literal \<Rightarrow> bool" where
  "lit_eq a b \<longleftrightarrow> lit_compare a b = Equal_ordering"

definition lit_eq_string :: "fields \<Rightarrow> literal \<Rightarrow> string \<Rightarrow> bool" where
  "lit_eq_string fields a str \<longleftrightarrow> lit_compare_string fields a str = Equal_ordering"

text \<open>The order of the literals of one class is the order of their values.\<close>

instantiation literal :: linorder
begin

definition less_eq_literal :: "literal \<Rightarrow> literal \<Rightarrow> bool" where
  "a \<le> b \<longleftrightarrow> lit_value a \<le> lit_value b"

definition less_literal :: "literal \<Rightarrow> literal \<Rightarrow> bool" where
  "a < b \<longleftrightarrow> lit_value a < lit_value b"

instance
  by standard (auto simp: less_eq_literal_def less_literal_def literal.expand)

end

lemma lit_compare_order:
  "lit_compare a b = (if a < b then Less_ordering else if a = b then Equal_ordering else Greater_ordering)"
  by (simp add: lit_compare_def less_literal_def literal.expand)

section \<open>Lemmas\<close>

text \<open>A literal of a list of fields: its value is a position in it.\<close>

definition lit_ok :: "fields \<Rightarrow> literal \<Rightarrow> bool" where
  "lit_ok fields l \<longleftrightarrow> lit_value l < num_fields fields"

lemma fields_ok_distinct: "fields_ok fields \<Longrightarrow> distinct fields"
  by (cases fields; cases "tl fields") (auto simp: fields_ok_def has_duplicates_def num_fields_def)

lemma lit_of_int_small: "fields_ok fields \<Longrightarrow> v < num_fields fields \<Longrightarrow> lit_of_int fields v = Literal v"
  by (auto simp: fields_ok_def lit_of_int_def value_limit_def split: if_splits)

lemma find_value_prefix:
  assumes "fold (find_value_set_if_matches fields str) [0..<n] (False, 0) = (found, idx)"
  shows "found = (\<exists>i < n. fields ! i = str)" and "found \<Longrightarrow> idx < n \<and> fields ! idx = str"
proof -
  have "found = (\<exists>i < n. fields ! i = str) \<and> (found \<longrightarrow> idx < n \<and> fields ! idx = str)"
    using assms
  proof (induction n arbitrary: found idx)
    case (Suc n)
    obtain f x where fx: "fold (find_value_set_if_matches fields str) [0..<n] (False, 0) = (f, x)" by (rule prod.exhaust)
    have "(found, idx) = find_value_set_if_matches fields str n (f, x)" using Suc.prems fx by simp
    with Suc.IH [OF fx] show ?case
      by (cases f) (auto simp: find_value_set_if_matches_def less_Suc_eq split: if_splits)
  qed simp
  then show "found = (\<exists>i < n. fields ! i = str)" "found \<Longrightarrow> idx < n \<and> fields ! idx = str" by blast+
qed

lemma find_value_set_idx_spec:
  assumes "find_value_set_idx fields str = (found, idx)"
  shows "found = (str \<in> set fields)" and "found \<Longrightarrow> idx < num_fields fields \<and> fields ! idx = str"
  using find_value_prefix [OF assms [unfolded find_value_set_idx_def]] by (auto simp: in_set_conv_nth num_fields_def)

lemma find_value_cases:
  obtains (found) idx where "str \<in> set fields" "find_value fields str = Inr idx" "idx < num_fields fields" "fields ! idx = str"
  | (missing) msg where "str \<notin> set fields" "find_value fields str = Inl msg"
proof (cases "find_value_set_idx fields str")
  case (Pair found idx)
  show thesis
    using find_value_set_idx_spec [OF Pair] Pair that by (cases found) (auto simp: find_value_def)
qed

lemma find_name_prefix:
  "fold (find_name_set_if_matches fields l) [0..<n] '''' = (if lit_value l < n then fields ! lit_value l else '''')"
  by (induction n) (auto simp: find_name_set_if_matches_def less_Suc_eq)

lemma find_name_nth: "lit_ok fields l \<Longrightarrow> find_name fields l = fields ! lit_value l"
  by (simp add: find_name_def find_name_prefix lit_ok_def)

lemma allowed_strings_vec_all: "allowed_strings_vec fields = fields"
proof -
  have "fold (\<lambda>i values. values @ [fields ! i]) [0..<n] [] = take n fields" if "n \<le> length fields" for n
    using that by (induction n) (auto simp: take_Suc_conv_app_nth)
  then show ?thesis by (simp add: allowed_strings_vec_def num_fields_def)
qed

lemma find_value_of_from_spec:
  "name \<in> set fs \<Longrightarrow> \<exists>k < length fs. fs ! k = name \<and> find_value_of_from fs name i = int (i + k)"
  "name \<notin> set fs \<Longrightarrow> find_value_of_from fs name i = - 1"
proof (induction fs arbitrary: i)
  case (Cons f fs)
  {
    case 1
    show ?case
    proof (cases "f = name")
      case False
      then obtain k where "k < length fs" "fs ! k = name" "find_value_of_from fs name (i + 1) = int (i + 1 + k)"
        using 1 Cons.IH(1) [of "i + 1"] by auto
      then show ?thesis using False by (intro exI [of _ "Suc k"]) simp
    qed auto
  next
    case 2
    then show ?case using Cons.IH(2) by auto
  }
qed simp_all

lemma contains_static: "lit_contains_static fields name \<longleftrightarrow> name \<in> set fields"
  using find_value_of_from_spec [of name fields 0] by (auto simp: lit_contains_static_def find_value_of_def)

lemma contains_any_spec: "contains_any fields other \<longleftrightarrow> set fields \<inter> set other \<noteq> {}"
  by (induction fields) (auto simp: contains_static)

lemma contains_all_from_spec:
  "contains_all_from fs other n \<longleftrightarrow> n + length (filter (\<lambda>f. f \<in> set other) fs) = num_fields other"
  by (induction fs arbitrary: n) (auto simp: contains_static)

lemma string_compare_eq: "string_compare a b = Equal_ordering \<longleftrightarrow> a = b"
  by (induction a b rule: string_compare.induct) (auto simp: not_less dest: antisym)

section \<open>The literals of a class that compiles\<close>

locale literal_fields =
  fixes fields :: fields
  assumes ok: "fields_ok fields"
begin

lemma distinct_fields: "distinct fields"
  by (rule fields_ok_distinct [OF ok])

lemma of_position [simp]: "v < num_fields fields \<Longrightarrow> lit_of_int fields v = Literal v"
  by (rule lit_of_int_small [OF ok])

lemma from_string_some: "str \<in> set fields \<Longrightarrow> \<exists>l. from_string fields str = Inr l \<and> lit_ok fields l \<and> find_name fields l = str"
  by (cases rule: find_value_cases [of str fields]) (auto simp: from_string_def lit_ok_def find_name_nth)

lemma from_string_none: "str \<notin> set fields \<Longrightarrow> \<exists>msg. from_string fields str = Inl msg"
  by (cases rule: find_value_cases [of str fields]) (auto simp: from_string_def)

lemma name_in_fields: "lit_ok fields l \<Longrightarrow> find_name fields l \<in> set fields"
  by (simp add: find_name_nth lit_ok_def num_fields_def)

lemma name_inj: "lit_ok fields l \<Longrightarrow> lit_ok fields m \<Longrightarrow> find_name fields l = find_name fields m \<longleftrightarrow> l = m"
  using distinct_fields by (auto simp: find_name_nth lit_ok_def num_fields_def nth_eq_iff_index_eq literal.expand)

lemma from_string_iff: "from_string fields str = Inr l \<longleftrightarrow> lit_ok fields l \<and> find_name fields l = str"
proof (cases "str \<in> set fields")
  case True
  then obtain m where "from_string fields str = Inr m" "lit_ok fields m" "find_name fields m = str" using from_string_some by blast
  then show ?thesis using name_inj by auto
next
  case False
  then show ?thesis using from_string_none name_in_fields by fastforce
qed

lemma lit_of_string_iff: "lit_of_string fields str = Inr l \<longleftrightarrow> lit_ok fields l \<and> find_name fields l = str"
  unfolding from_string_iff [symmetric]
  by (auto simp: lit_of_string_def from_string_def result_value_def split: sum.splits)

lemma make_iff: "lit_make fields str = Some l \<longleftrightarrow> lit_ok fields l \<and> find_name fields l = str"
proof (cases "str \<in> set fields")
  case True
  then obtain k where k: "k < num_fields fields" "fields ! k = str" "find_value_of fields str = int k"
    using find_value_of_from_spec(1) [of str fields 0] by (auto simp: find_value_of_def num_fields_def)
  then have "lit_make fields str = Some (Literal k)" "lit_ok fields (Literal k)" "find_name fields (Literal k) = str"
    by (auto simp: lit_make_def value_of_def lit_ok_def find_name_nth Let_def)
  then show ?thesis using name_inj by auto
next
  case False
  then have "lit_make fields str = None"
    using find_value_of_from_spec(2) [of str fields 0] by (simp add: lit_make_def value_of_def find_value_of_def)
  then show ?thesis using False name_in_fields by auto
qed

lemma assign_ok:
  "lit_ok fields l \<Longrightarrow> lit_ok fields (snd (lit_assign fields str l)) \<and>
     (str \<notin> set fields \<longrightarrow> snd (lit_assign fields str l) = l)"
  by (cases rule: find_value_cases [of str fields])
    (auto simp: lit_assign_def result_value_def throw_def modify_def lit_ok_def)

lemma from_string_ok: "pred_sum (\<lambda>_. True) (lit_ok fields) (from_string fields str)"
  using from_string_iff [of str] by (cases "from_string fields str") auto

lemma from_value_ok: "pred_sum (\<lambda>_. True) (lit_ok fields) (from_value fields v)"
  by (simp add: from_value_def lit_ok_def)

lemma make_ok: "pred_option (lit_ok fields) (lit_make fields str)"
  using make_iff [of str] by (cases "lit_make fields str") auto

lemma default_ok: "pred_sum (\<lambda>_. True) (lit_ok fields) (lit_default fields)"
  unfolding lit_default_def using lit_of_string_iff [of "''nanoseconds''"]
  by (cases "lit_of_string fields ''nanoseconds''") auto

lemma round_trip:
  "(lit_ok fields l \<longrightarrow> from_string fields (find_name fields l) = Inr l) \<and>
   ((\<exists>m. from_string fields str = Inr m) \<longleftrightarrow> str \<in> set fields) \<and>
   (\<forall>m. from_string fields str = Inr m \<longrightarrow> find_name fields m = str)"
  using from_string_some [of str] name_in_fields unfolding from_string_iff by blast

end

section \<open>Properties\<close>

definition demo_fields :: fields where
  "demo_fields = [''on'', ''off'', ''auto'']"

lemma demo_fields_ok: "fields_ok demo_fields"
  by (simp add: demo_fields_def fields_ok_def num_fields_def value_limit_def has_duplicates_def)

text \<open>
  C39: In a class whose static assertions hold, every way to a literal gives one of the fields: the constructors from a
  string and from a value, the compile-time ones, the default constructor, and the assignment, which on an unknown
  string throws and keeps the old value.
\<close>

theorem literal_well_typed:
  assumes "fields_ok fields" and "lit_ok fields l"
  shows "pred_sum (\<lambda>_. True) (lit_ok fields) (from_string fields str) \<and>
    pred_sum (\<lambda>_. True) (lit_ok fields) (from_value fields v) \<and>
    pred_option (lit_ok fields) (lit_make fields str) \<and>
    pred_sum (\<lambda>_. True) (lit_ok fields) (lit_default fields) \<and>
    lit_ok fields (snd (lit_assign fields str l)) \<and>
    (str \<notin> set fields \<longrightarrow> snd (lit_assign fields str l) = l)"
  using literal_fields.from_string_ok literal_fields.from_value_ok literal_fields.make_ok literal_fields.default_ok
    literal_fields.assign_ok assms unfolding literal_fields_def by blast

theorem literal_well_typed_witness:
  "from_value demo_fields 2 = Inr (Literal 2) \<and> lit_ok demo_fields (Literal 2) \<and>
   snd (lit_assign demo_fields ''maybe'' (Literal 1)) = Literal 1"
  using literal_well_typed [OF demo_fields_ok, of "Literal 1" "''maybe''" 2]
  by (simp add: demo_fields_def from_value_def lit_of_int_def value_limit_def num_fields_def lit_ok_def)

text \<open>
  The name of a literal is read back as the same literal, and a string is accepted by \<^verbatim>\<open>from_string\<close> exactly when
  it is a field, as the literal with that name.
\<close>

lemma literal_round_trip:
  assumes "fields_ok fields" and "lit_ok fields l"
  shows "from_string fields (find_name fields l) = Inr l \<and>
    ((\<exists>m. from_string fields str = Inr m) \<longleftrightarrow> str \<in> set fields) \<and>
    (\<forall>m. from_string fields str = Inr m \<longrightarrow> find_name fields m = str)"
  using literal_fields.round_trip [of fields l str] assms unfolding literal_fields_def by blast

lemma literal_round_trip_witness:
  "from_string demo_fields ''off'' = Inr (Literal 1) \<and> \<not> (\<exists>l. from_string demo_fields ''OFF'' = Inr l)"
  using literal_round_trip [OF demo_fields_ok, of "Literal 1" "''OFF''"]
  by (simp add: demo_fields_def lit_ok_def num_fields_def find_name_nth)

text \<open>
  C40: The compile-time test \<^verbatim>\<open>contains_all\<close>, which counts the own fields that the other literal has and compares the
  count with the other's size, decides that every field of the other literal is one of the own; \<^verbatim>\<open>contains_any\<close> decides
  that some field is in both.
\<close>

theorem literal_containment:
  assumes "fields_ok fields" and "fields_ok other"
  shows "(contains_all fields other \<longleftrightarrow> set other \<subseteq> set fields) \<and>
    (contains_any fields other \<longleftrightarrow> set fields \<inter> set other \<noteq> {})"
proof -
  note d = fields_ok_distinct [OF assms(1)] fields_ok_distinct [OF assms(2)]
  have "length (filter (\<lambda>f. f \<in> set other) fields) = card (set other \<inter> set fields)"
    using d(1) distinct_card [of "filter (\<lambda>f. f \<in> set other) fields"] by (simp add: Collect_conj_eq Int_commute)
  moreover have "num_fields other = card (set other)" using d(2) by (simp add: distinct_card num_fields_def)
  moreover have "card (set other \<inter> set fields) = card (set other) \<longleftrightarrow> set other \<subseteq> set fields"
    by (metis card_subset_eq finite_set inf.absorb1 inf_le1 inf_le2)
  ultimately show ?thesis by (simp add: contains_all_def contains_all_from_spec contains_any_spec)
qed

theorem literal_containment_witness:
  "contains_all demo_fields [''off''] \<and> contains_any demo_fields [''off'']"
proof -
  have "fields_ok [''off'']" by (simp add: fields_ok_def num_fields_def value_limit_def)
  then show ?thesis using literal_containment [OF demo_fields_ok, of "[''off'']"] by (simp add: demo_fields_def)
qed

text \<open>Equality of literals, and of a literal with a string, is equality of names.\<close>

lemma literal_equality:
  assumes "fields_ok fields" and "lit_ok fields a" and "lit_ok fields b"
  shows "lit_eq a b \<longleftrightarrow> find_name fields a = find_name fields b"
    and "lit_eq_string fields a str \<longleftrightarrow> find_name fields a = str"
  using literal_fields.name_inj [of fields a b] assms
  by (auto simp: lit_eq_def lit_compare_def literal.expand lit_eq_string_def lit_compare_string_def string_compare_eq
    literal_fields_def split: if_splits)

text \<open>\<^verbatim>\<open>name_of\<close> throws for every field but one: the default constructor looks for \<^verbatim>\<open>nanoseconds\<close>.\<close>

lemma name_of_throws: "v < num_fields fields \<Longrightarrow> fields ! v \<noteq> ''nanoseconds'' \<Longrightarrow> \<exists>e. name_of fields v = Inl e"
  by (cases rule: find_value_cases [of "''nanoseconds''" "[fields ! v]"])
    (auto simp: name_of_def lit_default_def lit_of_string_def result_value_def)

end
