(* ===== verification/Chrono_Config.thy ===== *)
theory Chrono_Config
  imports Literal "HOL-Library.Signed_Division"
begin

text \<open>
  The reader and writer of durations in configuration files, src/src/base/logger/rfl_chrono_crutch/_chrono_parser.h:
  a duration is the pair of a count and a unit, the unit being a literal of ten fields. The types of \<^verbatim>\<open>std::chrono\<close>
  differ in their period, counts are signed 64-bit numbers. The reader and writer of the pair itself are outside the
  program; they are the identity on it here, so a pair that was read is the argument of \<open>read_duration\<close>.
\<close>

section \<open>Units\<close>

definition unit_fields :: fields where
  "unit_fields = [''nanoseconds'', ''microseconds'', ''milliseconds'', ''seconds'', ''minutes'', ''hours'', ''days'',
     ''weeks'', ''months'', ''years'']"

lemma unit_fields_ok: "fields_ok unit_fields"
  by (simp add: unit_fields_def fields_ok_def num_fields_def value_limit_def has_duplicates_def)

interpretation unit_literal: literal_fields unit_fields
  by unfold_locales (rule unit_fields_ok)

text \<open>The duration types of \<^verbatim>\<open>SupportedTypes\<close>.\<close>

datatype chrono = Nanoseconds | Microseconds | Milliseconds | Seconds | Minutes | Hours | Days | Weeks | Months | Years

text \<open>The periods the standard gives them, in nanoseconds.\<close>

fun period_ns :: "chrono \<Rightarrow> int" where
  "period_ns Nanoseconds = 1"
| "period_ns Microseconds = 1000"
| "period_ns Milliseconds = 1000000"
| "period_ns Seconds = 1000000000"
| "period_ns Minutes = 60 * 1000000000"
| "period_ns Hours = 3600 * 1000000000"
| "period_ns Days = 86400 * 1000000000"
| "period_ns Weeks = 604800 * 1000000000"
| "period_ns Months = 2629746 * 1000000000"
| "period_ns Years = 31556952 * 1000000000"

text \<open>A duration is its type and its count.\<close>

type_synonym duration_value = "chrono \<times> int"

definition int64 :: "int \<Rightarrow> bool" where
  "int64 c \<longleftrightarrow> - (2 ^ 63) \<le> c \<and> c < 2 ^ 63"

text \<open>
  \<^verbatim>\<open>std::chrono::duration_cast\<close>: by the ratio of the periods in lowest terms, multiplying before dividing, with the
  division of C++. The product of signed 64-bit numbers is undefined outside their range.
\<close>

definition duration_cast :: "chrono \<Rightarrow> duration_value \<Rightarrow> error + int" where
  "duration_cast to d = (case d of (p, c) \<Rightarrow>
     let g = gcd (period_ns p) (period_ns to); num = period_ns p div g; den = period_ns to div g in
     if int64 (c * num) then Inr ((c * num) sdiv den) else Inl (Undefined_behaviour ''signed overflow''))"

section \<open>Reading and writing\<close>

record rtype =
  rt_count :: int
  rt_unit :: literal

definition to_duration :: "rtype \<Rightarrow> error + duration_value" where
  "to_duration r = (let v = Some (lit_value (rt_unit r)) in
     if v = value_of unit_fields ''nanoseconds'' then Inr (Nanoseconds, rt_count r)
     else if v = value_of unit_fields ''microseconds'' then Inr (Microseconds, rt_count r)
     else if v = value_of unit_fields ''milliseconds'' then Inr (Milliseconds, rt_count r)
     else if v = value_of unit_fields ''seconds'' then Inr (Seconds, rt_count r)
     else if v = value_of unit_fields ''minutes'' then Inr (Minutes, rt_count r)
     else if v = value_of unit_fields ''days'' then Inr (Days, rt_count r)
     else if v = value_of unit_fields ''weeks'' then Inr (Weeks, rt_count r)
     else if v = value_of unit_fields ''months'' then Inr (Months, rt_count r)
     else if v = value_of unit_fields ''years'' then Inr (Years, rt_count r)
     else Inl (Runtime_error ''Unsupported unit.''))"

fun unit_name :: "chrono \<Rightarrow> string" where
  "unit_name Nanoseconds = ''nanoseconds''"
| "unit_name Microseconds = ''microseconds''"
| "unit_name Milliseconds = ''milliseconds''"
| "unit_name Seconds = ''seconds''"
| "unit_name Minutes = ''minutes''"
| "unit_name Hours = ''hours''"
| "unit_name Days = ''days''"
| "unit_name Weeks = ''weeks''"
| "unit_name Months = ''months''"
| "unit_name Years = ''years''"

definition make_unit :: "chrono \<Rightarrow> literal option" where
  "make_unit p = lit_make unit_fields (unit_name p)"

definition read_duration :: "chrono \<Rightarrow> rtype \<Rightarrow> error + int" where
  "read_duration to r = (case to_duration r of Inl e \<Rightarrow> Inl e | Inr d \<Rightarrow> duration_cast to d)"

definition write_duration :: "duration_value \<Rightarrow> rtype" where
  "write_duration d = (case d of (p, c) \<Rightarrow> \<lparr>rt_count = c, rt_unit = the (make_unit p)\<rparr>)"

section \<open>Lemmas\<close>

definition chrono_index :: "chrono \<Rightarrow> nat" where
  "chrono_index p = (case p of Nanoseconds \<Rightarrow> 0 | Microseconds \<Rightarrow> 1 | Milliseconds \<Rightarrow> 2 | Seconds \<Rightarrow> 3 | Minutes \<Rightarrow> 4
     | Hours \<Rightarrow> 5 | Days \<Rightarrow> 6 | Weeks \<Rightarrow> 7 | Months \<Rightarrow> 8 | Years \<Rightarrow> 9)"

lemma value_of_unit: "value_of unit_fields (unit_name p) = Some (chrono_index p)"
  by (cases p) (simp_all add: value_of_def find_value_of_def unit_fields_def chrono_index_def)

lemmas value_of_units = value_of_unit [of Nanoseconds, simplified] value_of_unit [of Microseconds, simplified]
  value_of_unit [of Milliseconds, simplified] value_of_unit [of Seconds, simplified] value_of_unit [of Minutes, simplified]
  value_of_unit [of Days, simplified] value_of_unit [of Weeks, simplified] value_of_unit [of Months, simplified]
  value_of_unit [of Years, simplified]

text \<open>Every duration type has its unit, so the writer always has one to write.\<close>

lemma make_unit_index: "make_unit p = Some (Literal (chrono_index p))"
proof -
  have "chrono_index p < num_fields unit_fields" by (cases p) (simp_all add: chrono_index_def num_fields_def unit_fields_def)
  then show ?thesis by (simp add: make_unit_def lit_make_def value_of_unit)
qed

lemma to_duration_index:
  "to_duration \<lparr>rt_count = c, rt_unit = Literal (chrono_index p)\<rparr> =
     (if p = Hours then Inl (Runtime_error ''Unsupported unit.'') else Inr (p, c))"
  by (cases p) (simp_all add: to_duration_def value_of_units chrono_index_def)

lemma period_pos [simp]: "0 < period_ns p"
  by (cases p) simp_all

lemma period_abs [simp]: "\<bar>period_ns p\<bar> = period_ns p" "period_ns p \<noteq> 0"
  by (cases p; simp)+

lemma sdiv_cancel:
  fixes a b g :: int assumes "0 < g" shows "(g * a) sdiv (g * b) = a sdiv b"
  using assms by (simp add: signed_divide_int_def sgn_mult abs_mult)

lemma duration_cast_exact:
  assumes "int64 (c * (period_ns p div gcd (period_ns p) (period_ns q)))"
  shows "duration_cast q (p, c) = Inr ((c * period_ns p) sdiv period_ns q)"
proof -
  let ?g = "gcd (period_ns p) (period_ns q)"
  have g: "0 < ?g" by (simp add: gcd_pos_int less_imp_neq [THEN not_sym])
  have "(c * (period_ns p div ?g)) sdiv (period_ns q div ?g) = (?g * (c * (period_ns p div ?g))) sdiv (?g * (period_ns q div ?g))"
    by (rule sdiv_cancel [OF g, symmetric])
  also have "\<dots> = (c * period_ns p) sdiv period_ns q" by (simp add: mult.left_commute)
  finally show ?thesis using assms by (simp add: duration_cast_def Let_def)
qed

lemma duration_cast_same: "int64 c \<Longrightarrow> duration_cast p (p, c) = Inr c"
  by (simp add: duration_cast_def signed_divide_int_def mult_sgn_abs)

lemma read_after_write: "p \<noteq> Hours \<Longrightarrow> read_duration q (write_duration (p, c)) = duration_cast q (p, c)"
  by (simp add: read_duration_def write_duration_def make_unit_index to_duration_index)

lemma cast_to_finer:
  assumes "period_ns q dvd period_ns p"
  shows "duration_cast q (p, c) =
    (let k = period_ns p div period_ns q in
     if int64 (c * k) then Inr (c * k) else Inl (Undefined_behaviour ''signed overflow''))"
  using assms by (simp add: duration_cast_def gcd_proj2_if_dvd_int Let_def signed_divide_int_def mult_sgn_abs)

lemma cast_to_coarser:
  assumes "period_ns p dvd period_ns q" and "int64 c"
  shows "duration_cast q (p, c) = Inr (c sdiv (period_ns q div period_ns p))"
  using assms by (simp add: duration_cast_def gcd_proj1_if_dvd_int Let_def)

lemma sdiv_truncates:
  fixes c k :: int assumes "0 < k"
  shows "\<bar>(c sdiv k) * k\<bar> \<le> \<bar>c\<bar>" and "\<bar>c - (c sdiv k) * k\<bar> < k" and "int64 c \<Longrightarrow> int64 (c sdiv k)"
proof -
  have d: "\<bar>c\<bar> div k * k \<le> \<bar>c\<bar>" "\<bar>c\<bar> < \<bar>c\<bar> div k * k + k" "0 \<le> \<bar>c\<bar> div k"
    using assms div_mult_mod_eq [of "\<bar>c\<bar>" k] pos_mod_sign [of k "\<bar>c\<bar>"] pos_mod_bound [of k "\<bar>c\<bar>"]
    by (linarith, linarith, simp add: pos_imp_zdiv_nonneg_iff)
  have q: "c sdiv k = (if c < 0 then - (\<bar>c\<bar> div k) else \<bar>c\<bar> div k)"
    using assms by (auto simp: signed_divide_int_def sgn_if)
  show "\<bar>(c sdiv k) * k\<bar> \<le> \<bar>c\<bar>" "\<bar>c - (c sdiv k) * k\<bar> < k" using d assms by (auto simp: q abs_mult)
  have "\<bar>c\<bar> div k \<le> \<bar>c\<bar>" using d(1,3) assms by (smt (verit) mult_le_cancel_left1 mult.commute)
  then show "int64 c \<Longrightarrow> int64 (c sdiv k)" using d(3) by (auto simp: q int64_def)
qed

section \<open>Properties\<close>

text \<open>
  C38: A duration written to a configuration is read back with the same count, for every type but hours: the writer
  gives hours a unit that the reader refuses.
\<close>

theorem duration_round_trip:
  assumes "int64 c"
  shows "read_duration p (write_duration (p, c)) =
    (if p = Hours then Inl (Runtime_error ''Unsupported unit.'') else Inr c)"
  using duration_cast_same [OF assms, of p]
  by (simp add: read_duration_def write_duration_def make_unit_index to_duration_index)

theorem duration_round_trip_witness:
  "read_duration Weeks (write_duration (Weeks, - 7)) = Inr (- 7) \<and>
   read_duration Hours (write_duration (Hours, 1)) = Inl (Runtime_error ''Unsupported unit.'')"
  using duration_round_trip [of "- 7" Weeks] duration_round_trip [of 1 Hours] by (simp add: int64_def)

text \<open>
  C37: Reading a count of one unit, other than hours, as a duration of another: when the wanted unit divides the given
  one, the count is scaled exactly as long as the product fits 64 bits, and the multiplication overflows otherwise; when
  it is a multiple of the given one, the read always succeeds and rounds toward zero, by less than one wanted unit.
  Counts in hours are refused by the reader; pairs of units of which neither divides the other are not covered.
\<close>

theorem duration_read_bounds:
  assumes "int64 c" and "p \<noteq> Hours"
  shows "(period_ns q dvd period_ns p \<longrightarrow> read_duration q (write_duration (p, c)) =
      (let k = period_ns p div period_ns q in
       if int64 (c * k) then Inr (c * k) else Inl (Undefined_behaviour ''signed overflow''))) \<and>
    (period_ns p dvd period_ns q \<longrightarrow> (\<exists>r. read_duration q (write_duration (p, c)) = Inr r \<and> int64 r \<and>
       \<bar>r * (period_ns q div period_ns p)\<bar> \<le> \<bar>c\<bar> \<and> \<bar>c - r * (period_ns q div period_ns p)\<bar> < period_ns q div period_ns p))"
proof (intro conjI impI)
  assume "period_ns p dvd period_ns q"
  moreover from this have "0 < period_ns q div period_ns p" by (metis dvd_div_eq_0_iff dvd_div_mult_self period_pos
    less_le mult_zero_left zdiv_mono1 pos_imp_zdiv_nonneg_iff)
  ultimately show "\<exists>r. read_duration q (write_duration (p, c)) = Inr r \<and> int64 r \<and>
       \<bar>r * (period_ns q div period_ns p)\<bar> \<le> \<bar>c\<bar> \<and> \<bar>c - r * (period_ns q div period_ns p)\<bar> < period_ns q div period_ns p"
    using assms sdiv_truncates by (simp add: read_after_write cast_to_coarser)
qed (simp add: assms read_after_write cast_to_finer)

theorem duration_read_bounds_witness:
  "read_duration Nanoseconds (write_duration (Seconds, 9223372036)) = Inr 9223372036000000000 \<and>
   read_duration Nanoseconds (write_duration (Seconds, 9223372037)) = Inl (Undefined_behaviour ''signed overflow'') \<and>
   (\<exists>r. read_duration Minutes (write_duration (Seconds, - 119)) = Inr r \<and> \<bar>r * 60\<bar> \<le> 119 \<and> \<bar>- 119 - r * 60\<bar> < 60)"
  using duration_read_bounds [of 9223372036 Seconds Nanoseconds] duration_read_bounds [of 9223372037 Seconds Nanoseconds]
    duration_read_bounds [of "- 119" Seconds Minutes] by (auto simp: int64_def)

end
