(* ===== verification/Rdtsc_Clock.thy ===== *)
theory Rdtsc_Clock
  imports Chrono_Config
begin

text \<open>
  The clock over the processor's tick counter, src/src/base/clock: durations and time points are unsigned 64-bit tick
  counts, so every operation wraps around. The ratio of ticks to nanoseconds is measured once per thread; its value
  and the conversions that use it are floating-point numbers, which are the parameter \<open>fp_api\<close>. The counter itself
  and the wall clock are parameters too.
\<close>

section \<open>Durations\<close>

datatype rdtsc_duration = RdtscDuration (ticks: u64)

definition RdtscDuration_plus :: "rdtsc_duration \<Rightarrow> rdtsc_duration" where
  "RdtscDuration_plus d = d"

definition RdtscDuration_neg :: "rdtsc_duration \<Rightarrow> rdtsc_duration" where
  "RdtscDuration_neg d = RdtscDuration (- ticks d)"

definition RdtscDuration_pre_inc :: "(rdtsc_duration, rdtsc_duration) prog" where
  "RdtscDuration_pre_inc = thenM (modify (\<lambda>d. RdtscDuration (ticks d + 1))) (gets id)"

definition RdtscDuration_post_inc :: "(rdtsc_duration, rdtsc_duration) prog" where
  "RdtscDuration_post_inc = bindM (gets id) (\<lambda>old. thenM (modify (\<lambda>d. RdtscDuration (ticks d + 1))) (ret old))"

definition RdtscDuration_pre_dec :: "(rdtsc_duration, rdtsc_duration) prog" where
  "RdtscDuration_pre_dec = thenM (modify (\<lambda>d. RdtscDuration (ticks d - 1))) (gets id)"

definition RdtscDuration_post_dec :: "(rdtsc_duration, rdtsc_duration) prog" where
  "RdtscDuration_post_dec = bindM (gets id) (\<lambda>old. thenM (modify (\<lambda>d. RdtscDuration (ticks d - 1))) (ret old))"

definition RdtscDuration_add_assign :: "rdtsc_duration \<Rightarrow> (rdtsc_duration, unit) prog" where
  "RdtscDuration_add_assign d = modify (\<lambda>s. RdtscDuration (ticks s + ticks d))"

definition RdtscDuration_sub_assign :: "rdtsc_duration \<Rightarrow> (rdtsc_duration, unit) prog" where
  "RdtscDuration_sub_assign d = modify (\<lambda>s. RdtscDuration (ticks s - ticks d))"

definition RdtscDuration_mult_assign :: "u64 \<Rightarrow> (rdtsc_duration, unit) prog" where
  "RdtscDuration_mult_assign rhs = modify (\<lambda>s. RdtscDuration (ticks s * rhs))"

definition RdtscDuration_div_assign :: "u64 \<Rightarrow> (rdtsc_duration, unit) prog" where
  "RdtscDuration_div_assign rhs =
     thenM (defined_if (rhs \<noteq> 0) ''division by zero'') (modify (\<lambda>s. RdtscDuration (ticks s div rhs)))"

definition RdtscDuration_mod_assign :: "u64 \<Rightarrow> (rdtsc_duration, unit) prog" where
  "RdtscDuration_mod_assign rhs =
     thenM (defined_if (rhs \<noteq> 0) ''division by zero'') (modify (\<lambda>s. RdtscDuration (ticks s mod rhs)))"

definition RdtscDuration_mod_assign_duration :: "rdtsc_duration \<Rightarrow> (rdtsc_duration, unit) prog" where
  "RdtscDuration_mod_assign_duration rhs =
     thenM (defined_if (ticks rhs \<noteq> 0) ''division by zero'') (modify (\<lambda>s. RdtscDuration (ticks s mod ticks rhs)))"

definition RdtscDuration_zero :: rdtsc_duration where
  "RdtscDuration_zero = RdtscDuration 0"

definition RdtscDuration_min :: rdtsc_duration where
  "RdtscDuration_min = RdtscDuration 0"

definition RdtscDuration_max :: rdtsc_duration where
  "RdtscDuration_max = RdtscDuration (- 1)"

definition RdtscDuration_add :: "rdtsc_duration \<Rightarrow> rdtsc_duration \<Rightarrow> rdtsc_duration" where
  "RdtscDuration_add lhs rhs = RdtscDuration (ticks lhs + ticks rhs)"

definition RdtscDuration_sub :: "rdtsc_duration \<Rightarrow> rdtsc_duration \<Rightarrow> rdtsc_duration" where
  "RdtscDuration_sub lhs rhs = RdtscDuration (ticks lhs - ticks rhs)"

definition RdtscDuration_mult :: "rdtsc_duration \<Rightarrow> u64 \<Rightarrow> rdtsc_duration" where
  "RdtscDuration_mult lhs rhs = RdtscDuration (ticks lhs * rhs)"

definition RdtscDuration_mult_left :: "u64 \<Rightarrow> rdtsc_duration \<Rightarrow> rdtsc_duration" where
  "RdtscDuration_mult_left lhs rhs = RdtscDuration (lhs * ticks rhs)"

definition RdtscDuration_div :: "rdtsc_duration \<Rightarrow> u64 \<Rightarrow> error + rdtsc_duration" where
  "RdtscDuration_div lhs rhs = (if rhs = 0 then Inl (Undefined_behaviour ''division by zero'') else Inr (RdtscDuration (ticks lhs div rhs)))"

definition RdtscDuration_ratio :: "rdtsc_duration \<Rightarrow> rdtsc_duration \<Rightarrow> error + u64" where
  "RdtscDuration_ratio lhs rhs = (if ticks rhs = 0 then Inl (Undefined_behaviour ''division by zero'') else Inr (ticks lhs div ticks rhs))"

definition RdtscDuration_mod :: "rdtsc_duration \<Rightarrow> u64 \<Rightarrow> error + rdtsc_duration" where
  "RdtscDuration_mod lhs rhs = (if rhs = 0 then Inl (Undefined_behaviour ''division by zero'') else Inr (RdtscDuration (ticks lhs mod rhs)))"

definition RdtscDuration_mod_duration :: "rdtsc_duration \<Rightarrow> rdtsc_duration \<Rightarrow> error + rdtsc_duration" where
  "RdtscDuration_mod_duration lhs rhs =
     (if ticks rhs = 0 then Inl (Undefined_behaviour ''division by zero'') else Inr (RdtscDuration (ticks lhs mod ticks rhs)))"

definition RdtscDuration_eq :: "rdtsc_duration \<Rightarrow> rdtsc_duration \<Rightarrow> bool" where
  "RdtscDuration_eq lhs rhs \<longleftrightarrow> ticks lhs = ticks rhs"

definition RdtscDuration_ne :: "rdtsc_duration \<Rightarrow> rdtsc_duration \<Rightarrow> bool" where
  "RdtscDuration_ne lhs rhs \<longleftrightarrow> ticks lhs \<noteq> ticks rhs"

definition RdtscDuration_lt :: "rdtsc_duration \<Rightarrow> rdtsc_duration \<Rightarrow> bool" where
  "RdtscDuration_lt lhs rhs \<longleftrightarrow> ticks lhs < ticks rhs"

definition RdtscDuration_le :: "rdtsc_duration \<Rightarrow> rdtsc_duration \<Rightarrow> bool" where
  "RdtscDuration_le lhs rhs \<longleftrightarrow> ticks lhs \<le> ticks rhs"

definition RdtscDuration_gt :: "rdtsc_duration \<Rightarrow> rdtsc_duration \<Rightarrow> bool" where
  "RdtscDuration_gt lhs rhs \<longleftrightarrow> ticks lhs > ticks rhs"

definition RdtscDuration_ge :: "rdtsc_duration \<Rightarrow> rdtsc_duration \<Rightarrow> bool" where
  "RdtscDuration_ge lhs rhs \<longleftrightarrow> ticks lhs \<ge> ticks rhs"

text \<open>The comparisons are an instance of the library's linear order.\<close>

instantiation rdtsc_duration :: linorder
begin

definition less_eq_rdtsc_duration :: "rdtsc_duration \<Rightarrow> rdtsc_duration \<Rightarrow> bool" where
  "lhs \<le> rhs \<longleftrightarrow> RdtscDuration_le lhs rhs"

definition less_rdtsc_duration :: "rdtsc_duration \<Rightarrow> rdtsc_duration \<Rightarrow> bool" where
  "lhs < rhs \<longleftrightarrow> RdtscDuration_lt lhs rhs"

instance
  by standard (auto simp: less_eq_rdtsc_duration_def less_rdtsc_duration_def RdtscDuration_le_def RdtscDuration_lt_def
    rdtsc_duration.expand)

end

lemma RdtscDuration_comparisons:
  "RdtscDuration_eq x y \<longleftrightarrow> x = y" "RdtscDuration_ne x y \<longleftrightarrow> x \<noteq> y" "RdtscDuration_lt x y \<longleftrightarrow> x < y"
  "RdtscDuration_le x y \<longleftrightarrow> x \<le> y" "RdtscDuration_gt x y \<longleftrightarrow> x > y" "RdtscDuration_ge x y \<longleftrightarrow> x \<ge> y"
  by (auto simp: RdtscDuration_eq_def RdtscDuration_ne_def RdtscDuration_gt_def RdtscDuration_ge_def
    RdtscDuration_lt_def RdtscDuration_le_def less_eq_rdtsc_duration_def less_rdtsc_duration_def rdtsc_duration.expand)

section \<open>Time points\<close>

datatype time_point = RdtscTimePoint (time_since_epoch: rdtsc_duration)

definition TimePoint_zero :: time_point where
  "TimePoint_zero = RdtscTimePoint RdtscDuration_zero"

definition TimePoint_of_duration :: "rdtsc_duration \<Rightarrow> time_point" where
  "TimePoint_of_duration d = RdtscTimePoint (RdtscDuration (ticks d))"

definition TimePoint_add_assign :: "rdtsc_duration \<Rightarrow> (time_point, unit) prog" where
  "TimePoint_add_assign d = zoom time_since_epoch (\<lambda>f t. RdtscTimePoint (f (time_since_epoch t))) (RdtscDuration_add_assign d)"

definition TimePoint_sub_assign :: "rdtsc_duration \<Rightarrow> (time_point, unit) prog" where
  "TimePoint_sub_assign d = zoom time_since_epoch (\<lambda>f t. RdtscTimePoint (f (time_since_epoch t))) (RdtscDuration_sub_assign d)"

definition TimePoint_add :: "time_point \<Rightarrow> rdtsc_duration \<Rightarrow> time_point" where
  "TimePoint_add lhs rhs = TimePoint_of_duration (RdtscDuration_add (time_since_epoch lhs) rhs)"

definition TimePoint_add_left :: "rdtsc_duration \<Rightarrow> time_point \<Rightarrow> time_point" where
  "TimePoint_add_left lhs rhs = TimePoint_of_duration (RdtscDuration_add lhs (time_since_epoch rhs))"

definition TimePoint_minus :: "time_point \<Rightarrow> rdtsc_duration \<Rightarrow> time_point" where
  "TimePoint_minus lhs rhs = TimePoint_of_duration (RdtscDuration_sub (time_since_epoch lhs) rhs)"

definition TimePoint_diff :: "time_point \<Rightarrow> time_point \<Rightarrow> rdtsc_duration" where
  "TimePoint_diff lhs rhs = RdtscDuration_sub (time_since_epoch lhs) (time_since_epoch rhs)"

definition TimePoint_eq :: "time_point \<Rightarrow> time_point \<Rightarrow> bool" where
  "TimePoint_eq lhs rhs \<longleftrightarrow> RdtscDuration_eq (time_since_epoch lhs) (time_since_epoch rhs)"

definition TimePoint_ne :: "time_point \<Rightarrow> time_point \<Rightarrow> bool" where
  "TimePoint_ne lhs rhs \<longleftrightarrow> RdtscDuration_ne (time_since_epoch lhs) (time_since_epoch rhs)"

definition TimePoint_lt :: "time_point \<Rightarrow> time_point \<Rightarrow> bool" where
  "TimePoint_lt lhs rhs \<longleftrightarrow> RdtscDuration_lt (time_since_epoch lhs) (time_since_epoch rhs)"

definition TimePoint_le :: "time_point \<Rightarrow> time_point \<Rightarrow> bool" where
  "TimePoint_le lhs rhs \<longleftrightarrow> RdtscDuration_le (time_since_epoch lhs) (time_since_epoch rhs)"

definition TimePoint_gt :: "time_point \<Rightarrow> time_point \<Rightarrow> bool" where
  "TimePoint_gt lhs rhs \<longleftrightarrow> RdtscDuration_gt (time_since_epoch lhs) (time_since_epoch rhs)"

definition TimePoint_ge :: "time_point \<Rightarrow> time_point \<Rightarrow> bool" where
  "TimePoint_ge lhs rhs \<longleftrightarrow> RdtscDuration_ge (time_since_epoch lhs) (time_since_epoch rhs)"

instantiation time_point :: linorder
begin

definition less_eq_time_point :: "time_point \<Rightarrow> time_point \<Rightarrow> bool" where
  "lhs \<le> rhs \<longleftrightarrow> TimePoint_le lhs rhs"

definition less_time_point :: "time_point \<Rightarrow> time_point \<Rightarrow> bool" where
  "lhs < rhs \<longleftrightarrow> TimePoint_lt lhs rhs"

instance
  by standard (auto simp: less_eq_time_point_def less_time_point_def TimePoint_le_def TimePoint_lt_def
    RdtscDuration_comparisons time_point.expand)

end

text \<open>\<^verbatim>\<open>RdtscClock::now\<close> of a counter, and the hand-over to the logger's synchronised clock.\<close>

definition RdtscClock_now :: "('w \<Rightarrow> u64 \<times> 'w) \<Rightarrow> ('w, time_point) prog" where
  "RdtscClock_now rdtsc = (\<lambda>w. case rdtsc w of (n, w') \<Rightarrow> (Inr (TimePoint_of_duration (RdtscDuration n)), w'))"

definition from_rdtsc :: "(u64 \<Rightarrow> int) \<Rightarrow> time_point \<Rightarrow> int" where
  "from_rdtsc to_time_point rdtsc = to_time_point (ticks (time_since_epoch rdtsc))"

section \<open>Calibration and conversion\<close>

record 'd fp_api =
  fp_of_u64 :: "u64 \<Rightarrow> 'd"
  fp_of_int :: "int \<Rightarrow> 'd"
  fp_div :: "'d \<Rightarrow> 'd \<Rightarrow> 'd"
  fp_mult :: "'d \<Rightarrow> 'd \<Rightarrow> 'd"
  fp_to_u64 :: "'d \<Rightarrow> u64"
  fp_to_int64 :: "'d \<Rightarrow> int"

text \<open>
  One measurement: the wall clock and the counter before and after the pause, in nanoseconds and ticks. The state of
  a thread is its cached ratio and the measurements still to come.
\<close>

record sample =
  start_time :: int
  start_ticks :: u64
  end_ticks :: u64
  end_time :: int

record 'd calibration =
  ticks_per_nanosecond :: "'d option"
  samples :: "nat \<Rightarrow> sample"
  samples_taken :: nat

definition take_sample :: "('d calibration, sample) prog" where
  "take_sample = bindM (gets (\<lambda>s. samples s (samples_taken s))) (\<lambda>x.
     thenM (modify (\<lambda>s. s\<lparr>samples_taken := samples_taken s + 1\<rparr>)) (ret x))"

definition get_ticks_per_nanosecond :: "'d fp_api \<Rightarrow> ('d calibration, 'd) prog" where
  "get_ticks_per_nanosecond fp =
     bindM (gets ticks_per_nanosecond) (\<lambda>cached.
     thenM (if cached = None then
       bindM take_sample (\<lambda>x.
       let elapsed_ns = end_time x - start_time x;
           ticks_per_ns = fp_div fp (fp_of_u64 fp (end_ticks x - start_ticks x)) (fp_of_int fp elapsed_ns) in
       modify (\<lambda>s. s\<lparr>ticks_per_nanosecond := Some ticks_per_ns\<rparr>)) else ret ())
     (bindM (gets ticks_per_nanosecond) opt_value))"

definition RdtscDuration_of_chrono :: "'d fp_api \<Rightarrow> duration_value \<Rightarrow> ('d calibration, rdtsc_duration) prog" where
  "RdtscDuration_of_chrono fp d = (case duration_cast Nanoseconds d of
     Inl e \<Rightarrow> throw e
   | Inr ns \<Rightarrow> bindM (get_ticks_per_nanosecond fp) (\<lambda>r. ret (RdtscDuration (fp_to_u64 fp (fp_mult fp (fp_of_int fp ns) r)))))"

definition RdtscDuration_to_chrono :: "'d fp_api \<Rightarrow> chrono \<Rightarrow> rdtsc_duration \<Rightarrow> ('d calibration, int) prog" where
  "RdtscDuration_to_chrono fp to d = bindM (get_ticks_per_nanosecond fp) (\<lambda>r.
     case duration_cast to (Nanoseconds, fp_to_int64 fp (fp_div fp (fp_of_u64 fp (ticks d)) r)) of
       Inl e \<Rightarrow> throw e | Inr c \<Rightarrow> ret c)"

text \<open>Time points from and to other clocks, by the duration since their epoch.\<close>

definition TimePoint_of_std :: "'d fp_api \<Rightarrow> duration_value \<Rightarrow> ('d calibration, time_point) prog" where
  "TimePoint_of_std fp d = bindM (RdtscDuration_of_chrono fp d) (\<lambda>tick_duration. ret (TimePoint_of_duration tick_duration))"

definition TimePoint_to_std :: "'d fp_api \<Rightarrow> chrono \<Rightarrow> time_point \<Rightarrow> ('d calibration, int) prog" where
  "TimePoint_to_std fp to t = RdtscDuration_to_chrono fp to (time_since_epoch t)"

section \<open>Lemmas\<close>

lemmas clock_defs = RdtscDuration_add_def RdtscDuration_sub_def TimePoint_add_def TimePoint_add_left_def
  TimePoint_minus_def TimePoint_diff_def TimePoint_of_duration_def RdtscDuration_neg_def

text \<open>The point the clock shows when the counter has made \<open>n\<close> ticks since it was zero.\<close>

definition clock_at :: "nat \<Rightarrow> time_point" where
  "clock_at n = TimePoint_of_duration (RdtscDuration (of_nat n))"

lemma RdtscClock_now_at: "RdtscClock_now rdtsc w = (Inr (clock_at (unat (fst (rdtsc w)))), snd (rdtsc w))"
  by (simp add: RdtscClock_now_def clock_at_def split: prod.splits)

lemma clock_at_less: "clock_at a < clock_at b \<longleftrightarrow> a mod 2 ^ 64 < b mod 2 ^ 64"
  by (simp add: clock_at_def clock_defs less_time_point_def TimePoint_lt_def RdtscDuration_lt_def word_less_nat_alt unat_of_nat)

lemma TimePoint_laws:
  "TimePoint_diff (TimePoint_add t d) t = d" "TimePoint_add (TimePoint_minus t d) d = t"
  "TimePoint_add t (TimePoint_diff u t) = u" "TimePoint_add_left d t = TimePoint_add t d"
  "TimePoint_minus t d = TimePoint_add t (RdtscDuration_neg d)"
  by (simp_all add: clock_defs add.commute rdtsc_duration.expand time_point.expand)

lemma TimePoint_assign:
  "TimePoint_add_assign d t = (Inr (), TimePoint_add t d)" "TimePoint_sub_assign d t = (Inr (), TimePoint_minus t d)"
  by (simp_all add: TimePoint_add_assign_def TimePoint_sub_assign_def RdtscDuration_add_assign_def
    RdtscDuration_sub_assign_def prog_defs clock_defs)

lemma RdtscDuration_division:
  "RdtscDuration_div d k = Inr q \<Longrightarrow> RdtscDuration_mod d k = Inr r \<Longrightarrow>
     RdtscDuration_add (RdtscDuration_mult q k) r = d \<and> r < RdtscDuration k"
  by (auto simp: RdtscDuration_div_def RdtscDuration_mod_def RdtscDuration_mult_def RdtscDuration_add_def
    less_rdtsc_duration_def RdtscDuration_lt_def word_mod_less_divisor word_greater_zero_iff div_mult_mod_eq split: if_splits)

lemma wrapped_order:
  fixes a b m :: nat assumes "a \<le> b" and "b - a < m"
  shows "a mod m < b mod m \<longleftrightarrow> a < b \<and> a div m = b div m" and "b mod m < a mod m \<longleftrightarrow> a div m \<noteq> b div m"
proof -
  have le: "a div m \<le> b div m" using assms(1) by (rule div_le_mono)
  have a: "a = m * (a div m) + a mod m" and b: "b = m * (b div m) + b mod m" by simp_all
  have "b mod m < a mod m" if "a div m < b div m"
  proof -
    have "m * (a div m) + m \<le> m * (b div m)" using that by (metis Suc_leI mult_Suc_right mult_le_mono2 add.commute)
    then show ?thesis using assms(2) a b by linarith
  qed
  moreover have "a mod m < b mod m \<longleftrightarrow> a < b" "\<not> b mod m < a mod m" if "a div m = b div m"
    using a b that assms(1) by (metis nat_add_left_cancel_less) (metis a b that assms(1) nat_add_left_cancel_less not_le)
  ultimately show "a mod m < b mod m \<longleftrightarrow> a < b \<and> a div m = b div m" and "b mod m < a mod m \<longleftrightarrow> a div m \<noteq> b div m"
    using le by (cases "a div m = b div m"; auto)+
qed

section \<open>Properties\<close>

text \<open>
  C36: The time between two readings of the counter is exact as long as less than \<open>2 ^ 64\<close> ticks pass, whether or not
  the counter wraps around in between. Comparing the two readings is right exactly when it does not: after a
  wrap-around the later one compares as the earlier.
\<close>

theorem RdtscClock_elapsed:
  assumes "a \<le> b" and "b - a < 2 ^ 64"
  shows "unat (ticks (TimePoint_diff (clock_at b) (clock_at a))) = b - a \<and>
    (clock_at a < clock_at b \<longleftrightarrow> a < b \<and> a div 2 ^ 64 = b div 2 ^ 64) \<and>
    (clock_at b < clock_at a \<longleftrightarrow> a div 2 ^ 64 \<noteq> b div 2 ^ 64)"
proof -
  have "(of_nat b - of_nat a :: u64) = of_nat (b - a)" using assms(1) by simp
  then have "unat (ticks (TimePoint_diff (clock_at b) (clock_at a))) = b - a"
    using assms(2) by (simp add: clock_at_def clock_defs unat_of_nat)
  moreover have "a mod 2 ^ 64 < b mod 2 ^ 64 \<longleftrightarrow> a < b \<and> a div 2 ^ 64 = b div 2 ^ 64"
    and "b mod 2 ^ 64 < a mod 2 ^ 64 \<longleftrightarrow> a div 2 ^ 64 \<noteq> b div 2 ^ 64"
    using wrapped_order [of a b "2 ^ 64"] assms by simp_all
  ultimately show ?thesis by (simp add: clock_at_less)
qed

theorem RdtscClock_elapsed_witness:
  "unat (ticks (TimePoint_diff (clock_at (2 ^ 64 + 5)) (clock_at (2 ^ 64 - 10)))) = 15 \<and>
   clock_at (2 ^ 64 + 5) < clock_at (2 ^ 64 - 10)"
  using RdtscClock_elapsed [of "2 ^ 64 - 10" "2 ^ 64 + 5"] by simp

text \<open>
  The ratio of ticks to nanoseconds is measured at most once in a thread: a call takes a measurement only when
  none is cached, and every later call returns the same value and changes nothing.
\<close>

lemma ticks_per_nanosecond_measured_once:
  "\<exists>r t. get_ticks_per_nanosecond fp s = (Inr r, t) \<and> get_ticks_per_nanosecond fp t = (Inr r, t) \<and>
     samples_taken t = samples_taken s + (if ticks_per_nanosecond s = None then 1 else 0) \<and>
     (ticks_per_nanosecond s = None \<longleftrightarrow> t \<noteq> s)"
  by (cases "ticks_per_nanosecond s")
    (auto simp: get_ticks_per_nanosecond_def take_sample_def prog_defs Let_def dest: arg_cong [where f = samples_taken])

end
