(* ===== verification/Thread_Utils.thy ===== *)
theory Thread_Utils
  imports Rdtsc_Clock Steps
begin

text \<open>
  The threads of src/src/base/thread: binding to a processor (cpu.cpp) and the watchdog around a call that may hang
  (execute_with_timeout.h, thread.h). The watchdog is a thread of its own beside the caller's; their steps interleave
  and are the rules of a relation, with the passing of time as a third actor.
\<close>

section \<open>Processors\<close>

text \<open>
  The processor the thread is bound to. \<open>online\<close> is the number of processors, \<open>setaffinity\<close> the return code of the
  system call for a processor. A processor out of range is logged and ignored.
\<close>

definition bind_this_thread_to_cpu :: "int \<Rightarrow> (int \<Rightarrow> int) \<Rightarrow> int \<Rightarrow> (int option, unit) prog" where
  "bind_this_thread_to_cpu online setaffinity cpu_id =
     (if cpu_id < 0 \<or> cpu_id \<ge> online then ret ()
      else if setaffinity cpu_id = 0 then modify (\<lambda>_. Some cpu_id) else ret ())"

lemma bind_in_range:
  "bind_this_thread_to_cpu online setaffinity cpu_id s = (Inr (), t) \<Longrightarrow> t = s \<or> (\<exists>i. t = Some i \<and> 0 \<le> i \<and> i < online)"
  by (auto simp: bind_this_thread_to_cpu_def prog_defs split: if_splits)

section \<open>The watchdog\<close>

text \<open>
  Where the two threads are. The caller runs the function; when the function has ended, by a return or by an exception (a
  \<^verbatim>\<open>std::exception\<close>, as every exception of the program is), the caller still has to set the flag, which is a step of its own,
  and then waits for the watchdog in the destructor of its thread object. The watchdog reads the flag and then the clock
  until one of them ends its loop, with a sleep after every round, reads the flag once more, and where it is not set
  writes the error to the log and exits: three separate steps, between which the caller may go on.
\<close>

datatype caller_pc = Calling | Ended | Joining | Left

datatype watch_pc = Watch_start | Watch_flag | Watch_clock | Watch_sleep | Watch_last | Watch_log | Watch_exit | Watch_over

record watchdog =
  wd_finished :: bool
  wd_clock :: nat
  wd_start :: nat
  wd_caller :: caller_pc
  wd_threw :: bool
  wd_pc :: watch_pc
  wd_exited :: bool

datatype watch_event = Time_passes nat | Function_ends bool | Flag_set | Watch_step | Caller_joins

text \<open>Nothing happens any more once the process has exited. \<open>limit\<close> is the timeout in ticks.\<close>

inductive watch_step :: "nat \<Rightarrow> watchdog \<Rightarrow> watch_event \<Rightarrow> watchdog \<Rightarrow> bool" for limit :: nat where
  time_passes: "\<not> wd_exited s \<Longrightarrow> watch_step limit s (Time_passes d) (s\<lparr>wd_clock := wd_clock s + d\<rparr>)"
| function_ends: "\<not> wd_exited s \<Longrightarrow> wd_caller s = Calling \<Longrightarrow>
    watch_step limit s (Function_ends threw) (s\<lparr>wd_caller := Ended, wd_threw := threw\<rparr>)"
| flag_set: "\<not> wd_exited s \<Longrightarrow> wd_caller s = Ended \<Longrightarrow>
    watch_step limit s Flag_set (s\<lparr>wd_finished := True, wd_caller := Joining\<rparr>)"
| watch_start: "\<not> wd_exited s \<Longrightarrow> wd_pc s = Watch_start \<Longrightarrow>
    watch_step limit s Watch_step (s\<lparr>wd_start := wd_clock s, wd_pc := Watch_flag\<rparr>)"
| watch_flag: "\<not> wd_exited s \<Longrightarrow> wd_pc s = Watch_flag \<Longrightarrow>
    watch_step limit s Watch_step (s\<lparr>wd_pc := (if wd_finished s then Watch_last else Watch_clock)\<rparr>)"
| watch_clock: "\<not> wd_exited s \<Longrightarrow> wd_pc s = Watch_clock \<Longrightarrow>
    watch_step limit s Watch_step (s\<lparr>wd_pc := (if wd_clock s - wd_start s < limit then Watch_sleep else Watch_last)\<rparr>)"
| watch_sleep: "\<not> wd_exited s \<Longrightarrow> wd_pc s = Watch_sleep \<Longrightarrow> watch_step limit s Watch_step (s\<lparr>wd_pc := Watch_flag\<rparr>)"
| watch_last: "\<not> wd_exited s \<Longrightarrow> wd_pc s = Watch_last \<Longrightarrow>
    watch_step limit s Watch_step (s\<lparr>wd_pc := (if wd_finished s then Watch_over else Watch_log)\<rparr>)"
| watch_log: "\<not> wd_exited s \<Longrightarrow> wd_pc s = Watch_log \<Longrightarrow> watch_step limit s Watch_step (s\<lparr>wd_pc := Watch_exit\<rparr>)"
| watch_exit: "\<not> wd_exited s \<Longrightarrow> wd_pc s = Watch_exit \<Longrightarrow> watch_step limit s Watch_step (s\<lparr>wd_exited := True\<rparr>)"
| caller_joins: "\<not> wd_exited s \<Longrightarrow> wd_caller s = Joining \<Longrightarrow> wd_pc s = Watch_over \<Longrightarrow>
    watch_step limit s Caller_joins (s\<lparr>wd_caller := Left\<rparr>)"

inductive_simps watch_step_simps:
  "watch_step limit s (Time_passes d) t" "watch_step limit s (Function_ends b) t" "watch_step limit s Flag_set t"
  "watch_step limit s Watch_step t" "watch_step limit s Caller_joins t"

abbreviation watch_run :: "nat \<Rightarrow> watchdog \<Rightarrow> watch_event list \<Rightarrow> watchdog \<Rightarrow> bool" where
  "watch_run limit \<equiv> steps (watch_step limit)"

definition watch_begin :: "nat \<Rightarrow> watchdog" where
  "watch_begin now = \<lparr>wd_finished = False, wd_clock = now, wd_start = 0, wd_caller = Calling, wd_threw = False,
     wd_pc = Watch_start, wd_exited = False\<rparr>"

section \<open>The invariant\<close>

text \<open>The watchdog has read the flag for the last time and is about to end the process.\<close>

definition condemned :: "watchdog \<Rightarrow> bool" where
  "condemned s \<longleftrightarrow> wd_exited s \<or> wd_pc s = Watch_log \<or> wd_pc s = Watch_exit"

definition watch_inv :: "nat \<Rightarrow> nat \<Rightarrow> watchdog \<Rightarrow> bool" where
  "watch_inv limit began s \<longleftrightarrow>
     began \<le> wd_clock s \<and>
     (wd_pc s \<noteq> Watch_start \<longrightarrow> began \<le> wd_start s \<and> wd_start s \<le> wd_clock s) \<and>
     (wd_pc s = Watch_last \<and> \<not> wd_finished s \<or> condemned s \<longrightarrow> limit \<le> wd_clock s - wd_start s) \<and>
     (wd_finished s \<longleftrightarrow> wd_caller s = Joining \<or> wd_caller s = Left) \<and>
     (wd_caller s = Left \<longrightarrow> wd_pc s = Watch_over) \<and>
     (wd_pc s = Watch_over \<longrightarrow> wd_finished s) \<and>
     (wd_exited s \<longrightarrow> wd_pc s = Watch_exit)"

lemma watch_inv_begin: "watch_inv limit began (watch_begin began)"
  by (simp add: watch_inv_def watch_begin_def condemned_def)

lemma watch_inv_step: "watch_step limit s e t \<Longrightarrow> watch_inv limit began s \<Longrightarrow> watch_inv limit began t"
  by (induction rule: watch_step.induct) (auto simp: watch_inv_def condemned_def)

interpretation watching: step_invariant "watch_step limit" "watch_begin began" "\<lambda>_. watch_inv limit began"
  by unfold_locales (auto intro: watch_inv_begin watch_inv_step)

lemma finished_not_condemned:
  "watch_step limit s e t \<Longrightarrow> wd_finished s \<and> \<not> condemned s \<Longrightarrow> wd_finished t \<and> \<not> condemned t"
  by (induction rule: watch_step.induct) (auto simp: condemned_def)

lemma finished_never_exits:
  "watch_run limit s es t \<Longrightarrow> wd_finished s \<Longrightarrow> \<not> condemned s \<Longrightarrow> \<not> wd_exited t"
  using steps_preserve [where step = "watch_step limit" and P = "\<lambda>s. wd_finished s \<and> \<not> condemned s"] finished_not_condemned
  by (auto simp: condemned_def)

text \<open>With the flag set in time, the watchdog ends within four steps of its own and the caller then leaves.\<close>

definition steps_left :: "watch_pc \<Rightarrow> nat" where
  "steps_left pc = (case pc of Watch_clock \<Rightarrow> 4 | Watch_start \<Rightarrow> 3 | Watch_sleep \<Rightarrow> 3 | Watch_flag \<Rightarrow> 2 | Watch_last \<Rightarrow> 1 | _ \<Rightarrow> 0)"

lemma watch_ends:
  assumes "wd_finished s" and "\<not> condemned s" and "wd_caller s = Joining"
  shows "\<exists>es t. watch_run limit s es t \<and> wd_caller t = Left \<and> wd_threw t = wd_threw s \<and>
    set es \<subseteq> {Watch_step, Caller_joins} \<and> length es \<le> steps_left (wd_pc s) + 1"
  using assms
proof (induction "steps_left (wd_pc s)" arbitrary: s rule: less_induct)
  case less
  show ?case
  proof (cases "wd_pc s = Watch_over")
    case True
    then show ?thesis using less.prems
      by (intro exI [of _ "[Caller_joins]"]) (auto simp: watch_step_simps condemned_def)
  next
    case False
    obtain t where t: "watch_step limit s Watch_step t" "steps_left (wd_pc t) < steps_left (wd_pc s)"
      "wd_finished t" "\<not> condemned t" "wd_caller t = Joining" "wd_threw t = wd_threw s"
      using False less.prems
      by (cases "wd_pc s") (auto simp: watch_step_simps steps_left_def condemned_def split: if_splits)
    then obtain es u where u: "watch_run limit t es u" "wd_caller u = Left" "wd_threw u = wd_threw t"
      "set es \<subseteq> {Watch_step, Caller_joins}" "length es \<le> steps_left (wd_pc t) + 1"
      using less.hyps by blast
    then show ?thesis using t by (intro exI [of _ "Watch_step # es"]) auto
  qed
qed

text \<open>After the timeout, with the flag still not set, the watchdog is so many steps from the exit.\<close>

definition steps_to_exit :: "watch_pc \<Rightarrow> nat" where
  "steps_to_exit pc = (case pc of Watch_sleep \<Rightarrow> 6 | Watch_flag \<Rightarrow> 5 | Watch_clock \<Rightarrow> 4 | Watch_last \<Rightarrow> 3 | Watch_log \<Rightarrow> 2 | Watch_exit \<Rightarrow> 1 | _ \<Rightarrow> 0)"

lemma watch_fires:
  assumes "\<not> wd_finished s" and "\<not> wd_exited s" and "limit \<le> wd_clock s - wd_start s" and "0 < steps_to_exit (wd_pc s)"
  shows "\<exists>t. watch_run limit s (replicate (steps_to_exit (wd_pc s)) Watch_step) t \<and> wd_exited t"
  using assms
proof (induction "steps_to_exit (wd_pc s)" arbitrary: s)
  case (Suc n)
  obtain t where t: "watch_step limit s Watch_step t"
    "if n = 0 then wd_exited t else n = steps_to_exit (wd_pc t) \<and> \<not> wd_finished t \<and> \<not> wd_exited t \<and> limit \<le> wd_clock t - wd_start t"
    using Suc.hyps(2) Suc.prems by (cases "wd_pc s") (auto simp: watch_step_simps steps_to_exit_def)
  show ?case
  proof (cases "n = 0")
    case False
    then obtain u where "watch_run limit t (replicate n Watch_step) u" "wd_exited u" using t(2) Suc.hyps(1) [of t] by auto
    then show ?thesis using t(1) Suc.hyps(2) [symmetric] by auto
  qed (use t Suc.hyps(2) [symmetric] in auto)
qed simp

text \<open>
  The race the code leaves open: a function that ends after the last test of the flag, or that has ended and not set
  the flag yet, is cut off all the same.
\<close>

lemma ended_function_cut_off:
  "\<exists>t. watch_run 10 (watch_begin 5)
     [Watch_step, Watch_step, Time_passes 20, Watch_step, Function_ends False, Watch_step, Flag_set, Watch_step, Watch_step] t \<and>
     wd_exited t \<and> wd_finished t \<and> \<not> wd_threw t"
  by (simp add: watch_step_simps watch_begin_def)

section \<open>Properties\<close>

text \<open>
  C31: the watchdog, however the threads interleave. It reads the flag for the last time, and ends the process, only when
  the timeout has passed since the call began. When the flag is set before that last reading, in particular when it is set
  before the timeout, the process is never ended by the watchdog, and the call leaves after at most five more steps with the
  outcome of the function. When the timeout has passed and the flag is not set, at most six steps of the watchdog end the
  process. A function that ends later than the last reading of the flag, or has ended without having set it yet, is
  not protected.
\<close>

theorem watchdog_correct:
  assumes "watch_run limit (watch_begin now) es t"
  shows "(condemned t \<longrightarrow> now + limit \<le> wd_clock t) \<and>
    (wd_finished t \<and> \<not> condemned t \<longrightarrow> (\<forall>es' u. watch_run limit t es' u \<longrightarrow> \<not> wd_exited u) \<and>
       (\<exists>es' u. watch_run limit t es' u \<and> wd_caller u = Left \<and> wd_threw u = wd_threw t \<and> length es' \<le> 5)) \<and>
    (\<not> wd_finished t \<and> \<not> wd_exited t \<and> wd_pc t \<noteq> Watch_start \<and> limit \<le> wd_clock t - wd_start t \<longrightarrow>
       (\<exists>n u. n \<le> 6 \<and> watch_run limit t (replicate n Watch_step) u \<and> wd_exited u))"
proof (intro conjI impI allI)
  note inv = watching.holds [OF assms, unfolded watch_inv_def]
  show "now + limit \<le> wd_clock t" if "condemned t" using inv that by (auto simp: condemned_def)
  show "\<not> wd_exited u" if "wd_finished t \<and> \<not> condemned t" "watch_run limit t es' u" for es' u
    using finished_never_exits [OF that(2)] that(1) by blast
  show "\<exists>es' u. watch_run limit t es' u \<and> wd_caller u = Left \<and> wd_threw u = wd_threw t \<and> length es' \<le> 5"
    if fin: "wd_finished t \<and> \<not> condemned t"
  proof (cases "wd_caller t = Left")
    case True
    then show ?thesis by (intro exI [of _ "[]"] exI [of _ t]) auto
  next
    case False
    then have "wd_caller t = Joining" using inv fin by blast
    moreover have "steps_left (wd_pc t) \<le> 4" by (simp add: steps_left_def split: watch_pc.splits)
    ultimately show ?thesis using watch_ends [of t limit] fin by fastforce
  qed
  show "\<exists>n u. n \<le> 6 \<and> watch_run limit t (replicate n Watch_step) u \<and> wd_exited u"
    if h: "\<not> wd_finished t \<and> \<not> wd_exited t \<and> wd_pc t \<noteq> Watch_start \<and> limit \<le> wd_clock t - wd_start t"
  proof -
    have "0 < steps_to_exit (wd_pc t)" "steps_to_exit (wd_pc t) \<le> 6" using h inv by (auto simp: steps_to_exit_def split: watch_pc.splits)
    then show ?thesis using watch_fires [of t limit] h by blast
  qed
qed

theorem watchdog_correct_witness:
  "\<exists>t. watch_run 10 (watch_begin 5)
     [Watch_step, Watch_step, Time_passes 20, Function_ends True, Flag_set, Watch_step, Watch_step] t \<and>
     \<not> (\<exists>es u. watch_run 10 t es u \<and> wd_exited u) \<and> (\<exists>es u. watch_run 10 t es u \<and> wd_caller u = Left \<and> wd_threw u)"
proof -
  let ?t = "\<lparr>wd_finished = True, wd_clock = 25, wd_start = 5, wd_caller = Joining, wd_threw = True, wd_pc = Watch_over, wd_exited = False\<rparr>"
  have "watch_run 10 (watch_begin 5) [Watch_step, Watch_step, Time_passes 20, Function_ends True, Flag_set, Watch_step, Watch_step] ?t"
    by (simp add: watch_step_simps watch_begin_def)
  then show ?thesis using watchdog_correct [of 10 5 "[Watch_step, Watch_step, Time_passes 20, Function_ends True, Flag_set, Watch_step, Watch_step]" ?t]
    by (intro exI [of _ ?t]) (auto simp: condemned_def simp del: steps.simps)
qed

end
