(* ===== verification/Service.thy ===== *)
theory Service
  imports Gateway Handle Master_Service Launcher Config_File Thread_Utils
begin

text \<open>
  The two services as their launchers run them: the gateway, src/src/gateway/ws_demo/service.cpp, whose \<^verbatim>\<open>run\<close> reads the
  configuration and starts the worker, and the DPDK master, whose \<^verbatim>\<open>run\<close> sets the ports up and waits for a signal.
\<close>

section \<open>The master\<close>

text \<open>The loop that waits for the end keeps the state; its steps are those of \<open>sig_step\<close>.\<close>

definition Master_run :: "port_env \<Rightarrow> (master, int) prog" where
  "Master_run env = thenM (Master_init env) (ret 0)"

section \<open>The gateway\<close>

text \<open>The processor number of the configuration is unsigned and 64 bits wide; the function that binds takes an \<^verbatim>\<open>int\<close>.\<close>

definition int_of_size :: "nat \<Rightarrow> int" where
  "int_of_size n = sint (of_nat n :: u32)"

record 'w gateway_env =
  ge_files :: file_system
  ge_interfaces :: "interface_config list parsers"
  ge_configs :: "gateway_config parsers"
  ge_dpdk :: "'w dpdk_api"
  ge_eal :: eal_api
  ge_ssl :: "'w ssl_api"
  ge_wss :: "'w wss_api"
  ge_online :: int
  ge_setaffinity :: "int \<Rightarrow> int"
  ge_random_seq :: u32
  ge_random_ip_id :: u16
  ge_iterations :: nat

definition WsDemo_new :: "'w gateway_env \<Rightarrow> string option \<Rightarrow> error + interface_config list" where
  "WsDemo_new env interface_path = InterfaceManager_new (parse_file (ge_files env) (ge_interfaces env)) interface_path"

text \<open>What a run leaves: the processor of the thread and the messages that were handed on.\<close>

definition run_worker ::
    "'w gateway_env \<Rightarrow> interface_config list \<Rightarrow> gateway_config \<Rightarrow> 'w \<Rightarrow> bool \<Rightarrow> int option \<Rightarrow>
       ((error + unit) \<times> bytes list \<times> int option) option" where
  "run_worker env interfaces config w initialized cpu =
     (let cpu' = snd (bind_this_thread_to_cpu (ge_online env) (ge_setaffinity env) (int_of_size (gw_cpu_affinity config)) cpu) in
      case run_worker_setup (ge_dpdk env) (ge_eal env) (ge_ssl env) interfaces config (ge_random_seq env) (ge_random_ip_id env)
        w initialized of
        None \<Rightarrow> None
      | Some (Inl e) \<Rightarrow> Some (Inl e, [], cpu')
      | Some (Inr (local_host, connection)) \<Rightarrow>
          map_option (\<lambda>(r, out, t). (r, out, cpu'))
            (run_worker_loop (ge_dpdk env) (ge_ssl env) (ge_wss env) local_host (ge_iterations env) [] connection))"

definition WsDemo_run ::
    "'w gateway_env \<Rightarrow> string \<Rightarrow> interface_config list \<Rightarrow> 'w \<Rightarrow> bool \<Rightarrow> int option \<Rightarrow>
       ((error + int) \<times> bytes list \<times> int option) option" where
  "WsDemo_run env config_path interfaces w initialized cpu =
     (case parse_file (ge_files env) (ge_configs env) config_path of
        Inl e \<Rightarrow> Some (Inl e, [], cpu)
      | Inr config \<Rightarrow> map_option (\<lambda>(r, out, cpu'). (map_sum id (\<lambda>_. 0) r, out, cpu'))
          (run_worker env interfaces config w initialized cpu))"

section \<open>The processes\<close>

text \<open>
  The two programs, src/tool: the logger is constructed first, then the launcher from the command line, then the service
  runs. An exception of a constructor is not caught and ends the process; one of the service is exit code 1.
\<close>

datatype process_end = Process_exit int | Process_terminated error | Process_undefined string

fun uncaught :: "error \<Rightarrow> process_end" where
  "uncaught (Undefined_behaviour u) = Process_undefined u"
| "uncaught e = Process_terminated e"

fun run_result :: "error + int \<Rightarrow> process_end" where
  "run_result (Inr code) = Process_exit code"
| "run_result (Inl (Undefined_behaviour u)) = Process_undefined u"
| "run_result (Inl e) = Process_exit 1"

definition default_params :: log_params where
  "default_params = \<lparr>logfile = None, metrics_root = None, rotate = False\<rparr>"

definition string_arg :: "arg_value option \<Rightarrow> string option" where
  "string_arg v = (case v of Some (String_value x) \<Rightarrow> Some x | _ \<Rightarrow> None)"

text \<open>The member \<^verbatim>\<open>config\<close> is a string itself and is empty when it was not set.\<close>

definition gateway_main ::
    "'l frontend_api \<Rightarrow> (registered list \<Rightarrow> string list \<Rightarrow> parse_args_result) \<Rightarrow> 'w gateway_env \<Rightarrow> string list \<Rightarrow> 'w \<Rightarrow>
       'l logging \<Rightarrow> (process_end \<times> bytes list) option" where
  "gateway_main fe parse_args env argv w s =
     (case Logger_new fe default_params s of
        (Inl e, _) \<Rightarrow> Some (uncaught e, [])
      | (Inr _, s1) \<Rightarrow> (case Launcher_new fe parse_args True gateway_args argv s1 of
          (Exited n, _) \<Rightarrow> Some (Process_exit (int n), [])
        | (Undefined u, _) \<Rightarrow> Some (Process_undefined u, [])
        | (Returned vs, _) \<Rightarrow> (case WsDemo_new env (string_arg (vs ! 1)) of
            Inl e \<Rightarrow> Some (uncaught e, [])
          | Inr interfaces \<Rightarrow> map_option (\<lambda>(r, out, cpu). (run_result r, out))
              (WsDemo_run env (case string_arg (vs ! 0) of None \<Rightarrow> '''' | Some p \<Rightarrow> p) interfaces w False None))))"

text \<open>The destructor of the service runs when the launcher goes out of scope.\<close>

definition master_main ::
    "'l frontend_api \<Rightarrow> (registered list \<Rightarrow> string list \<Rightarrow> parse_args_result) \<Rightarrow> port_env \<Rightarrow> string list \<Rightarrow> 'l logging \<Rightarrow>
       process_end \<times> port_call list" where
  "master_main fe parse_args env argv s =
     (case Logger_new fe default_params s of
        (Inl e, _) \<Rightarrow> (uncaught e, [])
      | (Inr _, s1) \<Rightarrow> (case Launcher_new fe parse_args False master_args argv s1 of
          (Exited n, _) \<Rightarrow> (Process_exit (int n), [])
        | (Undefined u, _) \<Rightarrow> (Process_undefined u, [])
        | (Returned vs, _) \<Rightarrow>
            (case Launcher_run (Master_run env) \<lparr>launch_called = False, handlers_installed = False, impl = Master_new\<rparr> of
              (Inl e, t) \<Rightarrow> (uncaught e, calls (impl t))
            | (Inr code, t) \<Rightarrow> (case Master_delete env (impl t) of
                (Inl e, u) \<Rightarrow> (uncaught e, calls u)
              | (Inr _, u) \<Rightarrow> (Process_exit code, calls u)))))"

section \<open>Lemmas\<close>

text \<open>The logger the command line needs for its verbosity flags is there when it is read.\<close>

definition parser_reads :: "(registered list \<Rightarrow> string list \<Rightarrow> parse_args_result) \<Rightarrow> arg_field list \<Rightarrow> string list \<Rightarrow> bool" where
  "parser_reads parse_args params argv \<longleftrightarrow> (\<forall>regs parser. parse_args regs argv = Parsed parser \<longrightarrow>
     (\<exists>flags. \<forall>n. pr_get_bool parser n = Inr (flags n)) \<and> (\<exists>vs. populate_fields parser params = Inr vs))"

lemma launcher_after_logger:
  assumes fe: "frontend_ok fe" and "find_logger fe kDefaultLogger (log_world s) = None" and "parser_reads parse_args params argv"
  shows "\<exists>t. Logger_new fe ps s = (Inr (), t) \<and> (\<forall>u. fst (Launcher_new fe parse_args has_config params argv t) \<noteq> Undefined u)"
proof -
  obtain t l where t: "Logger_new fe ps s = (Inr (), t)" "find_logger fe kDefaultLogger (log_world t) = Some l"
    using Logger_new_default [OF fe assms(2), of ps] by blast
  have "\<exists>u. set_verbosity fe parser verbosity_levels t = (Inr (), u)" if "\<forall>n. pr_get_bool parser n = Inr (flags n)" for parser flags
    using set_level_then_get [OF fe t(2)] that by (auto simp: verbosity_levels_def ret_def)
  then have pop: "\<exists>vs u. populate_values fe parser params t = (Inr vs, u)" if "parse_args regs argv = Parsed parser" for parser regs
    using assms(3) that unfolding parser_reads_def by (fastforce simp: populate_values_def thenM_def bindM_def ret_def)
  let ?regs = "(if has_config then [config_argument] else []) @ register_fields params @ [help_argument]"
  have "fst (Launcher_new fe parse_args has_config params argv t) \<noteq> Undefined u" for u
    by (cases "parse_args ?regs argv") (use pop [of ?regs] in \<open>auto simp: Launcher_new_def arg_parse_def\<close>)
  with t(1) show ?thesis by blast
qed

text \<open>
  The bound processor is in range, or the thread keeps the one it had. A number of \<open>2 ^ 32\<close> or more is cut to 32 bits
  first and may so name an existing processor.
\<close>

lemma run_worker_cpu:
  "run_worker env interfaces config w initialized cpu = Some (r, out, cpu') \<Longrightarrow>
     cpu' = cpu \<or> (\<exists>i. cpu' = Some i \<and> 0 \<le> i \<and> i < ge_online env)"
  using bind_in_range [of "ge_online env" "ge_setaffinity env" "int_of_size (gw_cpu_affinity config)" cpu]
  by (auto simp: run_worker_def Let_def bind_this_thread_to_cpu_def prog_defs split: option.splits sum.splits prod.splits if_splits)

lemma int_of_size_wraps: "int_of_size (2 ^ 32 + 1) = 1"
  by (simp add: int_of_size_def)

text \<open>A gateway whose configuration cannot be read ends before it touches a processor or a card.\<close>

lemma WsDemo_without_config:
  "parse_file (ge_files env) (ge_configs env) path = Inl e \<Longrightarrow> WsDemo_run env path interfaces w initialized cpu = Some (Inl e, [], cpu)"
  by (simp add: WsDemo_run_def)

text \<open>The master under its launcher: every failure of a call to DPDK is exit code 1.\<close>

lemma master_exit_code:
  assumes "Master_init env Master_new = (Inl (Runtime_error msg), t)"
  shows "fst (Launcher_run (Master_run env) \<lparr>launch_called = False, handlers_installed = False, impl = Master_new\<rparr>) = Inr 1"
  using assms by (simp add: Launcher_run_def Master_run_def prog_defs)

end
