(* ===== verification/Session.thy ===== *)
theory Session
  imports Gateway
begin

text \<open>
  A whole session of the worker with a server. The server is a state machine of its own: \<open>phase\<close> is what it has sent so
  far, and a step of \<open>serves\<close> is a packet it may send next, for the handshakes of TCP, TLS and the web socket and for the
  frames behind them, cut into segments and records at any place, with bare acknowledgements and packets of other
  protocols in between. What a server of this kind keeps to: its segments arrive in order, every message of the TLS
  handshake is one record, everything fits the buffers of the client, and its frames are ones the client can read, with
  an operation code of at most 10 and a payload of other than 125 bytes. \<open>phase_holds\<close> is the state of the client in each
  phase, and the worker simulates the server step by step; in one phase, \<open>Hung\<close>, it never comes back. Packets arrive in
  any bursts, with any number of empty polls between them; a run is followed iteration by iteration (\<open>session\<close>), so that
  the server may react to what the client has sent.
\<close>

section \<open>The server\<close>

text \<open>The first flight, as the server chooses it.\<close>

record flight =
  fl_random :: bytes
  fl_session_id :: bytes
  fl_extensions :: bytes
  fl_certificates :: bytes
  fl_public_key :: bytes
  fl_algorithm :: u16
  fl_signature :: bytes

definition flight_bodies :: "flight \<Rightarrow> bytes list" where
  "flight_bodies f = [server_hello_body (fl_random f) (fl_session_id f) (fl_extensions f), certificate_body (fl_certificates f),
     key_exchange_body (fl_public_key f) (fl_algorithm f) (fl_signature f), hello_done_body]"


definition handshake_records :: "bytes list \<Rightarrow> bytes" where
  "handshake_records bs = concat (map (tls_record ContentType_Handshake) bs)"

text \<open>An acknowledged connection request without data.\<close>

definition syn_ack_at :: "packet_view \<Rightarrow> seq_number \<Rightarrow> bool" where
  "syn_ack_at v seq \<longleftrightarrow> eth_type (eth_hdr v) = BE EthernetType_Ipv4 \<and> ip_protocol (ip_hdr v) = IpProtocol_Tcp \<and>
     IP_is_valid v () = (Inr True, ()) \<and> 34 \<le> tcp_off v \<and> tcp_off v + 20 \<le> length (v_mem v) \<and>
     SeqNumber (be_value (tcp_seq (tcp_hdr v))) = seq \<and> tcp_flags (tcp_hdr v) = Flags_SYN_ACK \<and>
     tcp_payload_size v = 0 \<and> tcp_off v + tcp_data_offset (tcp_hdr v) \<le> length (v_mem v)"

text \<open>
  What the server has sent: nothing; so many messages of its flight; its flight; its Finished message; its response. From
  the Finished message on it has the keys of the session. The other bytes are those of an incomplete record and of an
  incomplete response or of the frames not delivered, the number is that of its next byte. \<open>Hung\<close>: a segment of it ended
  behind the change of cipher, in the middle of the Finished record.
\<close>

datatype phase =
    Opening
  | Greeting nat bytes seq_number
  | Finishing bytes seq_number
  | Upgrading bytes bytes bytes bytes seq_number
  | Open bytes bytes bytes bytes seq_number
  | Hung

text \<open>Application data that completes the records \<open>ms\<close> behind an incomplete one.\<close>

definition completes :: "'w ssl_api \<Rightarrow> bytes \<Rightarrow> bytes \<Rightarrow> bytes \<Rightarrow> bytes \<Rightarrow> (u64 \<times> bytes) list \<Rightarrow> bytes \<Rightarrow> bool" where
  "completes ssl key fixed rest payload ms rest' \<longleftrightarrow> rest @ payload = sealed_stream ssl key fixed ms @ rest' \<and>
     incomplete_record rest' \<and> (\<forall>(seq, data) \<in> set ms. data \<noteq> [] \<and> length data < 65512) \<and> length rest + length payload \<le> 20600"

inductive serves :: "'w ssl_api \<Rightarrow> bytes \<Rightarrow> bytes \<Rightarrow> flight \<Rightarrow> phase \<Rightarrow> packet_view \<Rightarrow> bytes list \<Rightarrow> phase \<Rightarrow> bool"
  for ssl :: "'w ssl_api" and key fixed :: bytes and f :: flight where
  syn_ack: "syn_ack_at v seq \<Longrightarrow> serves ssl key fixed f Opening v [] (Greeting 0 [] (SeqNumber_add seq 1))"
| flight_part: "segment_at v ack payload \<Longrightarrow> i \<le> j \<Longrightarrow> j < 4 \<Longrightarrow>
    rest @ payload = handshake_records (drop i (take j (flight_bodies f))) @ rest' \<Longrightarrow> incomplete_record rest' \<Longrightarrow>
    length rest + length payload \<le> 20600 \<Longrightarrow>
    serves ssl key fixed f (Greeting i rest ack) v [] (Greeting j rest' (SeqNumber_add ack (of_nat (length payload))))"
| flight_end: "segment_at v ack payload \<Longrightarrow> i < 4 \<Longrightarrow> rest @ payload = handshake_records (drop i (flight_bodies f)) \<Longrightarrow>
    length rest + length payload \<le> 20600 \<Longrightarrow>
    serves ssl key fixed f (Greeting i rest ack) v [] (Finishing [] (SeqNumber_add ack (of_nat (length payload))))"
| finished_part: "segment_at v ack payload \<Longrightarrow> incomplete_record (rest @ payload) \<Longrightarrow> length rest + length payload \<le> 20600 \<Longrightarrow>
    serves ssl key fixed f (Finishing rest ack) v [] (Finishing (rest @ payload) (SeqNumber_add ack (of_nat (length payload))))"
| finished: "segment_at v ack payload \<Longrightarrow> length verify < 65536 \<Longrightarrow>
    rest @ payload = tls_record ContentType_ChangeCipher [1] @ tls_record ContentType_Handshake verify \<Longrightarrow>
    length rest + length payload \<le> 20600 \<Longrightarrow>
    serves ssl key fixed f (Finishing rest ack) v [] (Upgrading key fixed [] [] (SeqNumber_add ack (of_nat (length payload))))"
| finished_cut: "segment_at v ack payload \<Longrightarrow> length verify < 65536 \<Longrightarrow>
    rest @ payload = tls_record ContentType_ChangeCipher [1] @ take j (tls_record ContentType_Handshake verify) \<Longrightarrow> j < 5 + length verify \<Longrightarrow>
    length rest + length payload \<le> 20600 \<Longrightarrow> serves ssl key fixed f (Finishing rest ack) v [] Hung"
| response_part: "segment_at v ack payload \<Longrightarrow> completes ssl k x rest payload ms rest' \<Longrightarrow> answer = bytes @ concat (map snd ms) \<Longrightarrow>
    length answer \<le> 200000 \<Longrightarrow> \<not> (occurs response_prefix answer \<and> occurs response_suffix answer) \<Longrightarrow>
    serves ssl key fixed f (Upgrading k x rest bytes ack) v [] (Upgrading k x rest' answer (SeqNumber_add ack (of_nat (length payload))))"
| response: "segment_at v ack payload \<Longrightarrow> completes ssl k x rest payload ms rest' \<Longrightarrow> answer = bytes @ concat (map snd ms) \<Longrightarrow>
    length answer \<le> 200000 \<Longrightarrow> occurs response_prefix answer \<Longrightarrow> first_at response_suffix answer n \<Longrightarrow>
    drop (n + 4) answer = frame_bytes fs @ tail \<Longrightarrow> \<forall>fr \<in> set fs. readable_frame fr \<Longrightarrow> partial_frame tail \<Longrightarrow>
    serves ssl key fixed f (Upgrading k x rest bytes ack) v (handed fs)
      (Open k x rest' (frame_bytes (kept_back fs) @ tail) (SeqNumber_add ack (of_nat (length payload))))"
| frames: "segment_at v ack payload \<Longrightarrow> completes ssl k x rest payload ms rest' \<Longrightarrow>
    bytes @ concat (map snd ms) = frame_bytes fs @ tail \<Longrightarrow> length (bytes @ concat (map snd ms)) \<le> 200000 \<Longrightarrow>
    \<forall>fr \<in> set fs. readable_frame fr \<Longrightarrow> partial_frame tail \<Longrightarrow>
    serves ssl key fixed f (Open k x rest bytes ack) v (handed fs)
      (Open k x rest' (frame_bytes (kept_back fs) @ tail) (SeqNumber_add ack (of_nat (length payload))))"
| aside: "34 \<le> length (v_mem v) \<Longrightarrow> eth_type (eth_hdr v) \<noteq> BE EthernetType_Arp \<Longrightarrow>
    \<not> (eth_type (eth_hdr v) = BE EthernetType_Ipv4 \<and> ip_protocol (ip_hdr v) = IpProtocol_Tcp) \<Longrightarrow> serves ssl key fixed f p v [] p"

section \<open>The client\<close>

text \<open>What the client keeps until it can send its upgrade request.\<close>

definition prepared :: "('w, 'z) wss_client_scheme \<Rightarrow> bool" where
  "prepared s \<longleftrightarrow> wss_state s = Init \<and> arrived s [] \<and> Stream_capacity (tls_stream s) = 20600 \<and>
     Stream_inv (tls_send_buffer s) \<and> Stream_contents (tls_send_buffer s) = [] \<and> 1965 \<le> available_suffix_bytes (tls_send_buffer s) \<and>
     length (sni_hostname s) \<le> 1908 \<and> length (ws_path s) + length (ws_host s) \<le> 1814"

definition awaiting_syn_ack :: "('w, 'z) wss_client_scheme \<Rightarrow> bool" where
  "awaiting_syn_ack s \<longleftrightarrow> prepared s \<and> cl_state s = Connecting \<and> cl_ack s = SeqNumber 0 \<and> hs_state s = ClientHelloToSend \<and> pending s [] \<and>
     handshake_hash s = [] \<and> length (server_eph_pubkey s) = 2048"

definition flight_state :: "nat \<Rightarrow> handshake_state" where
  "flight_state i = [ServerHello, ServerCertificate, ServerKeyExchange, ServerHelloDone, ClientFinished] ! i"

text \<open>After so many messages of the flight: where the client is, its transcript, and what it took from the messages.\<close>

definition in_flight :: "flight \<Rightarrow> nat \<Rightarrow> ('w, 'z) tls_client_scheme \<Rightarrow> bool" where
  "in_flight f i s \<longleftrightarrow> hs_state s = flight_state i \<and> length (server_eph_pubkey s) = 2048 \<and>
     handshake_hash s = client_hello (tls_random_client s) (sni_hostname s) @ concat (take i (flight_bodies f)) \<and>
     (0 < i \<longrightarrow> tls_random_server s = fl_random f) \<and> (2 < i \<longrightarrow> take 32 (server_eph_pubkey s) = fl_public_key f)"

definition greeted :: "flight \<Rightarrow> nat \<Rightarrow> ('w, 'z) wss_client_scheme \<Rightarrow> bytes \<Rightarrow> bool" where
  "greeted f i s rest \<longleftrightarrow> prepared s \<and> cl_state s = Connected \<and> i < 4 \<and> in_flight f i s \<and> pending s rest"

text \<open>
  The keys of the session: those of the key schedule over all messages of the handshake, for an ephemeral key of the
  client.
\<close>

definition agreed_on :: "'w ssl_api \<Rightarrow> flight \<Rightarrow> bytes \<Rightarrow> ('w, 'z) tls_client_scheme \<Rightarrow> bool" where
  "agreed_on ssl f k s \<longleftrightarrow> (
     let transcript = client_hello (tls_random_client s) (sni_hostname s) @ concat (flight_bodies f) @ client_key_exchange (X25519_public ssl k);
         master = master_secret_of ssl (X25519_derive ssl k (fl_public_key f)) transcript;
         keys = key_block ssl master (fl_random f) (tls_random_client s)
     in map_option ec_key (enc_ctx s) = Some (chunk 0 16 keys) \<and> map_option ec_key (dec_ctx s) = Some (chunk 16 16 keys) \<and>
        client_write_iv s = chunk 32 4 keys \<and> iv_server_write_iv s = chunk 36 4 keys)"

definition agreed :: "'w ssl_api \<Rightarrow> flight \<Rightarrow> ('w, 'z) tls_client_scheme \<Rightarrow> bool" where
  "agreed ssl f s \<longleftrightarrow> (\<exists>k. agreed_on ssl f k s)"

definition client_key :: "('w, 'z) tls_client_scheme \<Rightarrow> bytes" where
  "client_key s = (case enc_ctx s of None \<Rightarrow> [] | Some c \<Rightarrow> ec_key c)"

definition server_key :: "('w, 'z) tls_client_scheme \<Rightarrow> bytes" where
  "server_key s = (case dec_ctx s of None \<Rightarrow> [] | Some c \<Rightarrow> ec_key c)"

definition finishing :: "'w ssl_api \<Rightarrow> flight \<Rightarrow> ('w, 'z) wss_client_scheme \<Rightarrow> bytes \<Rightarrow> bool" where
  "finishing ssl f s rest \<longleftrightarrow> prepared s \<and> cl_state s = Connected \<and> hs_state s = ClientFinished \<and> pending s rest \<and> agreed ssl f s"

definition upgrading :: "('w, 'z) wss_client_scheme \<Rightarrow> bytes \<Rightarrow> bytes \<Rightarrow> bytes \<Rightarrow> bytes \<Rightarrow> bool" where
  "upgrading s key fixed rest bytes \<longleftrightarrow> cl_state s = Connected \<and> wss_state s = HttpHandshake \<and> incomplete_record rest \<and>
     reading s key fixed rest bytes \<and> Stream_capacity (tls_stream s) = 20600"

fun phase_holds :: "'w ssl_api \<Rightarrow> flight \<Rightarrow> ('w, 'z) wss_client_scheme \<Rightarrow> phase \<Rightarrow> bool" where
  "phase_holds ssl f s Opening = awaiting_syn_ack s"
| "phase_holds ssl f s (Greeting i rest ack) = (greeted f i s rest \<and> cl_ack s = ack)"
| "phase_holds ssl f s (Finishing rest ack) = (finishing ssl f s rest \<and> cl_ack s = ack)"
| "phase_holds ssl f s (Upgrading key fixed rest bytes ack) = (upgrading s key fixed rest bytes \<and> cl_ack s = ack)"
| "phase_holds ssl f s (Open key fixed rest bytes ack) = (idle s key fixed rest bytes \<and> cl_ack s = ack)"
| "phase_holds ssl f s Hung = False"

text \<open>
  A run of the loop in which every packet is the server's next one, and its messages. The packets of the connection are
  acceptable: they acknowledge nothing but what is outstanding, and announce a window with room for another message of
  the client.
\<close>

inductive session ::
    "'w dpdk_api \<Rightarrow> 'w ssl_api \<Rightarrow> 'w wss_api \<Rightarrow> host \<Rightarrow> flight \<Rightarrow> nat \<Rightarrow> bytes list \<Rightarrow> ('w, 'z) wss_client_scheme \<Rightarrow> phase \<Rightarrow> bytes list \<Rightarrow>
       phase \<Rightarrow> bool"
  for api :: "'w dpdk_api" and ssl :: "'w ssl_api" and wss :: "'w wss_api" and host :: host and f :: flight where
  over: "session api ssl wss host f 0 out s p [] p"
| poll: "fst (Device_receive api s) = Inr None \<Longrightarrow>
    \<forall>out' t. worker_iteration api ssl wss host out s = Some (Inr (), out', t) \<longrightarrow> session api ssl wss host f n out' t p messages q \<Longrightarrow>
    session api ssl wss host f (Suc n) out s p messages q"
| packet: "fst (Device_receive api s) = Inr (Some m) \<Longrightarrow>
    serves ssl (server_key s) (iv_server_write_iv s) f p (RxPacket_bytes m) new p' \<Longrightarrow> p' \<noteq> Hung \<Longrightarrow>
    tcp_packet (RxPacket_bytes m) \<longrightarrow> acceptable s (RxPacket_bytes m) \<Longrightarrow>
    \<forall>out' t. worker_iteration api ssl wss host out s = Some (Inr (), out', t) \<longrightarrow> session api ssl wss host f n out' t p' messages q \<Longrightarrow>
    session api ssl wss host f (Suc n) out s p (new @ messages) q"
| hangs: "fst (Device_receive api s) = Inr (Some m) \<Longrightarrow>
    serves ssl (server_key s) (iv_server_write_iv s) f p (RxPacket_bytes m) [] Hung \<Longrightarrow> acceptable s (RxPacket_bytes m) \<Longrightarrow>
    session api ssl wss host f (Suc n) out s p [] Hung"

section \<open>What the client sends\<close>


definition key_exchange_flight :: "'w ssl_api \<Rightarrow> flight \<Rightarrow> bytes \<Rightarrow> u64 \<Rightarrow> ('w, 'z) tls_client_scheme \<Rightarrow> bytes" where
  "key_exchange_flight ssl f k seq s =
     (let transcript = client_hello (tls_random_client s) (sni_hostname s) @ concat (flight_bodies f) @ client_key_exchange (X25519_public ssl k);
          master = master_secret_of ssl (X25519_derive ssl k (fl_public_key f)) transcript;
          keys = key_block ssl master (fl_random f) (tls_random_client s)
      in tls_record ContentType_Handshake (client_key_exchange (X25519_public ssl k)) @ tls_record ContentType_ChangeCipher [1] @
         sealed_record ssl (chunk 0 16 keys) (chunk 32 4 keys) seq ContentType_Handshake (client_finished ssl master transcript))"

fun says ::
    "'w ssl_api \<Rightarrow> 'w wss_api \<Rightarrow> flight \<Rightarrow> phase \<Rightarrow> ('w, 'z) wss_client_scheme \<Rightarrow> ('w, 'z) wss_client_scheme \<Rightarrow> bytes \<Rightarrow> bool" where
  "says ssl wss f Opening s t x =
     (x = tls_record ContentType_Handshake (client_hello (tls_random_client t) (sni_hostname s)) \<and> length (tls_random_client t) = 32)"
| "says ssl wss f (Greeting i rest ack) s t x = (\<exists>k. agreed_on ssl f k t \<and> x = key_exchange_flight ssl f k (write_sequence_number s) t)"
| "says ssl wss f (Finishing rest ack) s t x = (\<exists>w. x = sealed_record ssl (client_key s) (client_write_iv s) (write_sequence_number s)
     ContentType_ApplicationData (upgrade_request (ws_path s) (ws_host s) (sec_key wss w)))"
| "says ssl wss f p s t x = False"








section \<open>The message loop during the handshakes\<close>



lemma phase_world [simp]:
  "prepared (s\<lparr>world := w\<rparr>) = prepared s" "in_flight f i (s\<lparr>world := w\<rparr>) = in_flight f i s"
  "greeted f i (s\<lparr>world := w\<rparr>) rest = greeted f i s rest" "agreed ssl f (s\<lparr>world := w\<rparr>) = agreed ssl f s"
  "agreed_on ssl f k (s\<lparr>world := w\<rparr>) = agreed_on ssl f k s"
  "finishing ssl f (s\<lparr>world := w\<rparr>) rest = finishing ssl f s rest" "server_key (s\<lparr>world := w\<rparr>) = server_key s"
  "upgrading (s\<lparr>world := w\<rparr>) key fixed rest bytes = upgrading s key fixed rest bytes" "awaiting_syn_ack (s\<lparr>world := w\<rparr>) = awaiting_syn_ack s"
  by (simp_all add: prepared_def in_flight_def greeted_def agreed_def agreed_on_def finishing_def server_key_def upgrading_def awaiting_syn_ack_def
      reading_def pending_def)

lemma says_world [simp]: "says ssl wss f p s (t\<lparr>world := w\<rparr>) x = says ssl wss f p s t x"
  by (cases p) (simp_all add: key_exchange_flight_def)


section \<open>The connection request is answered\<close>






section \<open>The flight of the server\<close>












section \<open>The Finished message and the upgrade\<close>





section \<open>The response\<close>





lemma segment_taken_wss_state [simp]: "segment_taken api wire s v (u\<lparr>wss_state := x\<rparr>) = segment_taken api wire s v u"
  by (simp add: segment_taken_def same_segment_state_def)



section \<open>The simulation\<close>








section \<open>Sessions whose packets have arrived\<close>

text \<open>Nothing but the receiving of packets touches the burst they came in.\<close>

lemma burst_wss [simp]: "burst (s\<lparr>wss_stream := x\<rparr>) = burst s" "burst (s\<lparr>wss_state := y\<rparr>) = burst s"
  by (simp_all add: burst_def)











text \<open>
  A server whose packets do not depend on what the client chose, apart from the keys. They acknowledge nothing, so that
  the number of bytes the client may have outstanding grows with every packet.
\<close>

inductive scripted ::
    "('w, 'z) wss_client_scheme itself \<Rightarrow> 'w ssl_api \<Rightarrow> flight \<Rightarrow> nat \<Rightarrow> phase \<Rightarrow> mbuf list \<Rightarrow> bytes list \<Rightarrow> phase \<Rightarrow> bool"
  for client :: "('w, 'z) wss_client_scheme itself" and ssl :: "'w ssl_api" and f :: flight where
  silent: "scripted client ssl f k p [] [] p"
| sends: "\<forall>s :: ('w, 'z) wss_client_scheme. phase_holds ssl f s p \<longrightarrow>
      serves ssl (server_key s) (iv_server_write_iv s) f p (RxPacket_bytes m) new p' \<Longrightarrow>
    \<forall>s :: ('w, 'z) wss_client_scheme. ledger k s \<longrightarrow> acceptable s (RxPacket_bytes m) \<Longrightarrow>
    be_value (tcp_ack (tcp_hdr (RxPacket_bytes m))) = 7 \<Longrightarrow> tcp_options (RxPacket_bytes m) = Inr None \<Longrightarrow> tcp_packet (RxPacket_bytes m) \<Longrightarrow>
    p' \<noteq> Hung \<Longrightarrow> scripted client ssl f (k + 1994) p' packets messages q \<Longrightarrow> scripted client ssl f k p (m # packets) (new @ messages) q"



section \<open>The start of a session\<close>











section \<open>A concrete session, for the witnesses\<close>



















section \<open>Properties\<close>







end
