(* ===== verification/Formatters.thy ===== *)
theory Formatters
  imports UInt24 Arp Tcp_Packet
begin

text \<open>
  How values appear in log lines and error texts: the formatters of src/src/base/logger/default_formatter, of byte views
  (base/type/span.h), addresses, ports and 24-bit integers, the reflections of the packet headers they print, and the
  helpers of base/type the formatters and streams use (enum.h, constexpr_for.h, align.h).

  A formatter of a template gets the formatters of its parts as arguments, as the format library resolves them. The
  library's JSON writer and its names of enumerators are parameters.

  The log library formats an argument either in the call or later in its own thread, on a copy of the argument; which
  one is fixed per type (register_macros.h). \<open>codec_ok\<close> states what it documents of the two. A view is an address and a
  size, and its text depends on the memory at the time.
\<close>

section \<open>Byte views\<close>

text \<open>The bytes of an object, and bytes as characters.\<close>

definition to_byte_view :: "('a \<Rightarrow> bytes) \<Rightarrow> 'a \<Rightarrow> bytes" where
  "to_byte_view enc obj = enc obj"

definition to_string_view :: "bytes \<Rightarrow> string" where
  "to_string_view bs = map (\<lambda>b. char_of (unat b)) bs"

text \<open>\<^verbatim>\<open>std::memcpy\<close> of the object's size; the bytes have to be there.\<close>

definition load_unaligned :: "nat \<Rightarrow> (bytes \<Rightarrow> 'a) \<Rightarrow> bytes \<Rightarrow> ('s, 'a) prog" where
  "load_unaligned n dec ptr = thenM (defined_if (n \<le> length ptr) ''memcpy'') (ret (dec (take n ptr)))"

text \<open>
  The format specification up to the closing brace: one optional character, the delimiter. The result is the delimiter
  and where the parser stopped.
\<close>

definition ByteView_parse :: "string \<Rightarrow> error + char \<times> string" where
  "ByteView_parse ctx =
     (let (delimiter, it) = (case ctx of [] \<Rightarrow> (CHR '','', ctx) | c # cs \<Rightarrow> if c \<noteq> CHR ''}'' then (c, cs) else (CHR '','', ctx))
      in if it \<noteq> [] \<and> hd it \<noteq> CHR ''}'' then Inl (Runtime_error ''invalid format for base::MutableByteView'')
         else Inr (delimiter, it))"

fun ByteView_format_loop :: "char \<Rightarrow> bool \<Rightarrow> bytes \<Rightarrow> string" where
  "ByteView_format_loop delimiter first [] = ''''"
| "ByteView_format_loop delimiter first (byte # data) =
     (if \<not> first then [delimiter] else '''') @ format_02X byte @ ByteView_format_loop delimiter False data"

definition ByteView_format :: "char \<Rightarrow> bytes \<Rightarrow> string" where
  "ByteView_format delimiter data = ''['' @ ByteView_format_loop delimiter True data @ '']''"

section \<open>Addresses and numbers\<close>

definition format_Ip :: "(bytes \<Rightarrow> string \<Rightarrow> string) \<Rightarrow> ip \<Rightarrow> string" where "format_Ip inet_ntop p = Ip_as_string inet_ntop p"
definition format_Mac :: "mac \<Rightarrow> string" where "format_Mac p = Mac_as_string p"
definition format_Port :: "port \<Rightarrow> string" where "format_Port p = nat_digits (unat (Port_value p))"
definition format_UInt24 :: "uint24 \<Rightarrow> string" where "format_UInt24 data = nat_digits (unat (UInt24_value data))"

text \<open>A time point is printed as its nanoseconds, a signed number.\<close>

definition format_time_point :: "int \<Rightarrow> string" where "format_time_point count = int_digits count"

section \<open>Templates\<close>

definition format_optional :: "('a \<Rightarrow> string) \<Rightarrow> 'a option \<Rightarrow> string" where
  "format_optional fmt p = (case p of Some v \<Rightarrow> fmt v | None \<Rightarrow> '''')"

definition format_pair :: "('a \<Rightarrow> string) \<Rightarrow> ('b \<Rightarrow> string) \<Rightarrow> 'a \<times> 'b \<Rightarrow> string" where
  "format_pair fmt1 fmt2 p = ''('' @ fmt1 (fst p) @ '', '' @ fmt2 (snd p) @ '')''"

definition format_path :: "string \<Rightarrow> string" where "format_path p = p"

text \<open>A vector of C strings: every item is followed by the separator, the last one too.\<close>

fun join_c_strings :: "string list \<Rightarrow> string" where
  "join_c_strings [] = ''''"
| "join_c_strings (s # v) = s @ '', '' @ join_c_strings v"

definition format_c_strings :: "string list \<Rightarrow> string" where
  "format_c_strings v = ''['' @ join_c_strings v @ '']''"

text \<open>Every other vector, maps and the classes that ask for it are printed as JSON.\<close>

definition format_json :: "('a \<Rightarrow> string) \<Rightarrow> 'a \<Rightarrow> string" where
  "format_json json_write v = json_write v"

definition format_enum :: "('e \<Rightarrow> string) \<Rightarrow> 'e \<Rightarrow> string" where
  "format_enum enum_to_string v = enum_to_string v"

section \<open>Enumerations\<close>

definition enum_size :: "(string \<times> 'e) list \<Rightarrow> nat" where
  "enum_size enumerators = length enumerators"

definition enum_from_string :: "string \<Rightarrow> (string \<Rightarrow> 'e option) \<Rightarrow> string \<Rightarrow> ('s, 'e) prog" where
  "enum_from_string type_name string_to_enum str =
     (let result = string_to_enum str in
      thenM (require (result \<noteq> None) (''Failed to convert string '' @ str @ '' to enum '' @ type_name))
      (opt_value result))"

section \<open>Loops over constants\<close>

text \<open>The instances of the template recurse to the first index before they call the function.\<close>

fun constexpr_recursive :: "(nat \<Rightarrow> ('s, unit) prog) \<Rightarrow> nat \<Rightarrow> ('s, unit) prog" where
  "constexpr_recursive f 0 = f 0"
| "constexpr_recursive f (Suc i) = thenM (constexpr_recursive f i) (f (Suc i))"

definition constexpr_for :: "nat \<Rightarrow> (nat \<Rightarrow> ('s, unit) prog) \<Rightarrow> ('s, unit) prog" where
  "constexpr_for n f = (if n > 0 then constexpr_recursive f (n - 1) else ret ())"

section \<open>Reflections of the headers\<close>

record arp_reflection =
  ar_hardware_type :: u16
  ar_protocol_type :: u16
  ar_hardware_len :: byte
  ar_protocol_len :: byte
  ar_operation :: u16
  ar_sender_mac :: mac
  ar_sender_ip :: ip
  ar_target_mac :: mac
  ar_target_ip :: ip

definition Arp_reflection :: "arp_header \<Rightarrow> arp_reflection" where
  "Arp_reflection h = \<lparr>ar_hardware_type = be_value (arp_hardware_type h), ar_protocol_type = be_value (arp_protocol_type h),
     ar_hardware_len = arp_hardware_len h, ar_protocol_len = arp_protocol_len h, ar_operation = be_value (arp_operation h),
     ar_sender_mac = arp_sender_mac h, ar_sender_ip = arp_sender_ip h, ar_target_mac = arp_target_mac h,
     ar_target_ip = arp_target_ip h\<rparr>"

record ip_reflection =
  ir_version :: nat
  ir_header_size :: nat
  ir_tos :: byte
  ir_total_length :: "16 be"
  ir_id :: "16 be"
  ir_frag_off :: "16 be"
  ir_ttl :: byte
  ir_protocol :: byte
  ir_check :: "16 be"
  ir_src_addr :: ip
  ir_dst_addr :: ip

definition Ip_header_reflection :: "ip_header \<Rightarrow> ip_reflection" where
  "Ip_header_reflection h = \<lparr>ir_version = ip_version h, ir_header_size = IpHeader_size h, ir_tos = ip_tos h,
     ir_total_length = ip_total_length h, ir_id = ip_id_field h, ir_frag_off = ip_frag_off h, ir_ttl = ip_ttl h,
     ir_protocol = ip_protocol h, ir_check = ip_check h, ir_src_addr = ip_src_addr h, ir_dst_addr = ip_dst_addr h\<rparr>"

record tcp_reflection =
  tr_src_port :: port
  tr_dst_port :: port
  tr_seq :: seq_number
  tr_ack_seq :: seq_number
  tr_data_offset :: nat
  tr_flags :: flags
  tr_window :: "16 be"
  tr_checksum :: "16 be"
  tr_urg_ptr :: "16 be"

definition Tcp_reflection :: "tcp_header \<Rightarrow> tcp_reflection" where
  "Tcp_reflection h = \<lparr>tr_src_port = tcp_src_port h, tr_dst_port = tcp_dst_port h, tr_seq = SeqNumber (be_value (tcp_seq h)),
     tr_ack_seq = SeqNumber (be_value (tcp_ack h)), tr_data_offset = tcp_data_offset h, tr_flags = tcp_flags h,
     tr_window = tcp_window h, tr_checksum = tcp_checksum h, tr_urg_ptr = tcp_urg_ptr h\<rparr>"

definition Ip_reflection :: "(bytes \<Rightarrow> string \<Rightarrow> string) \<Rightarrow> ip \<Rightarrow> string" where "Ip_reflection inet_ntop p = Ip_as_string inet_ntop p"
definition Mac_reflection :: "mac \<Rightarrow> string" where "Mac_reflection p = Mac_as_string p"

section \<open>When an argument is formatted\<close>

datatype codec = DirectFormatCodec | DeferredFormatCodec

record quill_codecs =
  printed :: "codec \<Rightarrow> (bytes \<Rightarrow> string) \<Rightarrow> bytes \<Rightarrow> bytes \<Rightarrow> string"

text \<open>
  What the log library documents: the text of an argument whose formatter gives \<open>text mem\<close> on a memory \<open>mem\<close>, when the
  call is made on one memory and the line is written on another.
\<close>

definition codec_ok :: "quill_codecs \<Rightarrow> bool" where
  "codec_ok q \<longleftrightarrow> (\<forall>text mem later. printed q DirectFormatCodec text mem later = text mem) \<and>
     (\<forall>text mem later. printed q DeferredFormatCodec text mem later = text later)"

text \<open>The arguments of log lines; a byte view and a C string are addresses.\<close>

datatype 'c log_arg =
    Arg_ip ip | Arg_mac mac | Arg_port port | Arg_uint24 uint24 | Arg_time_point int
  | Arg_enum string | Arg_path string
  | Arg_bytes nat nat
  | Arg_c_strings "nat list"
  | Arg_class 'c | Arg_fast_class 'c | Arg_map 'c | Arg_vector 'c
  | Arg_optional "'c log_arg option"
  | Arg_pair "'c log_arg" "'c log_arg"

definition c_string :: "bytes \<Rightarrow> nat \<Rightarrow> string" where
  "c_string mem p = to_string_view (takeWhile (\<lambda>b. b \<noteq> 0) (drop p mem))"

primrec arg_text :: "(bytes \<Rightarrow> string \<Rightarrow> string) \<Rightarrow> ('c \<Rightarrow> string) \<Rightarrow> bytes \<Rightarrow> 'c log_arg \<Rightarrow> string" where
  "arg_text ntop json mem (Arg_ip p) = format_Ip ntop p"
| "arg_text ntop json mem (Arg_mac p) = format_Mac p"
| "arg_text ntop json mem (Arg_port p) = format_Port p"
| "arg_text ntop json mem (Arg_uint24 d) = format_UInt24 d"
| "arg_text ntop json mem (Arg_time_point t) = format_time_point t"
| "arg_text ntop json mem (Arg_enum name) = format_enum (\<lambda>e. e) name"
| "arg_text ntop json mem (Arg_path p) = format_path p"
| "arg_text ntop json mem (Arg_bytes p n) = ByteView_format (CHR '','') (chunk p n mem)"
| "arg_text ntop json mem (Arg_c_strings ps) = format_c_strings (map (c_string mem) ps)"
| "arg_text ntop json mem (Arg_class c) = format_json json c"
| "arg_text ntop json mem (Arg_fast_class c) = format_json json c"
| "arg_text ntop json mem (Arg_map c) = format_json json c"
| "arg_text ntop json mem (Arg_vector c) = format_json json c"
| "arg_text ntop json mem (Arg_optional a) = format_optional (\<lambda>t. t) (map_option (arg_text ntop json mem) a)"
| "arg_text ntop json mem (Arg_pair a b) = format_pair (\<lambda>t. t) (\<lambda>t. t) (arg_text ntop json mem a, arg_text ntop json mem b)"

text \<open>The registrations.\<close>

fun codec_of :: "'c log_arg \<Rightarrow> codec" where
  "codec_of (Arg_ip p) = DeferredFormatCodec"
| "codec_of (Arg_mac p) = DeferredFormatCodec"
| "codec_of (Arg_port p) = DeferredFormatCodec"
| "codec_of (Arg_uint24 d) = DeferredFormatCodec"
| "codec_of (Arg_time_point t) = DeferredFormatCodec"
| "codec_of (Arg_enum name) = DeferredFormatCodec"
| "codec_of (Arg_path p) = DeferredFormatCodec"
| "codec_of (Arg_bytes p n) = DirectFormatCodec"
| "codec_of (Arg_c_strings ps) = DirectFormatCodec"
| "codec_of (Arg_class c) = DirectFormatCodec"
| "codec_of (Arg_fast_class c) = DeferredFormatCodec"
| "codec_of (Arg_map c) = DirectFormatCodec"
| "codec_of (Arg_vector c) = DirectFormatCodec"
| "codec_of (Arg_optional a) = DeferredFormatCodec"
| "codec_of (Arg_pair a b) = DirectFormatCodec"

definition logged_text :: "quill_codecs \<Rightarrow> (bytes \<Rightarrow> string \<Rightarrow> string) \<Rightarrow> ('c \<Rightarrow> string) \<Rightarrow> bytes \<Rightarrow> bytes \<Rightarrow> 'c log_arg \<Rightarrow> string" where
  "logged_text q ntop json mem later a = printed q (codec_of a) (\<lambda>m. arg_text ntop json m a) mem later"

text \<open>Arguments that hold an address.\<close>

primrec views_memory :: "'c log_arg \<Rightarrow> bool" where
  "views_memory (Arg_ip p) = False"
| "views_memory (Arg_mac p) = False"
| "views_memory (Arg_port p) = False"
| "views_memory (Arg_uint24 d) = False"
| "views_memory (Arg_time_point t) = False"
| "views_memory (Arg_enum name) = False"
| "views_memory (Arg_path p) = False"
| "views_memory (Arg_bytes p n) = True"
| "views_memory (Arg_c_strings ps) = True"
| "views_memory (Arg_class c) = False"
| "views_memory (Arg_fast_class c) = False"
| "views_memory (Arg_map c) = False"
| "views_memory (Arg_vector c) = False"
| "views_memory (Arg_optional a) = (case map_option views_memory a of None \<Rightarrow> False | Some b \<Rightarrow> b)"
| "views_memory (Arg_pair a b) = (views_memory a \<or> views_memory b)"

section \<open>Lemmas\<close>

lemma to_string_view_bytes: "string_bytes (to_string_view bs) = bs"
proof -
  have "(of_char (char_of (unat b)) :: byte) = b" for b :: byte
    using of_nat_of_char [of "char_of (unat b)", where 'a = byte, symmetric] unsigned_less [of b, where 'a = nat]
    by (simp add: of_char_of)
  then show ?thesis by (simp add: string_bytes_def to_string_view_def comp_def)
qed

lemma load_unaligned_result:
  "length bs = n \<Longrightarrow> load_unaligned n dec (bs @ rest) s = (Inr (dec bs), s)"
  by (simp add: load_unaligned_def prog_defs)

text \<open>The loop over constants calls the function once for every index, from the first to the last.\<close>

lemma constexpr_for_in_order: "constexpr_for n f = foreach f [0..<n]"
proof -
  have "constexpr_recursive f k = foreach f [0..<Suc k]" for k
    by (induction k) (auto simp: foreach_append thenM_def bindM_def ret_def fun_eq_iff split: prod.splits sum.splits)
  then show ?thesis by (cases n) (auto simp: constexpr_for_def)
qed

text \<open>Text of a byte view.\<close>

lemma ByteView_format_loop_concat:
  "ByteView_format_loop d False data = concat (map (\<lambda>b. d # format_02X b) data)"
  by (induction data) auto

lemma hex_pair_inject: "format_02X a = format_02X b \<longleftrightarrow> a = b"
proof
  assume h: "format_02X a = format_02X b"
  have "scan_hhx (format_02X x) = Some (x, [])" for x :: byte using scan_hhx_format_02X [of "[]" x] by simp
  from this [of a] this [of b] show "a = b" unfolding h by simp
qed simp

lemma ByteView_rest_inject:
  "concat (map (\<lambda>b. d # format_02X b) xs) = concat (map (\<lambda>b. d # format_02X b) ys) \<Longrightarrow> xs = ys"
proof (induction xs arbitrary: ys)
  case Nil
  then show ?case by (cases ys) auto
next
  case (Cons x xs)
  then obtain y ys' where ys: "ys = y # ys'" by (cases ys) auto
  have l: "length (format_02X x) = length (format_02X y)" by (simp add: format_02X_def)
  from Cons.prems have "format_02X x = format_02X y \<and> concat (map (\<lambda>b. d # format_02X b) xs) = concat (map (\<lambda>b. d # format_02X b) ys')"
    by (simp add: ys append_eq_append_conv [OF disjI1 [OF l]])
  with Cons.IH show ?case by (simp add: ys hex_pair_inject)
qed

lemma ByteView_parse_cases:
  "ByteView_parse ''}'' = Inr (CHR '','', ''}'')"
  "c \<noteq> CHR ''}'' \<Longrightarrow> ByteView_parse [c, CHR ''}''] = Inr (c, ''}'')"
  "c \<noteq> CHR ''}'' \<Longrightarrow> d \<noteq> CHR ''}'' \<Longrightarrow> ByteView_parse (c # d # rest) = Inl (Runtime_error ''invalid format for base::MutableByteView'')"
  by (simp_all add: ByteView_parse_def)

text \<open>The separator stands behind the last item of a non-empty vector of C strings too.\<close>

lemma join_c_strings_concat: "join_c_strings v = concat (map (\<lambda>s. s @ '', '') v)"
  by (induction v) auto

lemma arg_text_without_views: "\<not> views_memory a \<Longrightarrow> arg_text ntop json mem a = arg_text ntop json later a"
proof (induction a)
  case (Arg_optional a)
  then show ?case by (cases a) auto
qed auto

lemma header_reflection_inject: "Arp_reflection g = Arp_reflection h \<Longrightarrow> g = h"
proof -
  assume r: "Arp_reflection g = Arp_reflection h"
  have "BE (be_value x) = x" for x :: "16 be" by simp
  then have "be_value x = be_value y \<longleftrightarrow> x = y" for x y :: "16 be" by metis
  with r show ?thesis by (simp add: Arp_reflection_def)
qed

lemma ByteView_format_inject: "ByteView_format d xs = ByteView_format d ys \<longleftrightarrow> xs = ys"
proof
  assume "ByteView_format d xs = ByteView_format d ys"
  then have "ByteView_format_loop d True xs = ByteView_format_loop d True ys" by (simp add: ByteView_format_def)
  moreover have "ByteView_format_loop d False zs = (if zs = [] then [] else d # ByteView_format_loop d True zs)" for zs
    by (cases zs) auto
  ultimately have "xs = [] \<longleftrightarrow> ys = []" "ByteView_format_loop d False xs = ByteView_format_loop d False ys"
    by (cases xs; cases ys; simp add: format_02X_def)+
  then show "xs = ys" using ByteView_rest_inject [of d xs ys] by (simp add: ByteView_format_loop_concat)
qed simp

lemma length_ByteView_format: "length (ByteView_format d data) = (if data = [] then 2 else 3 * length data + 1)"
proof -
  have f: "length (ByteView_format_loop d False data) = 3 * length data" for data
    by (induction data) (auto simp: format_02X_def)
  show ?thesis by (cases data) (auto simp: ByteView_format_def format_02X_def f)
qed

section \<open>Properties\<close>

text \<open>
  Whatever happens to the memory between the call and the writing of the line, an argument is printed as it was at the
  call, byte views and C strings included, with one exception: an optional is formatted when the line is written, and
  an optional that holds a view then shows what is in the memory at that time.
\<close>

lemma log_line_shows_call:
  assumes "codec_ok q"
  shows "logged_text q ntop json mem later a = arg_text ntop json (case a of Arg_optional (Some v) \<Rightarrow> if views_memory v then later else mem | _ \<Rightarrow> mem) a"
proof (cases a)
  case (Arg_optional p)
  then show ?thesis
    using assms arg_text_without_views [of a ntop json later mem]
    by (auto simp: logged_text_def codec_ok_def split: option.split)
qed (use assms in \<open>simp_all add: logged_text_def codec_ok_def\<close>)

definition demo_codecs :: quill_codecs where
  "demo_codecs = \<lparr>printed = (\<lambda>c text mem later. case c of DirectFormatCodec \<Rightarrow> text mem | DeferredFormatCodec \<Rightarrow> text later)\<rparr>"

lemma demo_codecs_ok: "codec_ok demo_codecs"
  by (simp add: codec_ok_def demo_codecs_def)

lemma log_line_shows_call_witness:
  "logged_text demo_codecs (\<lambda>_ buf. buf) (\<lambda>c :: unit. '''') [0x0F, 0xA0] [1, 2] (Arg_bytes 0 2) = ''[0F,A0]'' \<and>
   logged_text demo_codecs (\<lambda>_ buf. buf) (\<lambda>c :: unit. '''') [0x0F, 0xA0] [1, 2] (Arg_optional (Some (Arg_bytes 0 2))) = ''[01,02]''"
  by (simp add: log_line_shows_call [OF demo_codecs_ok] ByteView_format_def format_02X_def hex_upper_def chunk_def format_optional_def)

text \<open>
  The specification of a byte view is one character at most, contrary to the example in the code, and the default
  delimiter is a comma, contrary to the comment beside it.
\<close>

lemma ByteView_specification:
  "ByteView_parse '',-}'' = Inl (Runtime_error ''invalid format for base::MutableByteView'') \<and>
   ByteView_parse ''}'' = Inr (CHR '','', ''}'') \<and> ByteView_parse ''-}'' = Inr (CHR ''-'', ''}'')"
  by (simp add: ByteView_parse_cases)

end
