(* ===== verification/Log_Macros.thy ===== *)
theory Log_Macros
  imports Logger
begin

text \<open>
  The log macros (src/src/base/logger/macros.h) and the checks that log before they throw (src/src/base/macros/require.h).
  The rest of the development uses \<open>require\<close> of the prelude, which throws without a log line. Here the line is part of
  the check, and the relation between the two is proved: with a logger they do the same but for one line, without one
  the check leaves defined behaviour instead of throwing.

  The statement of the log library behind a macro is a parameter: it takes the logger, the macro's level and kind and
  the text, and changes the library's world. A macro names its logger \<^verbatim>\<open>get_logger()\<close>: in a class that is a component, its
  own, elsewhere the default one.
\<close>

section \<open>The macros\<close>

text \<open>The kinds: every time, at most once in an interval, once in a number of occurrences, with tags.\<close>

datatype log_kind = Log_always | Log_limit | Log_every_n | Log_tags

datatype quill_macro = LOG log_kind log_level | LOG_BACKTRACE

definition log_macros :: "(string \<times> quill_macro) list" where
  "log_macros =
     [(''TRACE_L3'', LOG Log_always TraceL3), (''TRACE_L2'', LOG Log_always TraceL2), (''TRACE_L1'', LOG Log_always TraceL1),
      (''DEBUG'', LOG Log_always Debug), (''INFO'', LOG Log_always Info), (''NOTICE'', LOG Log_always Notice),
      (''WARNING'', LOG Log_always Warning), (''ERROR'', LOG Log_always Error), (''CRITICAL'', LOG Log_always Critical),
      (''BACKTRACE'', LOG_BACKTRACE)]"

definition throttled_macros :: "(string \<times> quill_macro) list" where
  "throttled_macros =
     [(''TRACE_L3_LIMIT'', LOG Log_limit TraceL3), (''TRACE_L2_LIMIT'', LOG Log_limit TraceL2),
      (''TRACE_L1_LIMIT'', LOG Log_limit TraceL1), (''DEBUG_LIMIT'', LOG Log_limit Debug), (''INFO_LIMIT'', LOG Log_limit Info),
      (''NOTICE_LIMIT'', LOG Log_limit Notice), (''WARN_LIMIT'', LOG Log_limit Warning), (''ERROR_LIMIT'', LOG Log_limit Error),
      (''CRITICAL_LIMIT'', LOG Log_limit Critical)]"

definition every_n_macros :: "(string \<times> quill_macro) list" where
  "every_n_macros =
     [(''TRACE_L3_LIMIT_EVERY_N'', LOG Log_every_n TraceL3), (''TRACE_L2_LIMIT_EVERY_N'', LOG Log_every_n TraceL2),
      (''TRACE_L1_LIMIT_EVERY_N'', LOG Log_every_n TraceL1), (''DEBUG_LIMIT_EVERY_N'', LOG Log_every_n Debug),
      (''INFO_LIMIT_EVERY_N'', LOG Log_every_n Info), (''NOTICE_LIMIT_EVERY_N'', LOG Log_every_n Notice),
      (''WARNING_LIMIT_EVERY_N'', LOG Log_every_n Warning), (''ERROR_LIMIT_EVERY_N'', LOG Log_every_n Error),
      (''CRITICAL_LIMIT_EVERY_N'', LOG Log_every_n Critical)]"

definition tags_macros :: "(string \<times> quill_macro) list" where
  "tags_macros =
     [(''TRACE_L3_TAGS'', LOG Log_tags TraceL3), (''TRACE_L2_TAGS'', LOG Log_tags TraceL2), (''TRACE_L1_TAGS'', LOG Log_tags TraceL1),
      (''DEBUG_TAGS'', LOG Log_tags Debug), (''INFO_TAGS'', LOG Log_tags Info), (''NOTICE_TAGS'', LOG Log_tags Notice),
      (''WARNING_TAGS'', LOG Log_tags Warning), (''ERROR_TAGS'', LOG Log_tags Error), (''CRITICAL_TAGS'', LOG Log_tags Critical)]"

text \<open>The deprecated names and the macros they stand for.\<close>

definition deprecated_macros :: "(string \<times> string) list" where
  "deprecated_macros =
     [(''TRACE'', ''TRACE_L1''), (''WARN'', ''WARNING''), (''TRACE_THROTTLED'', ''TRACE_L1_LIMIT''),
      (''DEBUG_THROTTLED'', ''DEBUG_LIMIT''), (''INFO_THROTTLED'', ''INFO_LIMIT''), (''WARN_THROTTLED'', ''WARN_LIMIT''),
      (''ERROR_THROTTLED'', ''ERROR_LIMIT'')]"

definition expand_macro :: "string \<Rightarrow> quill_macro option" where
  "expand_macro name = map_of (log_macros @ throttled_macros @ every_n_macros @ tags_macros)
     (case map_of deprecated_macros name of None \<Rightarrow> name | Some n \<Rightarrow> n)"

section \<open>Log statements\<close>

type_synonym 'w log_statement = "logger_ptr \<Rightarrow> quill_macro \<Rightarrow> string \<Rightarrow> 'w \<Rightarrow> 'w"

text \<open>The free function \<^verbatim>\<open>get_logger\<close>, and the member of a component.\<close>

definition get_logger :: "'w frontend_api \<Rightarrow> loggable_component option \<Rightarrow> ('w logging, logger_ptr option) prog" where
  "get_logger fe component = (case component of
     None \<Rightarrow> Logger_get_logger fe | Some c \<Rightarrow> ret (LoggableComponent_get_logger c))"

definition log_line ::
    "'w frontend_api \<Rightarrow> 'w log_statement \<Rightarrow> loggable_component option \<Rightarrow> quill_macro \<Rightarrow> string \<Rightarrow> ('w logging, unit) prog" where
  "log_line fe log component mac text =
     bindM (bindM (get_logger fe component) deref) (\<lambda>l. frontend_do (log l mac text))"

section \<open>Checks\<close>

definition REQUIRE ::
    "'w frontend_api \<Rightarrow> 'w log_statement \<Rightarrow> loggable_component option \<Rightarrow> bool \<Rightarrow> string \<Rightarrow> ('w logging, unit) prog" where
  "REQUIRE fe log component statement message =
     (if \<not> statement
      then thenM (log_line fe log component (LOG Log_always Error) message) (throw (Runtime_error message))
      else ret ())"

text \<open>The comparing checks; \<open>show\<close> is the formatter of the arguments, which are values here.\<close>

definition failed_comparison ::
    "'w frontend_api \<Rightarrow> 'w log_statement \<Rightarrow> loggable_component option \<Rightarrow> ('a \<Rightarrow> string) \<Rightarrow> string \<Rightarrow> 'a \<Rightarrow> 'a \<Rightarrow> string \<Rightarrow>
       ('w logging, unit) prog" where
  "failed_comparison fe log component show_arg sign a b message =
     thenM (log_line fe log component (LOG Log_always Error) (show_arg a @ '' '' @ sign @ '' '' @ show_arg b @ ''  '' @ message))
     (throw (Runtime_error message))"

definition REQUIRE_EQ where
  "REQUIRE_EQ fe log component show_arg a b message =
     (if a \<noteq> b then failed_comparison fe log component show_arg ''!='' a b message else ret ())"

definition REQUIRE_NE where
  "REQUIRE_NE fe log component show_arg a b message =
     (if a = b then failed_comparison fe log component show_arg ''!='' a b message else ret ())"

definition REQUIRE_LE where
  "REQUIRE_LE fe log component show_arg (a :: 'a::linorder) b message =
     (if a > b then failed_comparison fe log component show_arg ''>'' a b message else ret ())"

definition REQUIRE_LT where
  "REQUIRE_LT fe log component show_arg (a :: 'a::linorder) b message =
     (if a \<ge> b then failed_comparison fe log component show_arg ''>='' a b message else ret ())"

definition REQUIRE_GE where
  "REQUIRE_GE fe log component show_arg (a :: 'a::linorder) b message =
     (if a < b then failed_comparison fe log component show_arg ''<'' a b message else ret ())"

definition REQUIRE_GT where
  "REQUIRE_GT fe log component show_arg (a :: 'a::linorder) b message =
     (if a \<le> b then failed_comparison fe log component show_arg ''<='' a b message else ret ())"

section \<open>Lemmas\<close>

text \<open>Each level has a macro of each kind, and no name is defined twice.\<close>

lemma macro_names_distinct:
  "distinct (map fst (log_macros @ throttled_macros @ every_n_macros @ tags_macros) @ map fst deprecated_macros)"
  by (simp add: log_macros_def throttled_macros_def every_n_macros_def tags_macros_def deprecated_macros_def)

lemma every_macro_exists: "\<exists>name. expand_macro name = Some mac"
proof -
  let ?t = "log_macros @ throttled_macros @ every_n_macros @ tags_macros"
  have "distinct (map fst ?t @ map fst deprecated_macros)" by (rule macro_names_distinct)
  then have d: "distinct (map fst ?t)" and disj: "set (map fst ?t) \<inter> set (map fst deprecated_macros) = {}"
    unfolding distinct_append by blast+
  have "mac \<in> set (map snd ?t)"
  proof (cases mac)
    case (LOG k v)
    then show ?thesis
      by (cases k; cases v; simp add: log_macros_def throttled_macros_def every_n_macros_def tags_macros_def)
  qed (simp add: log_macros_def)
  then obtain name where n: "(name, mac) \<in> set ?t" by (auto simp only: set_map image_iff prod.sel)
  then have "name \<in> set (map fst ?t)" by (metis fst_conv image_eqI list.set_map)
  then have "name \<notin> set (map fst deprecated_macros)" using disj by blast
  then have "map_of deprecated_macros name = None" by (simp add: map_of_eq_None_iff)
  moreover have "map_of ?t name = Some mac" using d n by (rule map_of_is_SomeI)
  ultimately have "expand_macro name = Some mac" by (simp only: expand_macro_def option.case)
  then show ?thesis ..
qed

lemma deprecated_expand:
  "expand_macro ''TRACE'' = Some (LOG Log_always TraceL1)" "expand_macro ''WARN_THROTTLED'' = Some (LOG Log_limit Warning)"
  by (simp_all add: expand_macro_def log_macros_def throttled_macros_def deprecated_macros_def)

text \<open>A failed check that finds its logger.\<close>

definition logger_of :: "'w frontend_api \<Rightarrow> loggable_component option \<Rightarrow> 'w logging \<Rightarrow> logger_ptr option" where
  "logger_of fe component s = (case component of
     None \<Rightarrow> find_logger fe kDefaultLogger (log_world s) | Some c \<Rightarrow> lgc_logger c)"

lemma log_line_result:
  "log_line fe log component mac text s = (case logger_of fe component s of
     None \<Rightarrow> (Inl (Undefined_behaviour ''null pointer''), s)
   | Some l \<Rightarrow> (Inr (), s\<lparr>log_world := log l mac text (log_world s)\<rparr>))"
  by (cases component)
     (auto simp: log_line_def logger_of_def get_logger_def Logger_get_logger_def LoggableComponent_get_logger_def deref_def
       frontend_do_def prog_defs split: option.splits)

lemma comparison_as_REQUIRE:
  "fst (REQUIRE_EQ fe log c sh a b m s) = fst (REQUIRE fe log c (a = b) m s)"
  "fst (REQUIRE_NE fe log c sh a b m s) = fst (REQUIRE fe log c (a \<noteq> b) m s)"
  "fst (REQUIRE_LE fe log c sho (x :: 'o::linorder) y m s) = fst (REQUIRE fe log c (x \<le> y) m s)"
  "fst (REQUIRE_LT fe log c sho x y m s) = fst (REQUIRE fe log c (x < y) m s)"
  "fst (REQUIRE_GE fe log c sho x y m s) = fst (REQUIRE fe log c (x \<ge> y) m s)"
  "fst (REQUIRE_GT fe log c sho x y m s) = fst (REQUIRE fe log c (x > y) m s)"
  by (auto simp: REQUIRE_EQ_def REQUIRE_NE_def REQUIRE_LE_def REQUIRE_LT_def REQUIRE_GE_def REQUIRE_GT_def REQUIRE_def
    failed_comparison_def thenM_def bindM_def log_line_result throw_def ret_def split: option.splits)

section \<open>Properties\<close>

text \<open>
  The checks of the program refine the checks of the model. A check that holds changes nothing. One that fails where
  its logger exists throws the message and has written it as one error line to that logger; where there is no logger,
  before the default one is constructed or in a component without one, the failed check does not throw but goes through a
  null pointer.
\<close>

lemma REQUIRE_refines_require:
  "REQUIRE fe log component statement message s =
     (if statement then require statement message s
      else case logger_of fe component s of
        None \<Rightarrow> (Inl (Undefined_behaviour ''null pointer''), s)
      | Some l \<Rightarrow> require statement message (s\<lparr>log_world := log l (LOG Log_always Error) message (log_world s)\<rparr>))"
  by (auto simp: REQUIRE_def thenM_def bindM_def log_line_result require_def throw_def ret_def split: option.splits)

text \<open>After the logger is constructed no failed check of free code is undefined.\<close>

lemma REQUIRE_after_Logger_new:
  assumes "frontend_ok fe" and "find_logger fe kDefaultLogger (log_world s) = None"
  shows "\<exists>t. Logger_new fe params s = (Inr (), t) \<and> fst (REQUIRE fe log None statement message t) = fst (require statement message t)"
proof -
  obtain t l where t: "Logger_new fe params s = (Inr (), t)" "find_logger fe kDefaultLogger (log_world t) = Some l"
    using Logger_new_default [OF assms, of params] by blast
  have "fst (REQUIRE fe log None statement message t) = fst (require statement message t)"
    using t(2) by (simp add: REQUIRE_def thenM_def bindM_def log_line_result logger_of_def require_def throw_def ret_def)
  with t(1) show ?thesis by blast
qed

text \<open>The line of a failed check for difference says that the two equal values differ.\<close>

lemma REQUIRE_NE_line:
  "logger_of fe c s = Some l \<Longrightarrow> snd (REQUIRE_NE fe log c sh a a message s) =
     s\<lparr>log_world := log l (LOG Log_always Error) (sh a @ '' != '' @ sh a @ ''  '' @ message) (log_world s)\<rparr>"
  by (simp add: REQUIRE_NE_def failed_comparison_def thenM_def bindM_def log_line_result throw_def)

end
