(* ===== verification/Openssl_Handles.thy ===== *)
theory Openssl_Handles
  imports Prelude Steps
begin

text \<open>
  The lifetimes of the OpenSSL objects of the TLS client: the deleters and the checked constructors of
  src/src/network/tls12/openssl.cpp, the objects that live for the duration of one function (\<^verbatim>\<open>prf\<close>, the key generation, the
  key exchange), the digest context of \<^verbatim>\<open>HandshakeHash\<close> (type.cpp), and the three contexts a client owns from its construction to
  its destruction, moves included. Tls_Client has the values these functions compute; here is which object exists when.

  Objects are told apart by the call that made them. The answers of the library are arbitrary functions of the number
  of the call: whether an object is made, and the result codes. Freeing an object that does not exist, or using one, is
  \<open>Undefined_behaviour\<close>.
\<close>

section \<open>The library\<close>

datatype ossl_kind = EVP_PKEY | X509 | EVP_PKEY_CTX | EVP_CIPHER_CTX | EVP_MD_CTX

record ossl_answers =
  allocates :: "nat \<Rightarrow> bool"
  call_result :: "nat \<Rightarrow> int"

text \<open>What one client owns: \<open>None\<close> is the null pointer, the outer option of the cipher contexts the \<^verbatim>\<open>std::optional\<close>.\<close>

record tls_handles =
  hash_ptr :: "nat option"
  enc_ptr :: "nat option option"
  dec_ptr :: "nat option option"

record ossl =
  ossl_calls :: nat
  live :: "(nat \<times> ossl_kind) list"
  clients :: "nat \<Rightarrow> tls_handles option"

definition double_free :: error where "double_free = Undefined_behaviour ''double free''"
definition use_after_free :: error where "use_after_free = Undefined_behaviour ''use after free''"
definition null_pointer :: error where "null_pointer = Undefined_behaviour ''null pointer''"

definition ossl_new :: "ossl_answers \<Rightarrow> ossl_kind \<Rightarrow> (ossl, nat option) prog" where
  "ossl_new ans kind = (\<lambda>s. let n = ossl_calls s in
     if allocates ans n then (Inr (Some n), s\<lparr>ossl_calls := n + 1, live := (n, kind) # live s\<rparr>)
     else (Inr None, s\<lparr>ossl_calls := n + 1\<rparr>))"

definition ossl_free :: "ossl_kind \<Rightarrow> nat \<Rightarrow> (ossl, unit) prog" where
  "ossl_free kind p = bindM (gets live) (\<lambda>l.
     if (p, kind) \<in> set l then modify (\<lambda>s. s\<lparr>live := remove1 (p, kind) (live s)\<rparr>) else throw double_free)"

text \<open>A call on some objects, and its result code.\<close>

definition ossl_use :: "nat option list \<Rightarrow> (ossl, unit) prog" where
  "ossl_use ptrs = bindM (gets live) (\<lambda>l.
     if None \<in> set ptrs then throw null_pointer
     else if Some ` fst ` set l \<supseteq> set ptrs then ret () else throw use_after_free)"

definition ossl_call :: "ossl_answers \<Rightarrow> nat option list \<Rightarrow> (ossl, int) prog" where
  "ossl_call ans ptrs = thenM (ossl_use ptrs) (\<lambda>s. (Inr (call_result ans (ossl_calls s)), s\<lparr>ossl_calls := ossl_calls s + 1\<rparr>))"

definition require_positive :: "ossl_answers \<Rightarrow> nat option list \<Rightarrow> string \<Rightarrow> (ossl, unit) prog" where
  "require_positive ans ptrs message = bindM (ossl_call ans ptrs) (\<lambda>r. require (r > 0) message)"

section \<open>Deleters and checked constructors\<close>

definition EVPKeyDeleter :: "nat option \<Rightarrow> (ossl, unit) prog" where
  "EVPKeyDeleter ptr = (case ptr of None \<Rightarrow> ret () | Some p \<Rightarrow> ossl_free EVP_PKEY p)"

definition X509Deleter :: "nat option \<Rightarrow> (ossl, unit) prog" where
  "X509Deleter ptr = (case ptr of None \<Rightarrow> ret () | Some p \<Rightarrow> ossl_free X509 p)"

definition EVPKeyCtxDeleter :: "nat option \<Rightarrow> (ossl, unit) prog" where
  "EVPKeyCtxDeleter ptr = (case ptr of None \<Rightarrow> ret () | Some p \<Rightarrow> ossl_free EVP_PKEY_CTX p)"

definition EVPCipherCtxDeleter :: "nat option \<Rightarrow> (ossl, unit) prog" where
  "EVPCipherCtxDeleter ptr = (case ptr of None \<Rightarrow> ret () | Some p \<Rightarrow> ossl_free EVP_CIPHER_CTX p)"

definition make_evp_key :: "nat option \<Rightarrow> (ossl, nat option) prog" where
  "make_evp_key ptr = thenM (require (ptr \<noteq> None) ''Failed to extract public key from certificate'') (ret ptr)"

definition make_x509 :: "nat option \<Rightarrow> (ossl, nat option) prog" where
  "make_x509 ptr = thenM (require (ptr \<noteq> None) ''Failed to parse X.509 certificate'') (ret ptr)"

definition make_evp_key_ctx :: "nat option \<Rightarrow> (ossl, nat option) prog" where
  "make_evp_key_ctx ptr = thenM (require (ptr \<noteq> None) ''nullptr'') (ret ptr)"

definition make_evp_cipher_ctx :: "nat option \<Rightarrow> (ossl, nat option) prog" where
  "make_evp_cipher_ctx ptr = thenM (require (ptr \<noteq> None) ''nullptr'') (ret ptr)"

text \<open>Once behaviour is undefined nothing more can be said of a run; it ends there.\<close>

fun undefined_behaviour :: "error \<Rightarrow> bool" where
  "undefined_behaviour (Undefined_behaviour m) = True"
| "undefined_behaviour e = False"

text \<open>The scope of a \<^verbatim>\<open>unique_ptr\<close>: its deleter runs on every way out.\<close>

definition scoped :: "(nat option \<Rightarrow> (ossl, unit) prog) \<Rightarrow> nat option \<Rightarrow> (ossl, 'a) prog \<Rightarrow> (ossl, 'a) prog" where
  "scoped deleter ptr body = (\<lambda>s. case body s of
     (Inl e, t) \<Rightarrow> if undefined_behaviour e then (Inl e, t) else thenM (deleter ptr) (throw e) t
   | (Inr a, t) \<Rightarrow> thenM (deleter ptr) (ret a) t)"

text \<open>A constructor that throws destroys what it has made.\<close>

definition on_throw :: "(ossl, 'a) prog \<Rightarrow> (ossl, unit) prog \<Rightarrow> (ossl, 'a) prog" where
  "on_throw body undo = (\<lambda>s. case body s of
     (Inl e, t) \<Rightarrow> if undefined_behaviour e then (Inl e, t) else thenM undo (throw e) t
   | (Inr a, t) \<Rightarrow> (Inr a, t))"

section \<open>The functions\<close>

definition prf_objects :: "ossl_answers \<Rightarrow> (ossl, unit) prog" where
  "prf_objects ans =
     bindM (bindM (ossl_new ans EVP_PKEY_CTX) make_evp_key_ctx) (\<lambda>pctx. scoped EVPKeyCtxDeleter pctx (
       thenM (require (pctx \<noteq> None) ''Failed to create TLS1-PRF context'')
       (thenM (require_positive ans [pctx] ''Failed to initialize PRF derivation'')
       (thenM (require_positive ans [pctx] ''Failed to set PRF digest'')
       (thenM (require_positive ans [pctx] ''Failed to set PRF secret'')
       (thenM (require_positive ans [pctx] ''Failed to add PRF label'')
       (thenM (require_positive ans [pctx] ''Failed to add PRF seed'')
       (require_positive ans [pctx] ''Failed to derive key material''))))))))"

text \<open>The key generator makes a key exactly when its result is positive.\<close>

definition keygen :: "ossl_answers \<Rightarrow> nat option \<Rightarrow> (ossl, nat option) prog" where
  "keygen ans pctx = bindM (ossl_call ans [pctx]) (\<lambda>r.
     thenM (require (r > 0) ''EVP_PKEY_keygen failed'') (ossl_new ans EVP_PKEY))"

definition generate_x25519_key_objects :: "ossl_answers \<Rightarrow> (ossl, nat option) prog" where
  "generate_x25519_key_objects ans =
     bindM (bindM (ossl_new ans EVP_PKEY_CTX) make_evp_key_ctx) (\<lambda>pctx. scoped EVPKeyCtxDeleter pctx (
       thenM (require (pctx \<noteq> None) ''EVP_PKEY_CTX_new_id failed'')
       (thenM (require_positive ans [pctx] ''EVP_PKEY_keygen_init failed'')
       (bindM (keygen ans pctx) make_evp_key))))"

text \<open>The constructor of \<^verbatim>\<open>EncryptContext\<close>.\<close>

definition EncryptContext_ctor :: "ossl_answers \<Rightarrow> (ossl, nat option) prog" where
  "EncryptContext_ctor ans =
     bindM (bindM (ossl_new ans EVP_CIPHER_CTX) make_evp_cipher_ctx) (\<lambda>ctx.
     on_throw (bindM (ossl_call ans [ctx]) (\<lambda>r. thenM (require (r = 1) '''') (ret ctx))) (EVPCipherCtxDeleter ctx))"

section \<open>HandshakeHash\<close>

definition HandshakeHash_ctor :: "ossl_answers \<Rightarrow> (ossl, nat option) prog" where
  "HandshakeHash_ctor ans = bindM (ossl_new ans EVP_MD_CTX) (\<lambda>ctx. thenM (ossl_call ans [ctx]) (ret ctx))"

definition HandshakeHash_dtor :: "nat option \<Rightarrow> (ossl, unit) prog" where
  "HandshakeHash_dtor ctx = (case ctx of None \<Rightarrow> ret () | Some p \<Rightarrow> ossl_free EVP_MD_CTX p)"

definition HandshakeHash_update_objects :: "ossl_answers \<Rightarrow> nat option \<Rightarrow> (ossl, unit) prog" where
  "HandshakeHash_update_objects ans ctx = thenM (ossl_call ans [ctx]) (ret ())"

definition HandshakeHash_finalize_objects :: "ossl_answers \<Rightarrow> nat option \<Rightarrow> (ossl, unit) prog" where
  "HandshakeHash_finalize_objects ans ctx =
     bindM (ossl_new ans EVP_MD_CTX) (\<lambda>tmp_ctx.
     thenM (ossl_call ans [tmp_ctx, ctx])
     (thenM (ossl_call ans [tmp_ctx])
     (case tmp_ctx of None \<Rightarrow> ret () | Some p \<Rightarrow> ossl_free EVP_MD_CTX p)))"

section \<open>The client\<close>

definition with_client :: "nat \<Rightarrow> (tls_handles \<Rightarrow> (ossl, 'a) prog) \<Rightarrow> (ossl, 'a) prog" where
  "with_client c f = bindM (gets (\<lambda>s. clients s c)) (\<lambda>h. case h of
     None \<Rightarrow> throw (Undefined_behaviour ''no object'') | Some h \<Rightarrow> f h)"

definition set_client :: "nat \<Rightarrow> tls_handles option \<Rightarrow> (ossl, unit) prog" where
  "set_client c h = modify (\<lambda>s. s\<lparr>clients := (clients s)(c := h)\<rparr>)"

text \<open>Steps of a member function that may throw and touch no object of the library.\<close>

definition may_throw :: "ossl_answers \<Rightarrow> string \<Rightarrow> (ossl, unit) prog" where
  "may_throw ans message = bindM (ossl_call ans []) (\<lambda>r. require (r > 0) message)"

text \<open>The members are made first; what the body throws, the random bytes or the connection, destroys them.\<close>

definition Client_ctor :: "ossl_answers \<Rightarrow> nat \<Rightarrow> (ossl, unit) prog" where
  "Client_ctor ans c =
     bindM (HandshakeHash_ctor ans) (\<lambda>hash.
     thenM (on_throw (thenM (may_throw ans ''rand failed'') (may_throw ans ''connect'')) (HandshakeHash_dtor hash))
     (set_client c (Some \<lparr>hash_ptr = hash, enc_ptr = None, dec_ptr = None\<rparr>)))"

definition delete_optional :: "nat option option \<Rightarrow> (ossl, unit) prog" where
  "delete_optional p = (case p of None \<Rightarrow> ret () | Some ptr \<Rightarrow> EVPCipherCtxDeleter ptr)"

definition Client_dtor :: "nat \<Rightarrow> (ossl, unit) prog" where
  "Client_dtor c = with_client c (\<lambda>h.
     thenM (delete_optional (dec_ptr h))
     (thenM (delete_optional (enc_ptr h))
     (thenM (HandshakeHash_dtor (hash_ptr h))
     (set_client c None))))"

text \<open>
  The move constructor is the default one. The contexts in the optionals are moved, which leaves null pointers in the
  source. \<^verbatim>\<open>HandshakeHash\<close> declares a destructor and no move, so its pointer is copied.
\<close>

definition Client_move :: "nat \<Rightarrow> nat \<Rightarrow> (ossl, unit) prog" where
  "Client_move c other = with_client other (\<lambda>h.
     thenM (set_client c (Some h))
     (set_client other (Some (h\<lparr>enc_ptr := map_option (\<lambda>_. None) (enc_ptr h), dec_ptr := map_option (\<lambda>_. None) (dec_ptr h)\<rparr>))))"

definition emplace_enc :: "ossl_answers \<Rightarrow> nat \<Rightarrow> (ossl, unit) prog" where
  "emplace_enc ans c =
     thenM (with_client c (\<lambda>h. thenM (delete_optional (enc_ptr h)) (set_client c (Some (h\<lparr>enc_ptr := None\<rparr>)))))
     (bindM (EncryptContext_ctor ans) (\<lambda>ptr. with_client c (\<lambda>h. set_client c (Some (h\<lparr>enc_ptr := Some ptr\<rparr>)))))"

definition emplace_dec :: "ossl_answers \<Rightarrow> nat \<Rightarrow> (ossl, unit) prog" where
  "emplace_dec ans c =
     thenM (with_client c (\<lambda>h. thenM (delete_optional (dec_ptr h)) (set_client c (Some (h\<lparr>dec_ptr := None\<rparr>)))))
     (bindM (EncryptContext_ctor ans) (\<lambda>ptr. with_client c (\<lambda>h. set_client c (Some (h\<lparr>dec_ptr := Some ptr\<rparr>)))))"

definition hash_update_member :: "ossl_answers \<Rightarrow> nat \<Rightarrow> (ossl, unit) prog" where
  "hash_update_member ans c = with_client c (\<lambda>h. HandshakeHash_update_objects ans (hash_ptr h))"

definition hash_finalize_member :: "ossl_answers \<Rightarrow> nat \<Rightarrow> (ossl, unit) prog" where
  "hash_finalize_member ans c = with_client c (\<lambda>h. HandshakeHash_finalize_objects ans (hash_ptr h))"

text \<open>\<^verbatim>\<open>enc_ctx->\<close> and \<^verbatim>\<open>dec_ctx->\<close> before a call on the context; the calls of \<^verbatim>\<open>encrypt\<close> and \<^verbatim>\<open>decrypt\<close>.\<close>

definition context_call :: "ossl_answers \<Rightarrow> nat option option \<Rightarrow> string \<Rightarrow> (ossl, unit) prog" where
  "context_call ans ctx message = (case ctx of
     None \<Rightarrow> throw (Undefined_behaviour ''empty optional'')
   | Some ptr \<Rightarrow> bindM (ossl_call ans [ptr]) (\<lambda>r. require (r \<noteq> 0) message))"

definition encrypt_objects :: "ossl_answers \<Rightarrow> nat \<Rightarrow> (ossl, unit) prog" where
  "encrypt_objects ans c = foreach (\<lambda>message. with_client c (\<lambda>h. context_call ans (enc_ptr h) message))
     ['''', '''', '''', '''', '''']"

definition decrypt_objects :: "ossl_answers \<Rightarrow> nat \<Rightarrow> (ossl, unit) prog" where
  "decrypt_objects ans c = thenM (may_throw ans ''Ciphertext too small'')
     (foreach (\<lambda>message. with_client c (\<lambda>h. context_call ans (dec_ptr h) message))
       [''Failed to set IV in decryption context'', ''Error: Failed to set AAD'', ''Error: Decryption failed''])"

definition key_exchange_objects :: "ossl_answers \<Rightarrow> nat \<Rightarrow> (ossl, unit) prog" where
  "key_exchange_objects ans c =
     thenM (may_throw ans ''send buffer'')
     (bindM (generate_x25519_key_objects ans) (\<lambda>client_eph_key. scoped EVPKeyDeleter client_eph_key (
       thenM (require_positive ans [client_eph_key] ''Failed to get raw client ephemeral public key'')
       (thenM (may_throw ans '''')
       (bindM (bindM (ossl_new ans EVP_PKEY) make_evp_key) (\<lambda>server_eph_key. scoped EVPKeyDeleter server_eph_key (
         thenM (require (server_eph_key \<noteq> None) ''Failed to create EVP_PKEY from server ephemeral pubkey'')
         (thenM (ossl_use [client_eph_key])
         (bindM (bindM (ossl_new ans EVP_PKEY_CTX) make_evp_key_ctx) (\<lambda>derive_ctx. scoped EVPKeyCtxDeleter derive_ctx (
           thenM (require (derive_ctx \<noteq> None) ''Failed to create derive context'')
           (thenM (require_positive ans [derive_ctx] ''EVP_PKEY_derive_init failed'')
           (thenM (require_positive ans [derive_ctx, server_eph_key] ''EVP_PKEY_derive_set_peer failed'')
           (thenM (require_positive ans [derive_ctx] ''EVP_PKEY_derive failed'')
           (thenM (may_throw ans ''X25519 derived secret size != 32'')
           (thenM (hash_update_member ans c)
           (thenM (hash_finalize_member ans c)
           (thenM (prf_objects ans)
           (thenM (prf_objects ans)
           (thenM (emplace_enc ans c)
           (thenM (emplace_dec ans c)
           (thenM (hash_finalize_member ans c)
           (thenM (prf_objects ans)
           (thenM (may_throw ans ''write stream'')
           (thenM (encrypt_objects ans c)
           (may_throw ans ''send''))))))))))))))))))))))))))"

section \<open>Programs with clients\<close>

datatype client_op = New_client nat | Delete_client nat | Move_client nat nat | Hash_update nat | Key_exchange nat | Encrypt nat | Decrypt nat

fun client_op_prog :: "ossl_answers \<Rightarrow> client_op \<Rightarrow> (ossl, unit) prog" where
  "client_op_prog ans (New_client c) = Client_ctor ans c"
| "client_op_prog ans (Delete_client c) = Client_dtor c"
| "client_op_prog ans (Move_client c other) = Client_move c other"
| "client_op_prog ans (Hash_update c) = hash_update_member ans c"
| "client_op_prog ans (Key_exchange c) = key_exchange_objects ans c"
| "client_op_prog ans (Encrypt c) = encrypt_objects ans c"
| "client_op_prog ans (Decrypt c) = decrypt_objects ans c"

text \<open>A new client has a new name. An operation that throws is a step too: its caller goes on.\<close>

definition new_name :: "ossl \<Rightarrow> client_op \<Rightarrow> bool" where
  "new_name s op = (case op of New_client c \<Rightarrow> clients s c = None | Move_client c other \<Rightarrow> clients s c = None \<and> c \<noteq> other | _ \<Rightarrow> True)"

definition client_step :: "ossl_answers \<Rightarrow> ossl \<Rightarrow> client_op \<Rightarrow> ossl \<Rightarrow> bool" where
  "client_step ans s op t \<longleftrightarrow> new_name s op \<and> snd (client_op_prog ans op s) = t \<and>
     (case fst (client_op_prog ans op s) of Inl e \<Rightarrow> \<not> undefined_behaviour e | Inr _ \<Rightarrow> True)"

definition ossl_start :: ossl where
  "ossl_start = \<lparr>ossl_calls = 0, live = [], clients = (\<lambda>_. None)\<rparr>"

section \<open>The invariant\<close>

datatype slot = Hash_slot | Enc_slot | Dec_slot

fun slot_ptr :: "tls_handles \<Rightarrow> slot \<Rightarrow> nat option" where
  "slot_ptr h Hash_slot = hash_ptr h"
| "slot_ptr h Enc_slot = (case enc_ptr h of None \<Rightarrow> None | Some p \<Rightarrow> p)"
| "slot_ptr h Dec_slot = (case dec_ptr h of None \<Rightarrow> None | Some p \<Rightarrow> p)"

fun slot_kind :: "slot \<Rightarrow> ossl_kind" where
  "slot_kind Hash_slot = EVP_MD_CTX"
| "slot_kind Enc_slot = EVP_CIPHER_CTX"
| "slot_kind Dec_slot = EVP_CIPHER_CTX"

definition holds :: "(nat \<Rightarrow> tls_handles option) \<Rightarrow> nat \<Rightarrow> slot \<Rightarrow> nat \<Rightarrow> bool" where
  "holds cs c x p \<longleftrightarrow> (\<exists>h. cs c = Some h \<and> slot_ptr h x = Some p)"

text \<open>
  Every object that exists is one of the objects \<open>A\<close> that scopes on the stack own, or is held by exactly one member of one
  client; and everything held exists.
\<close>

definition objects_inv :: "(nat \<times> ossl_kind) set \<Rightarrow> ossl \<Rightarrow> bool" where
  "objects_inv A s \<longleftrightarrow> distinct (map fst (live s)) \<and> (\<forall>q \<in> set (live s). fst q < ossl_calls s) \<and> A \<subseteq> set (live s) \<and>
     (\<forall>c x p. holds (clients s) c x p \<longrightarrow> (p, slot_kind x) \<in> set (live s) - A) \<and>
     (\<forall>q \<in> set (live s) - A. \<exists>c x. holds (clients s) c x (fst q)) \<and>
     (\<forall>c x d y p. holds (clients s) c x p \<and> holds (clients s) d y p \<longrightarrow> c = d \<and> x = y)"

text \<open>How an operation may fail: with an exception that leaves the objects in order, or in one of the undefined ways that are
  not about lifetimes.\<close>

definition fails_well :: "(nat \<times> ossl_kind) set \<Rightarrow> error \<Rightarrow> ossl \<Rightarrow> bool" where
  "fails_well A e t \<longleftrightarrow> (if undefined_behaviour e then e \<noteq> double_free \<and> e \<noteq> use_after_free else objects_inv A t)"

lemma wp_scoped [wp_simps]:
  "wp (scoped deleter ptr body) Q E = wp body (\<lambda>a. wp (deleter ptr) (\<lambda>_. Q a) E)
     (\<lambda>e t. if undefined_behaviour e then E e t else wp (deleter ptr) (\<lambda>_. E e) E t)"
  by (auto simp: wp_def scoped_def thenM_def bindM_def ret_def throw_def fun_eq_iff split: prod.splits sum.splits)

lemma wp_on_throw [wp_simps]:
  "wp (on_throw body undo) Q E = wp body Q (\<lambda>e t. if undefined_behaviour e then E e t else wp undo (\<lambda>_. E e) E t)"
  by (auto simp: wp_def on_throw_def thenM_def bindM_def throw_def fun_eq_iff split: prod.splits sum.splits)

lemma fails_well_ub [simp]:
  "fails_well A null_pointer t" "fails_well A (Undefined_behaviour ''no object'') t" "fails_well A (Undefined_behaviour ''empty optional'') t"
  by (simp_all add: fails_well_def null_pointer_def double_free_def use_after_free_def)

lemma fails_well_throw [simp]: "fails_well A (Runtime_error m) t \<longleftrightarrow> objects_inv A t"
  by (simp add: fails_well_def)

lemma objects_inv_calls [simp]: "objects_inv A s \<Longrightarrow> objects_inv A (s\<lparr>ossl_calls := Suc (ossl_calls s)\<rparr>)"
  by (auto simp: objects_inv_def)

lemma wp_ossl_new:
  assumes "objects_inv A s"
    and "\<And>t. objects_inv A t \<Longrightarrow> clients t = clients s \<Longrightarrow> Q None t"
    and "\<And>p t. objects_inv (insert (p, k) A) t \<Longrightarrow> (p, k) \<notin> A \<Longrightarrow> clients t = clients s \<Longrightarrow> Q (Some p) t"
  shows "wp (ossl_new ans k) Q E s"
proof (cases "allocates ans (ossl_calls s)")
  case True
  let ?t = "s\<lparr>ossl_calls := Suc (ossl_calls s), live := (ossl_calls s, k) # live s\<rparr>"
  have n: "(ossl_calls s, x) \<notin> set (live s)" for x using assms(1) by (auto simp: objects_inv_def)
  have "\<not> holds (clients s) c x (ossl_calls s)" for c x using assms(1) n [of "slot_kind x"] by (auto simp: objects_inv_def)
  then have "objects_inv (insert (ossl_calls s, k) A) ?t"
    using assms(1) n by (fastforce simp: objects_inv_def)
  moreover have "(ossl_calls s, k) \<notin> A" using assms(1) n by (auto simp: objects_inv_def)
  ultimately show ?thesis using assms(3) [of "ossl_calls s" ?t] True by (simp add: wp_def ossl_new_def Let_def)
next
  case False
  then show ?thesis using assms(2) [of "s\<lparr>ossl_calls := Suc (ossl_calls s)\<rparr>"] assms(1) by (simp add: wp_def ossl_new_def Let_def)
qed

lemma objects_inv_free:
  assumes "objects_inv A s" and "(p, k) \<in> A"
  shows "objects_inv (A - {(p, k)}) (s\<lparr>live := remove1 (p, k) (live s)\<rparr>)"
proof -
  have d: "distinct (live s)" using assms(1) distinct_map by (auto simp: objects_inv_def)
  have "distinct (map fst (remove1 (p, k) (live s)))"
    using assms(1) by (simp add: objects_inv_def distinct_map inj_on_def set_remove1_eq [OF d] d)
  moreover have "set (remove1 (p, k) (live s)) - (A - {(p, k)}) = set (live s) - A"
    using assms(2) by (auto simp: set_remove1_eq [OF d])
  moreover have "A - {(p, k)} \<subseteq> set (remove1 (p, k) (live s))" "\<forall>q \<in> set (remove1 (p, k) (live s)). fst q < ossl_calls s"
    using assms(1) by (auto simp: objects_inv_def set_remove1_eq [OF d])
  ultimately show ?thesis using assms(1) by (simp add: objects_inv_def)
qed

lemma wp_ossl_free:
  assumes "objects_inv A s" and "(p, k) \<in> A"
    and "\<And>t. objects_inv (A - {(p, k)}) t \<Longrightarrow> clients t = clients s \<Longrightarrow> Q () t"
  shows "wp (ossl_free k p) Q E s"
proof -
  have "(p, k) \<in> set (live s)" using assms(1,2) by (auto simp: objects_inv_def)
  then show ?thesis using assms(3) [OF objects_inv_free [OF assms(1,2)]] by (simp add: ossl_free_def wp_simps)
qed

lemma wp_ossl_use:
  assumes "objects_inv A s" and "\<And>p. Some p \<in> set ptrs \<Longrightarrow> p \<in> fst ` A \<or> (\<exists>c x. holds (clients s) c x p)"
    and "Q () s"
  shows "wp (ossl_use ptrs) Q (fails_well B) s"
proof -
  have "set ptrs \<subseteq> Some ` fst ` set (live s)" if "None \<notin> set ptrs"
  proof
    fix q assume q: "q \<in> set ptrs"
    then have "q \<noteq> None" using that by (intro notI) simp
    then obtain p where p: "q = Some p" by blast
    from assms(2) [OF q [unfolded p]] show "q \<in> Some ` fst ` set (live s)"
    proof
      assume "p \<in> fst ` A"
      then show ?thesis using assms(1) by (auto simp: p objects_inv_def)
    next
      assume "\<exists>c x. holds (clients s) c x p"
      then obtain c x where "holds (clients s) c x p" by blast
      then have "(p, slot_kind x) \<in> set (live s)" using assms(1) by (auto simp: objects_inv_def)
      then show ?thesis by (force simp: p)
    qed
  qed
  then show ?thesis using assms(3) by (auto simp: ossl_use_def wp_simps)
qed

lemma wp_ossl_call:
  assumes "objects_inv A s" and "\<And>p. Some p \<in> set ptrs \<Longrightarrow> p \<in> fst ` A \<or> (\<exists>c x. holds (clients s) c x p)"
    and "\<And>r t. objects_inv A t \<Longrightarrow> clients t = clients s \<Longrightarrow> Q r t"
  shows "wp (ossl_call ans ptrs) Q (fails_well B) s"
  unfolding ossl_call_def wp_thenM
  by (rule wp_ossl_use [OF assms(1,2)]) (use assms(1,3) in \<open>auto simp: wp_def\<close>)

section \<open>Operations that keep the objects in order\<close>

definition tidy :: "(nat \<times> ossl_kind) set \<Rightarrow> (ossl, 'a) prog \<Rightarrow> bool" where
  "tidy A m \<longleftrightarrow> (\<forall>s. objects_inv A s \<longrightarrow> wp m (\<lambda>_. objects_inv A) (fails_well A) s)"

named_theorems tidy_intros \<open>programs that leave the objects in order\<close>

lemma tidyI: "(\<And>s. objects_inv A s \<Longrightarrow> wp m (\<lambda>_. objects_inv A) (fails_well A) s) \<Longrightarrow> tidy A m"
  by (simp add: tidy_def)

lemma tidyD: "tidy A m \<Longrightarrow> objects_inv A s \<Longrightarrow> wp m (\<lambda>_. objects_inv A) (fails_well A) s"
  by (simp add: tidy_def)

lemma tidy_ret [tidy_intros]: "tidy A (ret a)"
  by (simp add: tidy_def wp_simps)

lemma tidy_require [tidy_intros]: "tidy A (require b m)"
  by (simp add: tidy_def wp_simps)

lemma tidy_bindM [tidy_intros]: "tidy A m \<Longrightarrow> (\<And>a. tidy A (f a)) \<Longrightarrow> tidy A (bindM m f)"
  unfolding tidy_def wp_bindM by (blast intro: wp_mono)

lemma tidy_thenM [tidy_intros]: "tidy A m \<Longrightarrow> tidy A n \<Longrightarrow> tidy A (thenM m n)"
  unfolding thenM_def by (intro tidy_bindM)

lemma tidy_foreach [tidy_intros]: "(\<And>x. tidy A (f x)) \<Longrightarrow> tidy A (foreach f xs)"
  by (induction xs) (auto intro: tidy_intros)

lemma tidy_ossl_use [tidy_intros]: "(\<And>p. Some p \<in> set ptrs \<Longrightarrow> p \<in> fst ` A) \<Longrightarrow> tidy A (ossl_use ptrs)"
  by (intro tidyI wp_ossl_use) auto

lemma tidy_ossl_call [tidy_intros]: "(\<And>p. Some p \<in> set ptrs \<Longrightarrow> p \<in> fst ` A) \<Longrightarrow> tidy A (ossl_call ans ptrs)"
  by (intro tidyI wp_ossl_call) auto

lemma tidy_require_positive [tidy_intros]: "(\<And>p. Some p \<in> set ptrs \<Longrightarrow> p \<in> fst ` A) \<Longrightarrow> tidy A (require_positive ans ptrs m)"
  unfolding require_positive_def by (intro tidy_intros)

lemma tidy_may_throw [tidy_intros]: "tidy A (may_throw ans m)"
  unfolding may_throw_def by (intro tidy_intros) simp

text \<open>An object of a scope: the body has it beside the objects that were there, and the scope frees it on every way out.\<close>

lemma wp_scope:
  assumes "wp body (\<lambda>a t. objects_inv (insert (p, k) (B a)) t \<and> (p, k) \<notin> B a \<and> P a) (fails_well (insert (p, k) A)) s" and "(p, k) \<notin> A"
    and del: "\<And>q. deleter (Some q) = ossl_free k q" and "\<And>a t. objects_inv (B a) t \<Longrightarrow> P a \<Longrightarrow> Q a t"
  shows "wp (scoped deleter (Some p) body) Q (fails_well A) s"
proof -
  have free: "wp (deleter (Some p)) R E t" if "objects_inv (insert (p, k) C) t" "(p, k) \<notin> C" "\<And>u. objects_inv C u \<Longrightarrow> R () u" for C R E t
    unfolding del by (rule wp_ossl_free [OF that(1)]) (use that(2,3) in auto)
  show ?thesis
    unfolding wp_scoped
  proof (rule wp_mono [OF assms(1)])
    fix a t assume "objects_inv (insert (p, k) (B a)) t \<and> (p, k) \<notin> B a \<and> P a"
    then show "wp (deleter (Some p)) (\<lambda>_. Q a) (fails_well A) t" using assms(4) by (intro free [where C = "B a"]) auto
  next
    fix e t assume f: "fails_well (insert (p, k) A) e t"
    show "if undefined_behaviour e then fails_well A e t else wp (deleter (Some p)) (\<lambda>_. fails_well A e) (fails_well A) t"
      using f assms(2) by (auto simp: fails_well_def intro!: free [where C = A])
  qed
qed

lemma make_results:
  "make_evp_key None = throw (Runtime_error ''Failed to extract public key from certificate'')" "make_evp_key (Some p) = ret (Some p)"
  "make_evp_key_ctx None = throw (Runtime_error ''nullptr'')" "make_evp_key_ctx (Some p) = ret (Some p)"
  "make_evp_cipher_ctx None = throw (Runtime_error ''nullptr'')" "make_evp_cipher_ctx (Some p) = ret (Some p)"
  by (auto simp: make_evp_key_def make_evp_key_ctx_def make_evp_cipher_ctx_def prog_defs)

lemmas deleter_simps = EVPKeyDeleter_def EVPKeyCtxDeleter_def EVPCipherCtxDeleter_def HandshakeHash_dtor_def

lemma tidy_scoped_new:
  assumes "\<And>q. deleter (Some q) = ossl_free k q" and "\<And>q. mk (Some q) = ret (Some q)" and "mk None = throw (Runtime_error m)"
    and "\<And>p. (p, k) \<notin> A \<Longrightarrow> tidy (insert (p, k) A) (body (Some p))"
  shows "tidy A (bindM (bindM (ossl_new ans k) mk) (\<lambda>p. scoped deleter p (body p)))"
proof (rule tidyI)
  fix s assume s: "objects_inv A s"
  show "wp (bindM (bindM (ossl_new ans k) mk) (\<lambda>p. scoped deleter p (body p))) (\<lambda>_. objects_inv A) (fails_well A) s"
    unfolding wp_bindM
  proof (rule wp_ossl_new [OF s], goal_cases)
    case (1 t)
    then show ?case by (simp add: assms(3) wp_simps)
  next
    case (2 p t)
    show ?case unfolding assms(2) wp_ret
      by (rule wp_scope [where B = "\<lambda>_. A" and P = "\<lambda>_. True"], rule wp_mono [OF tidyD [OF assms(4) [OF 2(2)] 2(1)]]) (use 2(2) assms(1) in auto)
  qed
qed

lemmas tidy_key_ctx [tidy_intros] = tidy_scoped_new [OF EVPKeyCtxDeleter_def [THEN trans, OF option.case(2)] make_results(4,3)]
lemmas tidy_key [tidy_intros] = tidy_scoped_new [OF EVPKeyDeleter_def [THEN trans, OF option.case(2)] make_results(2,1)]

lemma tidy_prf [tidy_intros]: "tidy A (prf_objects ans)"
  unfolding prf_objects_def by (intro tidy_intros) auto

text \<open>The generated key outlives the function that made it.\<close>

lemma wp_generate_key:
  assumes "objects_inv A s" and "\<And>p t. objects_inv (insert (p, EVP_PKEY) A) t \<Longrightarrow> (p, EVP_PKEY) \<notin> A \<Longrightarrow> Q (Some p) t"
  shows "wp (generate_x25519_key_objects ans) Q (fails_well A) s"
  unfolding generate_x25519_key_objects_def wp_bindM
proof (rule wp_ossl_new [OF assms(1)], goal_cases)
  case (1 t)
  then show ?case by (simp add: make_results wp_simps)
next
  case (2 q t)
  let ?A = "insert (q, EVP_PKEY_CTX) A"
  have body: "wp (bindM (keygen ans (Some q)) make_evp_key)
      (\<lambda>a u. \<exists>p. a = Some p \<and> objects_inv (insert (p, EVP_PKEY) ?A) u \<and> (p, EVP_PKEY) \<notin> ?A) (fails_well ?A) u" if u: "objects_inv ?A u" for u
    unfolding keygen_def wp_simps
  proof (rule wp_ossl_call [OF u], goal_cases)
    case (2 r v)
    then show ?case
      by (auto simp: wp_simps) (rule wp_ossl_new, auto simp: make_results wp_simps)
  qed simp
  have run: "wp (thenM (require (Some q \<noteq> None) ''EVP_PKEY_CTX_new_id failed'')
      (thenM (require_positive ans [Some q] ''EVP_PKEY_keygen_init failed'') (bindM (keygen ans (Some q)) make_evp_key)))
      (\<lambda>a u. \<exists>p. a = Some p \<and> objects_inv (insert (p, EVP_PKEY) ?A) u \<and> (p, EVP_PKEY) \<notin> ?A) (fails_well ?A) t"
    unfolding wp_thenM wp_require
    by simp (rule wp_mono [OF tidyD [OF tidy_require_positive 2(1)]], use body in auto)
  show ?case
    unfolding make_results wp_ret
    by (rule wp_scope [where B = "\<lambda>a. insert (the a, EVP_PKEY) A" and P = "\<lambda>a. a \<noteq> None \<and> (the a, EVP_PKEY) \<notin> A", OF wp_mono [OF run]])
       (use 2(2) assms(2) in \<open>auto simp: insert_commute EVPKeyCtxDeleter_def\<close>)
qed

lemma tidy_with_key [tidy_intros]:
  assumes "\<And>p. (p, EVP_PKEY) \<notin> A \<Longrightarrow> tidy (insert (p, EVP_PKEY) A) (body (Some p))"
  shows "tidy A (bindM (generate_x25519_key_objects ans) (\<lambda>key. scoped EVPKeyDeleter key (body key)))"
proof (rule tidyI)
  fix s assume s: "objects_inv A s"
  show "wp (bindM (generate_x25519_key_objects ans) (\<lambda>key. scoped EVPKeyDeleter key (body key))) (\<lambda>_. objects_inv A) (fails_well A) s"
    unfolding wp_bindM
  proof (rule wp_generate_key [OF s])
    fix p t assume t: "objects_inv (insert (p, EVP_PKEY) A) t" "(p, EVP_PKEY) \<notin> A"
    show "wp (scoped EVPKeyDeleter (Some p) (body (Some p))) (\<lambda>_. objects_inv A) (fails_well A) t"
      by (rule wp_scope [where B = "\<lambda>_. A" and P = "\<lambda>_. True"], rule wp_mono [OF tidyD [OF assms [OF t(2)] t(1)]])
         (use t(2) in \<open>auto simp: EVPKeyDeleter_def\<close>)
  qed
qed

section \<open>The members of a client\<close>

lemma wp_with_client [wp_simps]:
  "wp (with_client c f) Q E s = (case clients s c of None \<Rightarrow> E (Undefined_behaviour ''no object'') s | Some h \<Rightarrow> wp (f h) Q E s)"
  by (simp add: with_client_def wp_simps split: option.splits)

lemma wp_set_client [wp_simps]: "wp (set_client c h) Q E s = Q () (s\<lparr>clients := (clients s)(c := h)\<rparr>)"
  by (simp add: set_client_def wp_simps)

lemma holds_slot: "clients s c = Some h \<Longrightarrow> Some p = slot_ptr h x \<Longrightarrow> holds (clients s) c x p"
  by (metis holds_def)

lemma holds_hash: "clients s c = Some h \<Longrightarrow> Some p = hash_ptr h \<Longrightarrow> \<exists>c x. holds (clients s) c x p"
  using holds_slot [where x = Hash_slot] by fastforce

lemma tidy_hash_update [tidy_intros]: "tidy A (hash_update_member ans c)"
proof (rule tidyI)
  fix s assume s: "objects_inv A s"
  then show "wp (hash_update_member ans c) (\<lambda>_. objects_inv A) (fails_well A) s"
    unfolding hash_update_member_def HandshakeHash_update_objects_def wp_with_client wp_thenM
    by (auto simp: wp_simps split: option.split intro!: wp_ossl_call [OF s] dest: holds_hash)
qed

lemma tidy_hash_finalize [tidy_intros]: "tidy A (hash_finalize_member ans c)"
proof (rule tidyI)
  fix s assume s: "objects_inv A s"
  have run: "wp (HandshakeHash_finalize_objects ans (hash_ptr h)) (\<lambda>_. objects_inv A) (fails_well A) s" if h: "clients s c = Some h" for h
    unfolding HandshakeHash_finalize_objects_def wp_bindM
  proof (rule wp_ossl_new [OF s], goal_cases)
    case (1 t)
    then show ?case by (simp add: wp_simps ossl_call_def ossl_use_def)
  next
    case (2 p t)
    have held: "\<exists>c x. holds (clients t) c x q" if "Some q = hash_ptr h" for q using h 2(3) that by (intro holds_hash) auto
    show ?case
      unfolding wp_thenM option.case
    proof (rule wp_ossl_call [OF 2(1)], goal_cases)
      case (1 q)
      then show ?case using held by auto
    next
      case (2 r u)
      show ?case by (rule wp_ossl_call [OF 2(1)]) (use \<open>(p, EVP_MD_CTX) \<notin> A\<close> in \<open>auto intro!: wp_ossl_free\<close>)
    qed
  qed
  then show "wp (hash_finalize_member ans c) (\<lambda>_. objects_inv A) (fails_well A) s"
    by (auto simp: hash_finalize_member_def wp_with_client split: option.split)
qed

lemma tidy_context_call:
  assumes "\<And>h. (case ctx h of None \<Rightarrow> None | Some p \<Rightarrow> p) = slot_ptr h x"
  shows "tidy A (with_client c (\<lambda>h. context_call ans (ctx h) m))"
proof (rule tidyI)
  fix s assume s: "objects_inv A s"
  have "wp (context_call ans (ctx h) m) (\<lambda>_. objects_inv A) (fails_well A) s" if h: "clients s c = Some h" for h
    using assms [of h] holds_slot [OF h, of _ x]
    by (auto simp: context_call_def wp_simps split: option.splits intro!: wp_ossl_call [OF s]) blast
  then show "wp (with_client c (\<lambda>h. context_call ans (ctx h) m)) (\<lambda>_. objects_inv A) (fails_well A) s"
    by (auto simp: wp_with_client split: option.split)
qed

lemma tidy_encrypt [tidy_intros]: "tidy A (encrypt_objects ans c)"
  unfolding encrypt_objects_def by (intro tidy_intros tidy_context_call [where x = Enc_slot]) simp

lemma tidy_decrypt [tidy_intros]: "tidy A (decrypt_objects ans c)"
  unfolding decrypt_objects_def by (intro tidy_intros tidy_context_call [where x = Dec_slot]) simp

section \<open>Objects that pass to a client and back\<close>

text \<open>A change of one client that is about one member only.\<close>

definition changes_slot :: "slot \<Rightarrow> tls_handles \<Rightarrow> tls_handles \<Rightarrow> bool" where
  "changes_slot x h h' \<longleftrightarrow> (\<forall>y. y \<noteq> x \<longrightarrow> slot_ptr h' y = slot_ptr h y)"

lemma objects_invD:
  assumes "objects_inv A s"
  shows "holds (clients s) c x p \<Longrightarrow> (p, slot_kind x) \<in> set (live s)" and "holds (clients s) c x p \<Longrightarrow> (p, slot_kind x) \<notin> A"
    and "q \<in> set (live s) \<Longrightarrow> q \<notin> A \<Longrightarrow> \<exists>c x. holds (clients s) c x (fst q)"
    and "holds (clients s) c x p \<Longrightarrow> holds (clients s) d y p \<Longrightarrow> c = d \<and> x = y"
    and "q \<in> A \<Longrightarrow> q \<in> set (live s)"
  using assms unfolding objects_inv_def by blast+

text \<open>A change of the clients and of the objects of the scopes that leaves the library's objects alone.\<close>

lemma objects_inv_clientsI:
  assumes "objects_inv A s" and "B \<subseteq> set (live s)"
    and "\<And>c x p. holds cs c x p \<Longrightarrow> (p, slot_kind x) \<in> set (live s) \<and> (p, slot_kind x) \<notin> B"
    and "\<And>q. q \<in> set (live s) \<Longrightarrow> q \<notin> B \<Longrightarrow> \<exists>c x. holds cs c x (fst q)"
    and "\<And>c x d y p. holds cs c x p \<Longrightarrow> holds cs d y p \<Longrightarrow> c = d \<and> x = y"
  shows "objects_inv B (s\<lparr>clients := cs\<rparr>)"
proof -
  have "\<forall>c x d y p. holds cs c x p \<and> holds cs d y p \<longrightarrow> c = d \<and> x = y" using assms(5) by (intro allI impI) (elim conjE)
  then show ?thesis using assms(1-4) unfolding objects_inv_def by simp
qed

lemma one_kind: "objects_inv A s \<Longrightarrow> (p, k) \<in> set (live s) \<Longrightarrow> (p, k') \<in> set (live s) \<Longrightarrow> k = k'"
  using inj_onD [of fst "set (live s)" "(p, k)" "(p, k')"] by (simp add: objects_inv_def distinct_map)

lemma holds_update:
  "holds (cs(c := h')) d y p \<longleftrightarrow> (if d = c then (\<exists>h. h' = Some h \<and> slot_ptr h y = Some p) else holds cs d y p)"
  by (simp add: holds_def)

lemma adopt:
  assumes "objects_inv (insert (p, slot_kind x) A) s" and "(p, slot_kind x) \<notin> A" and "clients s c = Some h"
    and "slot_ptr h x = None" and "slot_ptr h' x = Some p" and "changes_slot x h h'"
  shows "objects_inv A (s\<lparr>clients := (clients s)(c \<mapsto> h')\<rparr>)"
proof -
  note D = objects_invD [OF assms(1)]
  have new: "holds ((clients s)(c \<mapsto> h')) d y q \<longleftrightarrow> holds (clients s) d y q \<or> d = c \<and> y = x \<and> q = p" for d y q
    using assms(3-6) by (cases "y = x") (auto simp: holds_update holds_def changes_slot_def)
  have p: "(p, slot_kind x) \<in> set (live s)" by (rule D(5)) simp
  have none: "\<not> holds (clients s) d y p" for d y
    using D(1) [of d y p] D(2) [of d y p] one_kind [OF assms(1) p, of "slot_kind y"] by auto
  show ?thesis
  proof (rule objects_inv_clientsI [OF assms(1)])
    show "A \<subseteq> set (live s)" using D(5) by auto
    fix d y q assume "holds ((clients s)(c \<mapsto> h')) d y q"
    then show "(q, slot_kind y) \<in> set (live s) \<and> (q, slot_kind y) \<notin> A"
      using D(1,2) [of d y q] p assms(2) by (auto simp: new)
  next
    fix q assume "q \<in> set (live s)" "q \<notin> A"
    then show "\<exists>d y. holds ((clients s)(c \<mapsto> h')) d y (fst q)"
      using D(3) [of q] unfolding new by (cases "q = (p, slot_kind x)") auto
  next
    fix d y e z q assume "holds ((clients s)(c \<mapsto> h')) d y q" "holds ((clients s)(c \<mapsto> h')) e z q"
    then show "d = e \<and> y = z" using D(4) [of d y q e z] none unfolding new by blast
  qed
qed

lemma disown_slot:
  assumes "objects_inv A s" and "clients s c = Some h" and "slot_ptr h x = Some p" and "slot_ptr h' x = None" and "changes_slot x h h'"
  shows "objects_inv (insert (p, slot_kind x) A) (s\<lparr>clients := (clients s)(c \<mapsto> h')\<rparr>)" and "(p, slot_kind x) \<notin> A"
proof -
  note D = objects_invD [OF assms(1)]
  have held: "holds (clients s) c x p" using assms(2,3) by (simp add: holds_def)
  then show "(p, slot_kind x) \<notin> A" by (rule D(2))
  have live: "(p, slot_kind x) \<in> set (live s)" using held by (rule D(1))
  have new: "holds ((clients s)(c \<mapsto> h')) d y q \<longleftrightarrow> holds (clients s) d y q \<and> (d, y) \<noteq> (c, x)" for d y q
    using assms(2,4,5) by (cases "y = x") (auto simp: holds_update holds_def changes_slot_def)
  have only: "holds (clients s) c x q \<Longrightarrow> q = p" for q using assms(2,3) by (simp add: holds_def)
  show "objects_inv (insert (p, slot_kind x) A) (s\<lparr>clients := (clients s)(c \<mapsto> h')\<rparr>)"
  proof (rule objects_inv_clientsI [OF assms(1)])
    show "insert (p, slot_kind x) A \<subseteq> set (live s)" using live D(5) by auto
    fix d y q assume "holds ((clients s)(c \<mapsto> h')) d y q"
    then have dy: "holds (clients s) d y q" "(d, y) \<noteq> (c, x)" by (simp_all add: new)
    then have "q \<noteq> p" using D(4) [OF held, of d y] by auto
    then show "(q, slot_kind y) \<in> set (live s) \<and> (q, slot_kind y) \<notin> insert (p, slot_kind x) A"
      using D(1,2) [OF dy(1)] by simp
  next
    fix q assume q: "q \<in> set (live s)" "q \<notin> insert (p, slot_kind x) A"
    then obtain d y where dy: "holds (clients s) d y (fst q)" using D(3) by blast
    have "fst q \<noteq> p" using one_kind [OF assms(1) live, of "snd q"] q by (metis insertI1 prod.collapse)
    then have "(d, y) \<noteq> (c, x)" using only dy by auto
    with dy show "\<exists>d y. holds ((clients s)(c \<mapsto> h')) d y (fst q)" unfolding new by blast
  next
    fix d y e z q assume "holds ((clients s)(c \<mapsto> h')) d y q" "holds ((clients s)(c \<mapsto> h')) e z q"
    then show "d = e \<and> y = z" using D(4) [of d y q e z] unfolding new by blast
  qed
qed

lemma same_slots:
  assumes "objects_inv A s" and "clients s c = Some h" and "\<And>y. slot_ptr h' y = slot_ptr h y"
  shows "objects_inv A (s\<lparr>clients := (clients s)(c \<mapsto> h')\<rparr>)"
proof -
  have "holds ((clients s)(c \<mapsto> h')) d y q \<longleftrightarrow> holds (clients s) d y q" for d y q
    using assms(2,3) by (auto simp: holds_update holds_def)
  then show ?thesis using assms(1) by (simp add: objects_inv_def)
qed

lemma no_slots:
  assumes "objects_inv A s" and "\<And>h y. clients s c = Some h \<Longrightarrow> slot_ptr h y = None"
    and "h' = None \<or> (\<exists>g. h' = Some g \<and> (\<forall>y. slot_ptr g y = None))"
  shows "objects_inv A (s\<lparr>clients := (clients s)(c := h')\<rparr>)"
proof -
  have "holds ((clients s)(c := h')) d y q \<longleftrightarrow> holds (clients s) d y q" for d y q
    using assms(2,3) by (auto simp: holds_update holds_def)
  then show ?thesis using assms(1) by (simp add: objects_inv_def)
qed

text \<open>Deleting the object of a member and forgetting it.\<close>

lemma wp_delete_member:
  assumes "objects_inv A s" and "clients s c = Some h" and "slot_ptr h' x = None" and "changes_slot x h h'"
    and del: "deleter = (case slot_ptr h x of None \<Rightarrow> ret () | Some p \<Rightarrow> ossl_free (slot_kind x) p)"
    and "\<And>t. objects_inv A t \<Longrightarrow> clients t = (clients s)(c \<mapsto> h') \<Longrightarrow> Q () t"
  shows "wp deleter (\<lambda>_ t. Q () (t\<lparr>clients := (clients s)(c \<mapsto> h')\<rparr>)) E s"
proof (cases "slot_ptr h x")
  case None
  have "slot_ptr h' y = slot_ptr h y" for y using assms(3,4) None by (cases "y = x") (auto simp: changes_slot_def)
  then have "objects_inv A (s\<lparr>clients := (clients s)(c \<mapsto> h')\<rparr>)" by (rule same_slots [OF assms(1,2)])
  then show ?thesis using assms(6) by (simp add: del None wp_simps)
next
  case (Some p)
  let ?s = "s\<lparr>clients := (clients s)(c \<mapsto> h')\<rparr>"
  note d = disown_slot [OF assms(1,2) Some assms(3,4)]
  have "objects_inv A (?s\<lparr>live := remove1 (p, slot_kind x) (live ?s)\<rparr>)"
    using objects_inv_free [OF d(1), of p "slot_kind x"] d(2) by simp
  moreover have "(p, slot_kind x) \<in> set (live s)" using d(1) by (auto simp: objects_inv_def)
  moreover have "?s\<lparr>live := l\<rparr> = s\<lparr>live := l, clients := (clients s)(c \<mapsto> h')\<rparr>" for l by simp
  ultimately have "objects_inv A (s\<lparr>live := remove1 (p, slot_kind x) (live s), clients := (clients s)(c \<mapsto> h')\<rparr>)"
    "(p, slot_kind x) \<in> set (live s)" by (metis ossl.select_convs(2) ossl.surjective ossl.update_convs(3), simp)
  then show ?thesis using assms(6) by (simp add: del Some ossl_free_def wp_simps)
qed

text \<open>An object made by a constructor whose rest throws is destroyed.\<close>

lemma wp_on_throw_new:
  assumes "wp body (\<lambda>a t. objects_inv (insert (p, k) A) t \<and> R a t) (fails_well (insert (p, k) A)) s" and "(p, k) \<notin> A"
    and "undo = ossl_free k p" and "\<And>a t. objects_inv (insert (p, k) A) t \<Longrightarrow> R a t \<Longrightarrow> Q a t"
  shows "wp (on_throw body undo) Q (fails_well A) s"
  unfolding wp_on_throw
proof (rule wp_mono [OF assms(1)])
  fix e t assume "fails_well (insert (p, k) A) e t"
  then show "if undefined_behaviour e then fails_well A e t else wp undo (\<lambda>_. fails_well A e) (fails_well A) t"
    using assms(2,3) by (auto simp: fails_well_def intro!: wp_ossl_free)
qed (use assms(4) in auto)

lemma wp_EncryptContext_ctor:
  assumes "objects_inv A s"
    and "\<And>p t. objects_inv (insert (p, EVP_CIPHER_CTX) A) t \<Longrightarrow> (p, EVP_CIPHER_CTX) \<notin> A \<Longrightarrow> clients t = clients s \<Longrightarrow> Q (Some p) t"
  shows "wp (EncryptContext_ctor ans) Q (fails_well A) s"
  unfolding EncryptContext_ctor_def wp_bindM
proof (rule wp_ossl_new [OF assms(1)], goal_cases)
  case (1 t)
  then show ?case by (simp add: make_results wp_simps)
next
  case (2 p t)
  have "wp (bindM (ossl_call ans [Some p]) (\<lambda>r. thenM (require (r = 1) '''') (ret (Some p))))
      (\<lambda>a u. objects_inv (insert (p, EVP_CIPHER_CTX) A) u \<and> a = Some p \<and> clients u = clients s)
      (fails_well (insert (p, EVP_CIPHER_CTX) A)) t"
    unfolding wp_bindM by (rule wp_ossl_call [OF 2(1)]) (use 2(3) in \<open>auto simp: wp_simps\<close>)
  then show ?case
    unfolding make_results wp_ret
    by (rule wp_on_throw_new) (use 2(2) assms(2) in \<open>auto simp: EVPCipherCtxDeleter_def\<close>)
qed

lemma tidy_emplace:
  assumes upd: "\<And>h v y. slot_ptr (upd v h) y = (if y = x then (case v of None \<Rightarrow> None | Some p \<Rightarrow> p) else slot_ptr h y)"
    and old: "\<And>h. delete_optional (old h) = (case slot_ptr h x of None \<Rightarrow> ret () | Some p \<Rightarrow> ossl_free (slot_kind x) p)"
    and kind: "slot_kind x = EVP_CIPHER_CTX"
  shows "tidy A (thenM (with_client c (\<lambda>h. thenM (delete_optional (old h)) (set_client c (Some (upd None h)))))
     (bindM (EncryptContext_ctor ans) (\<lambda>ptr. with_client c (\<lambda>h. set_client c (Some (upd (Some ptr) h))))))"
proof (rule tidyI)
  fix s assume s: "objects_inv A s"
  let ?new = "bindM (EncryptContext_ctor ans) (\<lambda>ptr. with_client c (\<lambda>h. set_client c (Some (upd (Some ptr) h))))"
  have new: "wp ?new (\<lambda>_. objects_inv A) (fails_well A) t" if t: "objects_inv A t" "clients t c = Some (upd None h)" for t h
    unfolding wp_bindM
  proof (rule wp_EncryptContext_ctor [OF t(1)])
    fix p u assume u: "objects_inv (insert (p, EVP_CIPHER_CTX) A) u" "(p, EVP_CIPHER_CTX) \<notin> A" "clients u = clients t"
    have "objects_inv A (u\<lparr>clients := (clients u)(c \<mapsto> upd (Some (Some p)) (upd None h))\<rparr>)"
      by (rule adopt [of p x]) (use u t(2) kind upd in \<open>auto simp: changes_slot_def\<close>)
    then show "wp (with_client c (\<lambda>h. set_client c (Some (upd (Some (Some p)) h)))) (\<lambda>_. objects_inv A) (fails_well A) u"
      using t(2) u(3) by (simp add: wp_simps)
  qed
  have "wp (delete_optional (old h)) (\<lambda>_ t. wp ?new (\<lambda>_. objects_inv A) (fails_well A) (t\<lparr>clients := (clients s)(c \<mapsto> upd None h)\<rparr>))
      (fails_well A) s" if h: "clients s c = Some h" for h
    unfolding old
    by (rule wp_delete_member [OF s h, where h' = "upd None h" and x = x and Q = "\<lambda>_. wp ?new (\<lambda>_. objects_inv A) (fails_well A)"])
       (use upd new in \<open>auto simp: changes_slot_def\<close>)
  moreover have "clients t = clients s" if "delete_optional (old h) s = (r, t)" for h r t
    using that by (auto simp: old ossl_free_def prog_defs split: option.splits if_splits)
  ultimately show "wp (thenM (with_client c (\<lambda>h. thenM (delete_optional (old h)) (set_client c (Some (upd None h))))) ?new)
      (\<lambda>_. objects_inv A) (fails_well A) s"
    by (auto simp: wp_thenM wp_with_client wp_set_client wp_def [of "delete_optional _"] split: option.splits prod.splits sum.splits)
qed

lemma tidy_emplace_enc [tidy_intros]: "tidy A (emplace_enc ans c)"
  unfolding emplace_enc_def
proof (rule tidy_emplace [where upd = "\<lambda>v h. h\<lparr>enc_ptr := v\<rparr>" and old = enc_ptr and x = Enc_slot])
  show "slot_ptr (h\<lparr>enc_ptr := v\<rparr>) y = (if y = Enc_slot then (case v of None \<Rightarrow> None | Some p \<Rightarrow> p) else slot_ptr h y)" for h v y
    by (cases y) auto
qed (auto simp: delete_optional_def EVPCipherCtxDeleter_def split: option.splits)

lemma tidy_emplace_dec [tidy_intros]: "tidy A (emplace_dec ans c)"
  unfolding emplace_dec_def
proof (rule tidy_emplace [where upd = "\<lambda>v h. h\<lparr>dec_ptr := v\<rparr>" and old = dec_ptr and x = Dec_slot])
  show "slot_ptr (h\<lparr>dec_ptr := v\<rparr>) y = (if y = Dec_slot then (case v of None \<Rightarrow> None | Some p \<Rightarrow> p) else slot_ptr h y)" for h v y
    by (cases y) auto
qed (auto simp: delete_optional_def EVPCipherCtxDeleter_def split: option.splits)

lemma tidy_key_exchange [tidy_intros]: "tidy A (key_exchange_objects ans c)"
  unfolding key_exchange_objects_def by (intro tidy_intros) auto

lemma wp_Client_ctor:
  assumes s: "objects_inv A s" and new: "clients s c = None"
  shows "wp (Client_ctor ans c) (\<lambda>_. objects_inv A) (fails_well A) s"
  unfolding Client_ctor_def HandshakeHash_ctor_def wp_bindM
proof (rule wp_ossl_new [OF s], goal_cases)
  case (1 t)
  then show ?case by (simp add: ossl_call_def ossl_use_def wp_simps)
next
  case (2 p t)
  note p = 2(2)
  let ?A = "insert (p, EVP_MD_CTX) A"
  have body: "wp (thenM (may_throw ans ''rand failed'') (may_throw ans ''connect''))
      (\<lambda>_ u. objects_inv ?A u \<and> clients u = clients s) (fails_well ?A) u" if u: "objects_inv ?A u" "clients u = clients s" for u
    unfolding may_throw_def wp_thenM wp_bindM
    by (rule wp_ossl_call [OF u(1)]) (auto simp: wp_simps u(2) intro!: wp_ossl_call)
  have owned: "objects_inv A (u\<lparr>clients := (clients u)(c \<mapsto> \<lparr>hash_ptr = Some p, enc_ptr = None, dec_ptr = None\<rparr>)\<rparr>)"
    if u: "objects_inv ?A u" "clients u = clients s" for u
  proof -
    let ?h = "\<lparr>hash_ptr = None, enc_ptr = None, dec_ptr = None\<rparr>" and ?h' = "\<lparr>hash_ptr = Some p, enc_ptr = None, dec_ptr = None\<rparr>"
    have empty: "slot_ptr ?h y = None" for y by (cases y) auto
    have e: "objects_inv ?A (u\<lparr>clients := (clients u)(c \<mapsto> ?h)\<rparr>)"
      by (rule no_slots [OF u(1)]) (use u(2) new empty in auto)
    have "slot_ptr ?h' y = slot_ptr ?h y" if "y \<noteq> Hash_slot" for y using that by (cases y) auto
    then have "changes_slot Hash_slot ?h ?h'" by (simp add: changes_slot_def)
    then show ?thesis using adopt [of p Hash_slot A "u\<lparr>clients := (clients u)(c \<mapsto> ?h)\<rparr>" c ?h ?h'] e p by simp
  qed
  show ?case
    unfolding wp_thenM
  proof (rule wp_ossl_call [OF 2(1)], goal_cases)
    case (2 r u)
    then have u: "objects_inv ?A u" "clients u = clients s" using \<open>clients t = clients s\<close> by auto
    show ?case
      unfolding wp_ret
      by (rule wp_on_throw_new [OF body [OF u]]) (use p owned in \<open>auto simp: HandshakeHash_dtor_def wp_set_client\<close>)
  qed simp
qed

text \<open>Deleting the object of a member, on the objects alone.\<close>

definition without_slot :: "slot \<Rightarrow> tls_handles \<Rightarrow> ossl \<Rightarrow> ossl" where
  "without_slot x h s = (case slot_ptr h x of None \<Rightarrow> s | Some p \<Rightarrow> s\<lparr>live := remove1 (p, slot_kind x) (live s)\<rparr>)"

lemma delete_slot:
  assumes "objects_inv A (s\<lparr>clients := (clients s)(c \<mapsto> h)\<rparr>)" and "slot_ptr h' x = None" and "changes_slot x h h'"
  shows "objects_inv A (without_slot x h s\<lparr>clients := (clients s)(c \<mapsto> h')\<rparr>)"
    and "slot_ptr h x = Some p \<Longrightarrow> (p, slot_kind x) \<in> set (live s)"
proof -
  let ?s = "s\<lparr>clients := (clients s)(c \<mapsto> h)\<rparr>"
  have "wp (case slot_ptr h x of None \<Rightarrow> ret () | Some p \<Rightarrow> ossl_free (slot_kind x) p)
      (\<lambda>_ t. objects_inv A (t\<lparr>clients := (clients ?s)(c \<mapsto> h')\<rparr>)) (\<lambda>_ _. False) ?s"
    by (rule wp_delete_member [OF assms(1) _ assms(2,3) refl, where Q = "\<lambda>_. objects_inv A"]) auto
  then show "objects_inv A (without_slot x h s\<lparr>clients := (clients s)(c \<mapsto> h')\<rparr>)"
    "slot_ptr h x = Some p \<Longrightarrow> (p, slot_kind x) \<in> set (live s)"
    by (auto simp: without_slot_def ossl_free_def wp_simps split: option.splits if_splits)
qed

lemma without_slot_clients [simp]: "clients (without_slot x h s) = clients s"
  by (simp add: without_slot_def split: option.split)

lemma wp_delete_slot:
  assumes "\<And>p. slot_ptr h x = Some p \<Longrightarrow> (p, slot_kind x) \<in> set (live s)" and "Q () (without_slot x h s)"
  shows "wp (case slot_ptr h x of None \<Rightarrow> ret () | Some p \<Rightarrow> ossl_free (slot_kind x) p) Q E s"
  using assms by (auto simp: without_slot_def ossl_free_def wp_simps split: option.split)

lemma all_slots: "(\<forall>y. P y) \<longleftrightarrow> P Hash_slot \<and> P Enc_slot \<and> P Dec_slot"
  by (metis slot.exhaust)

lemma delete_members:
  "delete_optional (enc_ptr h) = (case slot_ptr h Enc_slot of None \<Rightarrow> ret () | Some p \<Rightarrow> ossl_free (slot_kind Enc_slot) p)"
  "delete_optional (dec_ptr h) = (case slot_ptr h Dec_slot of None \<Rightarrow> ret () | Some p \<Rightarrow> ossl_free (slot_kind Dec_slot) p)"
  "HandshakeHash_dtor (hash_ptr h) = (case slot_ptr h Hash_slot of None \<Rightarrow> ret () | Some p \<Rightarrow> ossl_free (slot_kind Hash_slot) p)"
  by (auto simp: delete_optional_def EVPCipherCtxDeleter_def HandshakeHash_dtor_def split: option.splits)

lemma tidy_Client_dtor [tidy_intros]: "tidy A (Client_dtor c)"
proof (rule tidyI)
  fix s assume s: "objects_inv A s"
  have "wp (thenM (delete_optional (dec_ptr h)) (thenM (delete_optional (enc_ptr h))
      (thenM (HandshakeHash_dtor (hash_ptr h)) (set_client c None)))) (\<lambda>_. objects_inv A) (fails_well A) s" if h: "clients s c = Some h" for h
  proof -
    let ?h1 = "h\<lparr>dec_ptr := None\<rparr>" and ?h2 = "h\<lparr>dec_ptr := None, enc_ptr := None\<rparr>"
      and ?h3 = "h\<lparr>dec_ptr := None, enc_ptr := None, hash_ptr := None\<rparr>"
    let ?s1 = "without_slot Dec_slot h s"
    let ?s2 = "without_slot Enc_slot h ?s1"
    let ?s3 = "without_slot Hash_slot h ?s2"
    have c: "changes_slot Dec_slot h ?h1" "changes_slot Enc_slot ?h1 ?h2" "changes_slot Hash_slot ?h2 ?h3" and empty: "\<forall>y. slot_ptr ?h3 y = None"
      unfolding changes_slot_def all_slots by simp_all
    have w: "without_slot Enc_slot ?h1 = without_slot Enc_slot h" "without_slot Hash_slot ?h2 = without_slot Hash_slot h"
      by (simp_all add: without_slot_def fun_eq_iff)
    have 0: "objects_inv A (s\<lparr>clients := (clients s)(c \<mapsto> h)\<rparr>)" using s h by (simp add: fun_upd_idem)
    have 1: "objects_inv A (?s1\<lparr>clients := (clients ?s1)(c \<mapsto> ?h1)\<rparr>)" using delete_slot(1) [OF 0 _ c(1)] by simp
    have 2: "objects_inv A (?s2\<lparr>clients := (clients ?s2)(c \<mapsto> ?h2)\<rparr>)" using delete_slot(1) [OF 1 _ c(2)] by (simp add: w)
    have 3: "objects_inv A (?s3\<lparr>clients := (clients ?s3)(c \<mapsto> ?h3)\<rparr>)" using delete_slot(1) [OF 2 _ c(3)] by (simp add: w)
    have "objects_inv A (?s3\<lparr>clients := (clients ?s3)(c := None)\<rparr>)"
      using no_slots [OF 3, of c None] empty by force
    then show ?thesis
      unfolding wp_thenM delete_members
      using delete_slot(2) [OF 0 _ c(1)] delete_slot(2) [OF 1 _ c(2)] delete_slot(2) [OF 2 _ c(3)]
      by (intro wp_delete_slot) (simp_all add: wp_set_client)
  qed
  then show "wp (Client_dtor c) (\<lambda>_. objects_inv A) (fails_well A) s"
    by (auto simp: Client_dtor_def wp_with_client split: option.split)
qed

section \<open>Runs\<close>

definition is_move :: "client_op \<Rightarrow> bool" where
  "is_move op = (case op of Move_client _ _ \<Rightarrow> True | _ \<Rightarrow> False)"

lemma wp_client_op:
  assumes "objects_inv {} s" and "new_name s op" and "\<not> is_move op"
  shows "wp (client_op_prog ans op) (\<lambda>_. objects_inv {}) (fails_well {}) s"
proof (cases op)
  case (New_client c)
  then show ?thesis using wp_Client_ctor assms by (simp add: new_name_def)
qed (use assms in \<open>auto simp: is_move_def intro: tidyD [OF _ assms(1)] tidy_intros\<close>)

lemma objects_inv_run:
  "steps (client_step ans) s ops t \<Longrightarrow> objects_inv {} s \<Longrightarrow> list_all (Not \<circ> is_move) ops \<Longrightarrow> objects_inv {} t"
proof (induction ops arbitrary: s)
  case (Cons op ops)
  then obtain u where u: "client_step ans s op u" "steps (client_step ans) u ops t" by auto
  have "wp (client_op_prog ans op) (\<lambda>_. objects_inv {}) (fails_well {}) s"
    using Cons.prems u(1) by (intro wp_client_op) (auto simp: client_step_def)
  then have "objects_inv {} u" using u(1) by (auto simp: client_step_def wp_def fails_well_def split: prod.splits sum.splits)
  then show ?case using Cons.IH [OF u(2)] Cons.prems(3) by simp
qed simp

lemma objects_inv_start: "objects_inv {} ossl_start"
  by (simp add: objects_inv_def ossl_start_def holds_def)

section \<open>Properties\<close>

text \<open>
  C18: the objects of the TLS clients in a program that moves none of them. Whatever the library answers and wherever an
  operation throws, no operation frees an object twice or uses one that was freed; when the last client is gone
  every object that was made is freed.
\<close>

theorem tls_objects_in_order:
  assumes "steps (client_step ans) ossl_start ops t" and "list_all (Not \<circ> is_move) ops"
  shows "(\<forall>op. new_name t op \<and> \<not> is_move op \<longrightarrow>
      fst (client_op_prog ans op t) \<noteq> Inl double_free \<and> fst (client_op_prog ans op t) \<noteq> Inl use_after_free) \<and>
    ((\<forall>c. clients t c = None) \<longrightarrow> live t = [])"
proof -
  have inv: "objects_inv {} t" by (rule objects_inv_run [OF assms(1) objects_inv_start assms(2)])
  have "fst (client_op_prog ans op t) \<noteq> Inl double_free \<and> fst (client_op_prog ans op t) \<noteq> Inl use_after_free"
    if "new_name t op" "\<not> is_move op" for op
    using wp_client_op [OF inv that, of ans]
    by (auto simp: wp_def fails_well_def double_free_def use_after_free_def split: prod.splits sum.splits)
  moreover have "live t = []" if "\<forall>c. clients t c = None"
  proof -
    have "q \<notin> set (live t)" for q using objects_invD(3) [OF inv, of q] that by (auto simp: holds_def)
    then show ?thesis by (cases "live t") auto
  qed
  ultimately show ?thesis by blast
qed

definition demo_answers :: ossl_answers where
  "demo_answers = \<lparr>allocates = (\<lambda>_. True), call_result = (\<lambda>_. 1)\<rparr>"

lemma run_one_client:
  "\<exists>t. steps (client_step demo_answers) ossl_start [New_client 0, Key_exchange 0, Decrypt 0, Delete_client 0] t \<and> (\<forall>c. clients t c = None)"
  by (simp add: client_step_def new_name_def ossl_start_def demo_answers_def Client_ctor_def HandshakeHash_ctor_def ossl_new_def ossl_call_def
    ossl_use_def may_throw_def on_throw_def set_client_def key_exchange_objects_def generate_x25519_key_objects_def make_evp_key_ctx_def
    make_evp_key_def make_evp_cipher_ctx_def scoped_def require_positive_def keygen_def EVPKeyCtxDeleter_def EVPKeyDeleter_def ossl_free_def
    hash_update_member_def HandshakeHash_update_objects_def hash_finalize_member_def HandshakeHash_finalize_objects_def with_client_def
    prf_objects_def emplace_enc_def emplace_dec_def delete_optional_def EncryptContext_ctor_def encrypt_objects_def context_call_def
    decrypt_objects_def Client_dtor_def EVPCipherCtxDeleter_def HandshakeHash_dtor_def prog_defs)

theorem tls_objects_in_order_witness:
  "\<exists>t. steps (client_step demo_answers) ossl_start [New_client 0, Key_exchange 0, Decrypt 0, Delete_client 0] t \<and> live t = []"
proof -
  obtain t where t: "steps (client_step demo_answers) ossl_start [New_client 0, Key_exchange 0, Decrypt 0, Delete_client 0] t"
    "\<forall>c. clients t c = None" using run_one_client by blast
  then show ?thesis using tls_objects_in_order [OF t(1)] by (auto simp: is_move_def)
qed

text \<open>
  C19: moving a client is not safe although the class allows it. The digest context is copied, so after a move two
  clients hold the same one: when the source is destroyed, the next use of the target's digest is a use after free, and
  the destruction of the target frees the context a second time.
\<close>

theorem moved_client_double_free:
  assumes "objects_inv {} s" and "clients s other = Some h" and "hash_ptr h = Some p" and "clients s c = None" and "c \<noteq> other"
  shows "\<exists>t u. client_step ans s (Move_client c other) t \<and> client_step ans t (Delete_client other) u \<and>
    fst (client_op_prog ans (Hash_update c) u) = Inl use_after_free \<and> fst (client_op_prog ans (Delete_client c) u) = Inl double_free"
proof -
  let ?h' = "h\<lparr>enc_ptr := map_option (\<lambda>_. None) (enc_ptr h), dec_ptr := map_option (\<lambda>_. None) (dec_ptr h)\<rparr>"
  let ?t = "s\<lparr>clients := (clients s)(c \<mapsto> h, other \<mapsto> ?h')\<rparr>"
  let ?l = "remove1 (p, EVP_MD_CTX) (live s)"
  let ?u = "s\<lparr>live := ?l, clients := (clients s)(c \<mapsto> h, other := None)\<rparr>"
  note D = objects_invD [OF assms(1)]
  have held: "holds (clients s) other Hash_slot p" using assms(2,3) by (simp add: holds_def)
  have p: "(p, EVP_MD_CTX) \<in> set (live s)" using D(1) [OF held] by simp
  have d: "distinct (live s)" using assms(1) by (simp add: objects_inv_def distinct_map)
  have l: "set ?l = set (live s) - {(p, EVP_MD_CTX)}" by (rule set_remove1_eq [OF d])
  have gone: "(p, k) \<notin> set ?l" for k using one_kind [OF assms(1) p, of k] by (auto simp: l)
  have move: "client_step ans s (Move_client c other) ?t"
    using assms(2,4,5) by (simp add: client_step_def new_name_def Client_move_def with_client_def set_client_def prog_defs fun_upd_twist)
  have "Client_dtor other ?t = (Inr (), ?u)"
    using assms(2,3,5) p
    by (cases "enc_ptr h"; cases "dec_ptr h")
       (auto simp: Client_dtor_def with_client_def set_client_def delete_optional_def EVPCipherCtxDeleter_def HandshakeHash_dtor_def
         ossl_free_def prog_defs)
  then have delete: "client_step ans ?t (Delete_client other) ?u" by (simp add: client_step_def new_name_def)
  have "p \<notin> fst ` set ?l" using gone by force
  then have use: "fst (client_op_prog ans (Hash_update c) ?u) = Inl use_after_free"
    using assms(3,5) by (auto simp: hash_update_member_def HandshakeHash_update_objects_def with_client_def ossl_call_def ossl_use_def prog_defs)
  have slot: "(q, EVP_CIPHER_CTX) \<in> set ?l" if "slot_ptr h x = Some q" "x \<noteq> Hash_slot" for q x
    using D(1) [of other x q] assms(2) that by (cases x) (auto simp: l holds_def)
  have differ: "q \<noteq> q'" if "slot_ptr h Dec_slot = Some q" "slot_ptr h Enc_slot = Some q'" for q q'
    using D(4) [of other Dec_slot q other Enc_slot] assms(2) that by (auto simp: holds_def)
  have "wp (Client_dtor c) (\<lambda>_ _. False) (\<lambda>e _. e = double_free) ?u"
    using assms(3,5) slot [of Dec_slot] slot [of Enc_slot] differ gone [of EVP_MD_CTX]
    by (auto simp: Client_dtor_def wp_simps delete_optional_def EVPCipherCtxDeleter_def HandshakeHash_dtor_def ossl_free_def in_set_remove1
      split: option.splits)
  then have "fst (client_op_prog ans (Delete_client c) ?u) = Inl double_free"
    by (auto simp: wp_def split: prod.splits sum.splits)
  with move delete use show ?thesis by blast
qed

definition demo_objects :: ossl where
  "demo_objects = \<lparr>ossl_calls = 1, live = [(0, EVP_MD_CTX)],
     clients = [0 \<mapsto> \<lparr>hash_ptr = Some 0, enc_ptr = None, dec_ptr = None\<rparr>]\<rparr>"

lemma demo_objects_inv: "objects_inv {} demo_objects"
proof -
  have "holds (clients demo_objects) c x p \<longleftrightarrow> c = 0 \<and> x = Hash_slot \<and> p = 0" for c x p
    by (cases x) (auto simp: holds_def demo_objects_def)
  then show ?thesis by (auto simp: objects_inv_def demo_objects_def)
qed

theorem moved_client_double_free_witness:
  "\<exists>t u. client_step demo_answers demo_objects (Move_client 1 0) t \<and> client_step demo_answers t (Delete_client 0) u \<and>
    fst (client_op_prog demo_answers (Hash_update 1) u) = Inl use_after_free \<and>
    fst (client_op_prog demo_answers (Delete_client 1) u) = Inl double_free"
  by (rule moved_client_double_free [OF demo_objects_inv, where p = 0 and h = "\<lparr>hash_ptr = Some 0, enc_ptr = None, dec_ptr = None\<rparr>"]) (simp_all add: demo_objects_def)

end
