(* ===== verification/Spec2Isabelle.thy ===== *)
theory Spec2Isabelle
  imports UInt24 Service Session Formatters Log_Macros Openssl_Handles
begin

text \<open>
  A verification of the gateway and of the DPDK master service of this repository: a user-space network stack in C++
  (src/src/network) that opens a web socket over TLS 1.2 over TCP on DPDK queues, the worker that runs it
  (src/src/gateway), and the base library under both (src/src/base).

  \<^bold>\<open>The program and its theories.\<close> Packets come from a queue of a network card and climb through one layer per theory;
  what is sent goes the other way into the same device.

  \<^item> Prelude: the program monad all stateful code is written in. A member function that may throw is a function from
    the state to the value or the error, and to the state it leaves, since a C++ exception undoes nothing. Weakest
    preconditions of the combinators, 64-bit sizes that wrap, byte memory with reads and writes, loops.
  \<^item> Endian, UInt24, Net_Types: big-endian fields (type/big_endian.h), the 24-bit integer (base/type/uint24.h),
    hardware and IP addresses with their text forms, ports, hosts, sessions and connections (network/type). The locale
    \<open>packed_struct\<close> is the contract of a structure that is laid over bytes; every header is an interpretation.
  \<^item> Streams: the growing byte stream and the two views over foreign memory (base/stream).
  \<^item> Eth_Ip, Tcp_Packet: the packet views over raw bytes (network/eth_ip, network/tcp), with option parsing, flags and
    sequence numbers.
  \<^item> Device, Handle: the DPDK device and its sender (network/dpdk/device.cpp, packet.h, sender.h), and the ownership of
    packet buffers by handles over an explicit store.
  \<^item> Tcp_Client, Arp: the TCP client (network/tcp/client.cpp) and the ARP handler (network/arp), both over the device.
  \<^item> Tls_Model, Tls_Client, Tls_Handshake: the messages of TLS 1.2, the client (network/tls12) with key derivation and
    record protection, and its behaviour over a whole handshake.
  \<^item> Wss_Frame, Wss_Client: web socket frames, and the client that upgrades the connection and hands out messages
    (network/wss).
  \<^item> Dpdk_Setup, Master_Service: the interface configuration and the set-up of a worker's device (network/interface,
    network/dpdk/dpdk.cpp), and the process that configures the ports (network/dpdk/master_serivce.cpp).
  \<^item> Gateway, Session, Service: the worker's loop over all of the above (gateway/ws_demo); a server as a state machine
    of its own and the worker's whole session with it; the two services as their launchers run them, and the programs
    of src/tool.
  \<^item> Openssl_Handles: allocation and release of the objects of OpenSSL by the TLS client (network/tls12/openssl.cpp,
    type.cpp, client.h), on every way out of its functions. What they compute is in Tls_Client.
  \<^item> Literal, Chrono_Config, Config_File: literals, durations and files of the configuration
    (base/logger/rfl_chrono_crutch, base/serialiser).
  \<^item> Rdtsc_Clock, Thread_Utils, Logger, Launcher: the tick clock, the watchdog and processor binding, the logger, the
    command line, the start of a service and its end by a signal (base/clock, base/thread, base/logger,
    base/launcher).
  \<^item> Log_Macros, Formatters: the log macros and the checks of the REQUIRE family with the lines they write
    (base/logger/macros.h, base/macros/require.h), the text of every formatted type, the moment at which it is
    formatted, and the helpers of base/type.

  \<^bold>\<open>State and composition.\<close> The state of a class is a record with the fields of the class. Where the code nests
  objects, the record of the outer class extends that of the inner one: a TLS client is a TCP client with more fields,
  a web socket client a TLS client with more fields, and all contain the device and, as the world, what is outside. An
  operation of an inner layer is therefore an operation of every outer one, and the lemmas of a layer hold for all
  extensions. The locales \<open>send_frame_condition\<close>, \<open>tcp_frame_condition\<close>, \<open>seal_frame_condition\<close>,
  \<open>flush_frame_condition\<close>, \<open>receive_frame_condition\<close>, \<open>beside_receive\<close> and \<open>beside_tls\<close>, each built on the ones
  before, state what the operations of the lower layers leave alone; they are interpreted on the fields of each layer.
  Code that runs beside other code is a step relation: the signal handler beside the waiting service (\<open>sig_step\<close>) and
  the watchdog beside its caller (\<open>watch_step\<close>). Runs of such relations and the contract of their invariants (the
  locale \<open>step_invariant\<close>) are in Steps.

  \<^bold>\<open>Parameters.\<close> DPDK, OpenSSL, the operating system with its inet_pton and inet_ntop, the parsers of file formats and
  of the command line, the log library and floating-point arithmetic are not part of the program. They are arguments
  of the definitions: records of functions, over a world of their own where they have state. What the program relies
  on of them is a named predicate (\<open>dpdk_ok\<close>, \<open>dpdk_reliable\<close>, \<open>ssl_ok\<close>, \<open>ssl_reliable\<close>, \<open>evp_reliable\<close>, \<open>wss_ok\<close>,
  \<open>frontend_ok\<close>, \<open>env_succeeds\<close>, \<open>codec_ok\<close>), and each has an instance on which the witnesses run. The ports of the
  master service answer arbitrarily from the history of the calls, and so do the allocations and calls of OpenSSL in
  Openssl_Handles; those theorems hold for every DPDK and every OpenSSL.

  \<^bold>\<open>Errors and loops.\<close> Exceptions are values of \<open>error\<close>; an access outside an object, a null pointer, a division by
  zero or a signed overflow is the value \<open>Undefined_behaviour\<close>, so that its absence, or the condition for it, is part
  of a theorem. Loops are recursive functions with a termination proof, or, where the code may not end, partial
  functions to an option whose \<open>None\<close> means that it does not: \<open>Tls_receive\<close>, \<open>drain_tls\<close>, \<open>message_loop\<close>,
  \<open>clear_receive_queue_loop\<close>. That they return is proved, or the exact condition for it. The receive loop of the
  worker takes the number of iterations until the stop flag is seen.

  \<^bold>\<open>What is shown.\<close> Above all, that the worker carries a whole session with a server that follows the protocols
  (Session), from the answer to the connection request through the flight of the TLS handshake, the Finished messages
  and the upgrade to the messages. The session is a step relation of the server alone: flight, records, response and
  frames are cut into segments at any place, which arrive in any bursts, with bare acknowledgements, empty polls and
  packets of other protocols between. Its scope is the one the code can keep up with: segments in order that
  acknowledge only what is outstanding and leave a window, one record for each message of the handshake, contents that
  fit the client's buffers, and frames with an operation code of at most 10 and a payload that is not exactly 125
  bytes long. Within it the worker hands out exactly the server's messages, where a control frame defers the messages
  behind it to the next packet, sends in every step exactly the frames it should, byte for byte, and holds the keys of
  the key schedule. It ends, except where a segment is cut behind the change of cipher inside the Finished record,
  from where it never ends (the phase \<open>Hung\<close>); and it throws only when a call of DPDK or OpenSSL fails. Its set-up
  leads to the beginning of such a session, with the connection request as the one frame sent.

  Below that: the accounting of the TCP client in every reachable state, also behind a connect that threw, and the
  frames it sends; the ClientHello against a specification of its own, the server flight of the TLS handshake, sealing
  and opening of records, and when receiving does not end; the upgrade of the connection; exactly which frames are
  read; conservation of the send queue and the order of the receive bursts; unique ownership of packet buffers and of
  the objects of OpenSSL; the answers to ARP; memory safety and completeness of the option parser. For the services:
  the order of the calls to DPDK and their undoing, the balance of the redirection table, exactly when the set-up
  leaves defined behaviour, that no signal is lost, what the watchdog guarantees between its threads and what it does
  not, round trips and bounds of durations and the clock, and that literals never leave their fields.

  \<^bold>\<open>Where the code does not do what it means to\<close>, the theorems state what it does: a retransmitted segment is handed
  to TLS twice, records are accepted with any authentication tag, a control frame ends the delivery loop early,
  receiving does not end on a change of cipher with an incomplete record behind it, a frame with a payload of 125
  bytes is misread, the ClientHello states an empty list of signature algorithms, a connect that throws leaves the
  client connecting with its SYN uncounted, a function that ends while the watchdog is about to exit is cut off,
  durations in hours cannot be read back, a rotated log has no sink, the read-back of the redirection table is read
  out of bounds for small tables, a moved TLS client frees its digest twice.

  \<^bold>\<open>Not modelled.\<close> The log statements between the steps of the other components, which have no effect on the program
  (reads that their arguments perform are kept where they can fail); the stack trace the launcher prints; concepts and
  casts without behaviour of their own, which are identities on byte lists; the functions that describe schemas, which
  only forward to a library; the patterns and rotation settings the log library reads; build files and tests. The
  arithmetic of doubles is a parameter, since its rounding is not the program's.
\<close>

end
